theory Spec2Isabelle
  imports Complex_Main "HOL-Library.Word" "HOL-Library.Multiset"
begin

section \<open>JavaScript numbers\<close>

text \<open>
  The two processing servers compute with JavaScript numbers. A finite number is
  modelled by the real it denotes, and the three special values are kept apart, because
  the code produces them: \<^verbatim>\<open>-Infinity\<close> is the initial \<^verbatim>\<open>maxCorr\<close>, \<^verbatim>\<open>0/0\<close> is \<^verbatim>\<open>NaN\<close>, and
  the local median filter uses \<^verbatim>\<open>NaN\<close> as its mark for a suspect component. Zero carries no
  sign: no comparison sees the sign of zero, and no divisor in the code below can be a
  negative zero (the divisors are lengths, counts, a count times a square root, and a
  calibration factor that is not zero).
\<close>

datatype jsnum = Num real | NaN | PInf | NInf

text \<open>
  Every function below takes the arithmetic as its first argument. Under \<open>Double\<close> each
  operation delivers what IEEE 754 binary64 delivers: the representable number nearest
  to the exact result, the one with an even significand on a tie, and an infinity when
  the rounded result leaves the exponent range; a store into a \<^verbatim>\<open>Float32Array\<close> rounds
  once more, to binary32. Under \<open>Exact\<close> no operation rounds: this is the reading of a
  formula over the reals, in which a claim about the value of a score or of a mean is
  stated. Which offset wins a comparison, and which vector passes a threshold test, is
  a matter of \<open>Double\<close>.
\<close>

datatype arith = Exact | Double

text \<open>Rounding to the nearest integer, to the even one on a tie.\<close>

definition round_even :: "real \<Rightarrow> int" where
  "round_even q =
     (let f = \<lfloor>q\<rfloor>; r = q - of_int f
      in if r < 1 / 2 then f else if 1 / 2 < r then f + 1 else if even f then f else f + 1)"

text \<open>
  Rounding to a binary format with \<open>p\<close> significant bits and exponents from \<open>emin\<close> to
  \<open>emax\<close>: the unit in the last place of \<open>x\<close> is \<open>2\<close> to the power \<open>e - p + 1\<close>, where \<open>e\<close>
  is the exponent of \<open>x\<close>, not below \<open>emin\<close> (below it lie the subnormal numbers, which
  share the unit of \<open>emin\<close>).
\<close>

definition round_to :: "nat \<Rightarrow> int \<Rightarrow> int \<Rightarrow> real \<Rightarrow> jsnum" where
  "round_to p emin emax x =
     (if x = 0 then Num 0
      else (let e = max \<lfloor>log 2 \<bar>x\<bar>\<rfloor> emin;
                ulp = 2 powi (e - int p + 1);
                y = of_int (round_even (x / ulp)) * ulp
            in if 2 powi (emax + 1) \<le> \<bar>y\<bar> then (if x < 0 then NInf else PInf) else Num y))"

text \<open>The number an operation delivers when its exact result is \<open>x\<close>.\<close>

fun fl :: "arith \<Rightarrow> real \<Rightarrow> jsnum" where
  "fl Exact x = Num x"
| "fl Double x = round_to 53 (- 1022) 1023 x"

text \<open>The element a \<^verbatim>\<open>Float32Array\<close> holds after the number \<open>a\<close> is stored into it.\<close>

fun to_float32 :: "arith \<Rightarrow> jsnum \<Rightarrow> jsnum" where
  "to_float32 Exact a = a"
| "to_float32 Double (Num x) = round_to 24 (- 126) 127 x"
| "to_float32 Double a = a"

fun js_neg :: "jsnum \<Rightarrow> jsnum" where
  "js_neg (Num a) = Num (- a)"
| "js_neg NaN = NaN"
| "js_neg PInf = NInf"
| "js_neg NInf = PInf"

fun js_add :: "arith \<Rightarrow> jsnum \<Rightarrow> jsnum \<Rightarrow> jsnum" where
  "js_add A (Num a) (Num b) = fl A (a + b)"
| "js_add A NaN _ = NaN"
| "js_add A _ NaN = NaN"
| "js_add A PInf NInf = NaN"
| "js_add A NInf PInf = NaN"
| "js_add A PInf _ = PInf"
| "js_add A _ PInf = PInf"
| "js_add A NInf _ = NInf"
| "js_add A _ NInf = NInf"

definition js_sub :: "arith \<Rightarrow> jsnum \<Rightarrow> jsnum \<Rightarrow> jsnum" where
  "js_sub A a b = js_add A a (js_neg b)"

text \<open>The sign of a number that is not \<^verbatim>\<open>NaN\<close>: \<open>-1\<close>, \<open>0\<close> or \<open>1\<close>.\<close>

fun js_sign :: "jsnum \<Rightarrow> int" where
  "js_sign (Num a) = (if a < 0 then - 1 else if a = 0 then 0 else 1)"
| "js_sign PInf = 1"
| "js_sign NInf = - 1"
| "js_sign NaN = 0"

definition js_inf :: "int \<Rightarrow> jsnum" where
  "js_inf s = (if s < 0 then NInf else PInf)"

fun js_mul :: "arith \<Rightarrow> jsnum \<Rightarrow> jsnum \<Rightarrow> jsnum" where
  "js_mul A (Num a) (Num b) = fl A (a * b)"
| "js_mul A NaN _ = NaN"
| "js_mul A _ NaN = NaN"
| "js_mul A a b = (if js_sign a * js_sign b = 0 then NaN else js_inf (js_sign a * js_sign b))"

text \<open>
  \<^verbatim>\<open>Math.pow(d, 2)\<close>. ECMAScript leaves the precision of \<^verbatim>\<open>Math.pow\<close> to the
  implementation; it is taken here to deliver the rounded square, as \<^verbatim>\<open>d * d\<close> does.
\<close>

definition js_pow2 :: "arith \<Rightarrow> jsnum \<Rightarrow> jsnum" where
  "js_pow2 A d = js_mul A d d"

text \<open>
  Division: a finite number over zero is an infinity of the dividend's sign, \<^verbatim>\<open>0/0\<close> and
  \<^verbatim>\<open>Infinity/Infinity\<close> are \<^verbatim>\<open>NaN\<close>.
\<close>

fun js_div :: "arith \<Rightarrow> jsnum \<Rightarrow> jsnum \<Rightarrow> jsnum" where
  "js_div A (Num a) (Num b) =
     (if b = 0 then (if a = 0 then NaN else if a < 0 then NInf else PInf) else fl A (a / b))"
| "js_div A NaN _ = NaN"
| "js_div A _ NaN = NaN"
| "js_div A (Num a) _ = Num 0"
| "js_div A a (Num b) = js_inf (js_sign a * (if b < 0 then - 1 else 1))"
| "js_div A _ _ = NaN"

text \<open>\<^verbatim>\<open>Math.sqrt\<close> is correctly rounded.\<close>

fun js_sqrt :: "arith \<Rightarrow> jsnum \<Rightarrow> jsnum" where
  "js_sqrt A (Num a) = (if a < 0 then NaN else fl A (sqrt a))"
| "js_sqrt A PInf = PInf"
| "js_sqrt A _ = NaN"

fun js_abs :: "jsnum \<Rightarrow> jsnum" where
  "js_abs (Num a) = Num \<bar>a\<bar>"
| "js_abs NaN = NaN"
| "js_abs _ = PInf"

fun js_floor :: "jsnum \<Rightarrow> jsnum" where
  "js_floor (Num a) = Num (of_int \<lfloor>a\<rfloor>)"
| "js_floor a = a"

text \<open>Comparisons are false as soon as one side is \<^verbatim>\<open>NaN\<close>.\<close>

fun js_lt :: "jsnum \<Rightarrow> jsnum \<Rightarrow> bool" where
  "js_lt (Num a) (Num b) = (a < b)"
| "js_lt NaN _ = False"
| "js_lt _ NaN = False"
| "js_lt _ NInf = False"
| "js_lt PInf _ = False"
| "js_lt _ _ = True"

definition js_gt :: "jsnum \<Rightarrow> jsnum \<Rightarrow> bool" where
  "js_gt a b = js_lt b a"

definition js_le :: "jsnum \<Rightarrow> jsnum \<Rightarrow> bool" where
  "js_le a b = (a \<noteq> NaN \<and> b \<noteq> NaN \<and> \<not> js_lt b a)"

definition js_ge :: "jsnum \<Rightarrow> jsnum \<Rightarrow> bool" where
  "js_ge a b = js_le b a"

definition isNaN :: "jsnum \<Rightarrow> bool" where
  "isNaN a = (a = NaN)"

text \<open>
  Loop counters, offsets and array indices only take integer values, far below \<open>2\<close> to
  the power \<open>53\<close> for every array that can exist: they are integers, and their arithmetic
  is exact. A counter that enters the arithmetic of numbers does so through
  \<open>num_of_int\<close>.
\<close>

definition num_of_int :: "int \<Rightarrow> jsnum" where
  "num_of_int k = Num (real_of_int k)"

text \<open>
  A numeric array (a \<^verbatim>\<open>Float32Array\<close> or a plain array of numbers) is a list of
  numbers. Reading outside the array gives \<^verbatim>\<open>undefined\<close>, which every arithmetic
  operation turns into \<^verbatim>\<open>NaN\<close>.
\<close>

definition rd :: "jsnum list \<Rightarrow> int \<Rightarrow> jsnum" where
  "rd xs k = (if 0 \<le> k \<and> k < int (length xs) then xs ! nat k else NaN)"

text \<open>
  \<^verbatim>\<open>.sort((a, b) => a - b)\<close> on numbers none of which is \<^verbatim>\<open>NaN\<close>: the ascending order, by
  insertion. (The difference of two numbers has the sign of their comparison, and the
  comparator gives \<^verbatim>\<open>NaN\<close>, which counts as equal, only for two infinities of one sign.)
\<close>

fun js_insort :: "jsnum \<Rightarrow> jsnum list \<Rightarrow> jsnum list" where
  "js_insort a [] = [a]"
| "js_insort a (b # bs) = (if js_lt b a then b # js_insort a bs else a # b # bs)"

definition js_sort :: "jsnum list \<Rightarrow> jsnum list" where
  "js_sort xs = foldr js_insort xs []"

text \<open>
  \<^verbatim>\<open>sorted[Math.floor(sorted.length / 2)]\<close> of the ascending sort: the upper median. The
  index is inside a list that is not empty.
\<close>

definition js_median :: "jsnum list \<Rightarrow> jsnum" where
  "js_median xs = js_sort xs ! (length xs div 2)"

section \<open>The exhaustive strategy: \<^verbatim>\<open>normalizedCrossCorrelation\<close>\<close>

text \<open>
  The result object \<^verbatim>\<open>{ dx, dy, correlation }\<close>; the fields carry the prefix \<open>ncc_\<close>.
\<close>

record ncc_result =
  ncc_dx :: int
  ncc_dy :: int
  ncc_correlation :: jsnum

text \<open>
  \<^verbatim>\<open>template.reduce((sum, val) => sum + val, 0) / template.length\<close>,
  \<^verbatim>\<open>template.map(v => v - templateMean)\<close> and
  \<^verbatim>\<open>Math.sqrt(templateNorm.reduce((sum, v) => sum + v * v, 0) / template.length)\<close>. The
  template is the \<^verbatim>\<open>Float32Array\<close> that \<^verbatim>\<open>extractWindow\<close> returns, so \<^verbatim>\<open>map\<close> builds a
  \<^verbatim>\<open>Float32Array\<close> again: each difference is stored as a binary32 number.
\<close>

definition templateMean :: "arith \<Rightarrow> jsnum list \<Rightarrow> jsnum" where
  "templateMean A template =
     js_div A (foldl (\<lambda>sum val. js_add A sum val) (Num 0) template)
              (Num (real (length template)))"

definition templateNorm :: "arith \<Rightarrow> jsnum list \<Rightarrow> jsnum list" where
  "templateNorm A template =
     map (\<lambda>v. to_float32 A (js_sub A v (templateMean A template))) template"

definition templateStd :: "arith \<Rightarrow> jsnum list \<Rightarrow> jsnum" where
  "templateStd A template =
     js_sqrt A (js_div A (foldl (\<lambda>sum v. js_add A sum (js_mul A v v)) (Num 0)
                             (templateNorm A template))
                       (Num (real (length template))))"

text \<open>
  The body of the two innermost loops, for the pixel in column \<open>i\<close> of row \<open>j\<close>: the
  accumulator is the pair \<^verbatim>\<open>(correlation, count)\<close>. The bound test is on the flat index
  \<^verbatim>\<open>searchIdx\<close> alone.
\<close>

definition corr_pixel ::
  "arith \<Rightarrow> jsnum list \<Rightarrow> jsnum list \<Rightarrow> jsnum \<Rightarrow> int \<Rightarrow> int \<Rightarrow> int \<Rightarrow> int \<Rightarrow> int
     \<Rightarrow> jsnum \<times> int \<Rightarrow> jsnum \<times> int" where
  "corr_pixel A tnorm search tmean windowSize ox oy j i acc =
     (let searchIdx = (j + oy) * windowSize + (i + ox) in
      if searchIdx \<ge> 0 \<and> searchIdx < int (length search) then
        (let templateIdx = j * windowSize + i in
         (js_add A (fst acc)
            (js_mul A (rd tnorm templateIdx) (js_sub A (rd search searchIdx) tmean)),
          snd acc + 1))
      else acc)"

text \<open>The loops over \<open>j\<close> and \<open>i\<close> at one offset \<open>(ox, oy)\<close>, from \<^verbatim>\<open>(0, 0)\<close>.\<close>

definition corr_sum ::
  "arith \<Rightarrow> jsnum list \<Rightarrow> jsnum list \<Rightarrow> jsnum \<Rightarrow> int \<Rightarrow> int \<Rightarrow> int \<Rightarrow> jsnum \<times> int" where
  "corr_sum A tnorm search tmean windowSize ox oy =
     foldl (\<lambda>acc j. foldl (\<lambda>acc i. corr_pixel A tnorm search tmean windowSize ox oy j i acc)
                            acc [0..windowSize - 1])
           (Num 0, 0) [0..windowSize - 1]"

text \<open>
  The score of one offset: \<^verbatim>\<open>correlation / (count * templateStd)\<close> when
  \<^verbatim>\<open>count > 0\<close>; an offset with no counted pixel has no score and is passed over.
\<close>

definition offset_score ::
  "arith \<Rightarrow> jsnum list \<Rightarrow> jsnum list \<Rightarrow> jsnum \<Rightarrow> jsnum \<Rightarrow> int \<Rightarrow> int \<Rightarrow> int \<Rightarrow> jsnum option" where
  "offset_score A tnorm search tmean tstd windowSize ox oy =
     (let (correlation, count) = corr_sum A tnorm search tmean windowSize ox oy in
      if count > 0 then Some (js_div A correlation (js_mul A (num_of_int count) tstd))
      else None)"

text \<open>
  One turn of the loop over the offsets: the state is \<^verbatim>\<open>(maxCorr, bestDx, bestDy)\<close>,
  replaced when the score is strictly greater than \<^verbatim>\<open>maxCorr\<close>.
\<close>

definition offset_step ::
  "arith \<Rightarrow> jsnum list \<Rightarrow> jsnum list \<Rightarrow> jsnum \<Rightarrow> jsnum \<Rightarrow> int \<Rightarrow> int \<Rightarrow> int
     \<Rightarrow> jsnum \<times> int \<times> int \<Rightarrow> jsnum \<times> int \<times> int" where
  "offset_step A tnorm search tmean tstd windowSize oy ox st =
     (case offset_score A tnorm search tmean tstd windowSize ox oy of
        None \<Rightarrow> st
      | Some correlation \<Rightarrow> if js_gt correlation (fst st) then (correlation, ox, oy) else st)"

definition offset_scan ::
  "arith \<Rightarrow> jsnum list \<Rightarrow> jsnum list \<Rightarrow> jsnum \<Rightarrow> jsnum \<Rightarrow> int \<Rightarrow> int \<Rightarrow> jsnum \<times> int \<times> int" where
  "offset_scan A tnorm search tmean tstd windowSize searchRange =
     foldl (\<lambda>st oy. foldl (\<lambda>st ox. offset_step A tnorm search tmean tstd windowSize oy ox st)
                          st [- searchRange..searchRange])
           (NInf, 0, 0) [- searchRange..searchRange]"

definition normalizedCrossCorrelation ::
  "arith \<Rightarrow> jsnum list \<Rightarrow> jsnum list \<Rightarrow> int \<Rightarrow> int \<Rightarrow> ncc_result" where
  "normalizedCrossCorrelation A template search windowSize searchRange =
     (if templateStd A template = Num 0
      then \<lparr>ncc_dx = 0, ncc_dy = 0, ncc_correlation = Num 0\<rparr>
      else (case offset_scan A (templateNorm A template) search (templateMean A template)
                   (templateStd A template) windowSize searchRange of
              (maxCorr, bestDx, bestDy) \<Rightarrow>
                \<lparr>ncc_dx = bestDx, ncc_dy = bestDy, ncc_correlation = maxCorr\<rparr>))"

text \<open>
  The spec's words for a patch of finite samples: the mean and the population standard
  deviation.
\<close>

definition mean :: "real list \<Rightarrow> real" where
  "mean t = sum_list t / real (length t)"

definition pstd :: "real list \<Rightarrow> real" where
  "pstd t = sqrt (sum_list (map (\<lambda>v. (v - mean t) * (v - mean t)) t) / real (length t))"

text \<open>
  The pixels of a window in the order of the two innermost loops, as pairs \<open>(j, i)\<close> of
  row and column; the test that the shifted pixel \<open>(i + ox, j + oy)\<close> lies inside the
  patch; the test the code makes, on the flat index; and the offsets at which the two
  tests agree on every pixel of the window.
\<close>

definition window_pixels :: "int \<Rightarrow> (int \<times> int) list" where
  "window_pixels W = List.product [0..W - 1] [0..W - 1]"

definition inside :: "int \<Rightarrow> int \<Rightarrow> int \<Rightarrow> int \<times> int \<Rightarrow> bool" where
  "inside W ox oy = (\<lambda>(j, i). 0 \<le> i + ox \<and> i + ox < W \<and> 0 \<le> j + oy \<and> j + oy < W)"

definition flat_inside :: "int \<Rightarrow> int \<Rightarrow> int \<Rightarrow> int \<Rightarrow> int \<times> int \<Rightarrow> bool" where
  "flat_inside W n ox oy =
     (\<lambda>(j, i). 0 \<le> (j + oy) * W + (i + ox) \<and> (j + oy) * W + (i + ox) < n)"

definition overlap_pixels :: "int \<Rightarrow> int \<Rightarrow> int \<Rightarrow> (int \<times> int) list" where
  "overlap_pixels W ox oy = filter (inside W ox oy) (window_pixels W)"

definition no_wrap :: "int \<Rightarrow> int \<Rightarrow> int \<Rightarrow> bool" where
  "no_wrap W ox oy =
     (\<forall>p \<in> set (window_pixels W). flat_inside W (W * W) ox oy p = inside W ox oy p)"

text \<open>
  The score of an offset in the spec's words: the template sample minus the template
  mean, times the raw search sample, summed over the overlapping pixels and divided by
  their number times the template's standard deviation.
\<close>

definition spec_score :: "real list \<Rightarrow> real list \<Rightarrow> int \<Rightarrow> int \<Rightarrow> int \<Rightarrow> real" where
  "spec_score t s W ox oy =
     sum_list (map (\<lambda>(j, i). (t ! nat (j * W + i) - mean t) * s ! nat ((j + oy) * W + (i + ox)))
                   (overlap_pixels W ox oy))
       / (real (length (overlap_pixels W ox oy)) * pstd t)"

text \<open>The same sum with the template mean taken off the search sample as well.\<close>

definition centred_score :: "real list \<Rightarrow> real list \<Rightarrow> int \<Rightarrow> int \<Rightarrow> int \<Rightarrow> real" where
  "centred_score t s W ox oy =
     sum_list (map (\<lambda>(j, i). (t ! nat (j * W + i) - mean t)
                               * (s ! nat ((j + oy) * W + (i + ox)) - mean t))
                   (overlap_pixels W ox oy))
       / (real (length (overlap_pixels W ox oy)) * pstd t)"

text \<open>
  The offsets in the order the two outer loops visit them, as pairs \<open>(oy, ox)\<close>: \<^verbatim>\<open>dy\<close> outside,
  \<^verbatim>\<open>dx\<close> inside, both from \<^verbatim>\<open>-searchRange\<close> up; and the order in which one offset is visited
  before another.
\<close>

definition search_offsets :: "int \<Rightarrow> (int \<times> int) list" where
  "search_offsets searchRange = List.product [- searchRange..searchRange] [- searchRange..searchRange]"

definition scan_before :: "int \<times> int \<Rightarrow> int \<times> int \<Rightarrow> bool" where
  "scan_before = (\<lambda>(oy, ox) (oy', ox'). oy < oy' \<or> (oy = oy' \<and> ox < ox'))"

text \<open>
  What a scan with a strict comparison leaves: \<open>b\<close> is a candidate of the list with score
  \<open>m\<close>, no candidate scores more, and a candidate that scores as much is \<open>b\<close> or comes
  after it. A candidate whose score is \<^verbatim>\<open>NaN\<close> never wins a comparison.
\<close>

definition scan_best ::
  "(int \<times> int \<Rightarrow> jsnum) \<Rightarrow> (int \<times> int \<Rightarrow> int \<times> int \<Rightarrow> bool) \<Rightarrow> (int \<times> int) list
     \<Rightarrow> jsnum \<Rightarrow> int \<times> int \<Rightarrow> bool" where
  "scan_best sc R ps m b =
     (b \<in> set ps \<and> sc b = m \<and>
      (\<forall>p \<in> set ps. sc p \<noteq> NaN \<longrightarrow> js_le (sc p) m \<and> (sc p = m \<longrightarrow> p = b \<or> R b p)))"

text \<open>The score of an offset, \<^verbatim>\<open>NaN\<close> when the offset is passed over.\<close>

definition score_or_nan ::
  "arith \<Rightarrow> jsnum list \<Rightarrow> jsnum list \<Rightarrow> jsnum \<Rightarrow> jsnum \<Rightarrow> int \<Rightarrow> int \<times> int \<Rightarrow> jsnum" where
  "score_or_nan A tnorm search tmean tstd W =
     (\<lambda>(oy, ox). case offset_score A tnorm search tmean tstd W ox oy of None \<Rightarrow> NaN | Some c \<Rightarrow> c)"

text \<open>The score \<^verbatim>\<open>normalizedCrossCorrelation\<close> gives an offset of a template and a search patch.\<close>

definition patch_score ::
  "arith \<Rightarrow> jsnum list \<Rightarrow> jsnum list \<Rightarrow> int \<Rightarrow> int \<Rightarrow> int \<Rightarrow> jsnum option" where
  "patch_score A template search W ox oy =
     offset_score A (templateNorm A template) search (templateMean A template)
       (templateStd A template) W ox oy"

section \<open>The vector field of the exhaustive strategy: \<^verbatim>\<open>computePIVField\<close>\<close>

text \<open>
  A decoded frame \<^verbatim>\<open>{ pixels, width, height }\<close>: \<^verbatim>\<open>pixels\<close> is a \<^verbatim>\<open>Uint8Array\<close>. Reading a byte
  outside the buffer gives \<^verbatim>\<open>undefined\<close>, which a \<^verbatim>\<open>Float32Array\<close> stores as \<^verbatim>\<open>NaN\<close>; a
  byte is stored as it is.
\<close>

record frame =
  frame_pixels :: "8 word list"
  frame_width :: int
  frame_height :: int

definition rd_pixel :: "8 word list \<Rightarrow> int \<Rightarrow> jsnum" where
  "rd_pixel pixels k =
     (if 0 \<le> k \<and> k < int (length pixels) then Num (real (unat (pixels ! nat k))) else NaN)"

text \<open>
  The object \<^verbatim>\<open>PIV_CONFIG\<close>; the fields carry the prefix \<open>cfg_\<close>. The literal \<^verbatim>\<open>0.1\<close>
  denotes the binary64 number nearest to a tenth.
\<close>

record piv_config =
  cfg_interrogationWindow :: int
  cfg_overlap :: real
  cfg_searchRange :: int
  cfg_subPixelAccuracy :: bool
  cfg_outlierThreshold :: real
  cfg_minimumCorrelation :: real
  cfg_visualizationGridSize :: int
  cfg_skipFramesFactor :: int

definition PIV_CONFIG :: piv_config where
  "PIV_CONFIG = \<lparr>cfg_interrogationWindow = 64, cfg_overlap = 1 / 2, cfg_searchRange = 32,
     cfg_subPixelAccuracy = True, cfg_outlierThreshold = 3,
     cfg_minimumCorrelation = 3602879701896397 / 36028797018963968,
     cfg_visualizationGridSize = 64, cfg_skipFramesFactor = 24\<rparr>"

text \<open>
  A vector \<^verbatim>\<open>{ x, y, u, v, correlation }\<close> of the field; the fields carry the prefix
  \<open>vec_\<close>. \<open>u\<close> and \<open>v\<close> are the loop counters \<^verbatim>\<open>dx\<close> and \<^verbatim>\<open>dy\<close> of the winning offset.
\<close>

record vector =
  vec_x :: real
  vec_y :: real
  vec_u :: int
  vec_v :: int
  vec_correlation :: jsnum

text \<open>
  \<^verbatim>\<open>extractWindow\<close>: a zero-filled \<^verbatim>\<open>Float32Array\<close> of \<^verbatim>\<open>windowSize * windowSize\<close> samples,
  written where the pixel lies inside the frame.
\<close>

definition extractWindow :: "8 word list \<Rightarrow> int \<Rightarrow> int \<Rightarrow> int \<Rightarrow> int \<Rightarrow> int \<Rightarrow> jsnum list" where
  "extractWindow pixels width height x y windowSize =
     foldl (\<lambda>window j.
              foldl (\<lambda>window i.
                       (let px = x + i; py = y + j in
                        if px \<ge> 0 \<and> px < width \<and> py \<ge> 0 \<and> py < height
                        then window[nat (j * windowSize + i) := rd_pixel pixels (py * width + px)]
                        else window))
                    window [0..windowSize - 1])
           (replicate (nat (windowSize * windowSize)) (Num 0)) [0..windowSize - 1]"

text \<open>
  The body of the loop over \<open>x\<close>: the two windows, their correlation, and the vector pushed
  when the correlation reaches \<^verbatim>\<open>config.minimumCorrelation\<close>.
\<close>

definition window_vector ::
  "arith \<Rightarrow> 8 word list \<Rightarrow> 8 word list \<Rightarrow> int \<Rightarrow> int \<Rightarrow> int \<Rightarrow> int \<Rightarrow> real \<Rightarrow> int \<Rightarrow> int
     \<Rightarrow> vector list \<Rightarrow> vector list" where
  "window_vector A pixels1 pixels2 width height windowSize sRange minCorr y x vectors =
     (let window1 = extractWindow pixels1 width height x y windowSize;
          window2 = extractWindow pixels2 width height x y windowSize;
          result = normalizedCrossCorrelation A window1 window2 windowSize sRange
      in if js_ge (ncc_correlation result) (Num minCorr)
         then vectors @ [\<lparr>vec_x = real_of_int x + real_of_int windowSize / 2,
                           vec_y = real_of_int y + real_of_int windowSize / 2,
                           vec_u = ncc_dx result, vec_v = ncc_dy result,
                           vec_correlation = ncc_correlation result\<rparr>]
         else vectors)"

text \<open>
  \<^verbatim>\<open>step = Math.floor(windowSize * (1 - config.overlap))\<close>, a computation on numbers: the
  step is an integer, or an infinity when the product overflows.
\<close>

definition step_size :: "arith \<Rightarrow> piv_config \<Rightarrow> jsnum" where
  "step_size A config =
     js_floor (js_mul A (num_of_int (cfg_interrogationWindow config))
                        (js_sub A (Num 1) (Num (cfg_overlap config))))"

text \<open>
  \<^verbatim>\<open>x += step\<close> on a counter that is an integer. A finite step keeps it one. With the step
  \<^verbatim>\<open>Infinity\<close> (or \<^verbatim>\<open>NaN\<close>) the counter is \<^verbatim>\<open>Infinity\<close> (or \<^verbatim>\<open>NaN\<close>) after the first turn and the
  test of the loop fails: the loop ends with that turn. With the step \<^verbatim>\<open>-Infinity\<close> the
  counter is \<^verbatim>\<open>-Infinity\<close> after the first turn and the test holds for ever.
\<close>

fun finite_step :: "jsnum \<Rightarrow> bool" where
  "finite_step (Num s) = True"
| "finite_step _ = False"

fun step_value :: "jsnum \<Rightarrow> int" where
  "step_value (Num s) = \<lfloor>s\<rfloor>"
| "step_value _ = 0"

text \<open>
  The loops \<^verbatim>\<open>for (let x = 0; x < width - windowSize; x += step)\<close> and the same over \<open>y\<close>.
  With \<^verbatim>\<open>step <= 0\<close> they need not end: a run that never returns is \<open>None\<close>.
\<close>

partial_function (option) x_loop ::
  "arith \<Rightarrow> 8 word list \<Rightarrow> 8 word list \<Rightarrow> int \<Rightarrow> int \<Rightarrow> int \<Rightarrow> jsnum \<Rightarrow> int \<Rightarrow> real \<Rightarrow> int \<Rightarrow> int
     \<Rightarrow> vector list \<Rightarrow> vector list option" where
  "x_loop A pixels1 pixels2 width height windowSize step sRange minCorr y x vectors =
     (if x < width - windowSize
      then (if finite_step step
            then x_loop A pixels1 pixels2 width height windowSize step sRange minCorr y
                   (x + step_value step)
                   (window_vector A pixels1 pixels2 width height windowSize sRange minCorr y x vectors)
            else if step = NInf then None
            else Some (window_vector A pixels1 pixels2 width height windowSize sRange minCorr y x
                         vectors))
      else Some vectors)"

partial_function (option) y_loop ::
  "arith \<Rightarrow> 8 word list \<Rightarrow> 8 word list \<Rightarrow> int \<Rightarrow> int \<Rightarrow> int \<Rightarrow> jsnum \<Rightarrow> int \<Rightarrow> real \<Rightarrow> int
     \<Rightarrow> vector list \<Rightarrow> vector list option" where
  "y_loop A pixels1 pixels2 width height windowSize step sRange minCorr y vectors =
     (if y < height - windowSize
      then Option.bind
             (x_loop A pixels1 pixels2 width height windowSize step sRange minCorr y 0 vectors)
             (\<lambda>vectors'. if finite_step step
                          then y_loop A pixels1 pixels2 width height windowSize step sRange minCorr
                                 (y + step_value step) vectors'
                          else if step = NInf then None
                          else Some vectors')
      else Some vectors)"

text \<open>
  \<^verbatim>\<open>computePIVField\<close>. The function has no \<^verbatim>\<open>throw\<close>: \<open>Some vectors\<close> is its normal return.
\<close>

definition computePIVField :: "arith \<Rightarrow> frame \<Rightarrow> frame \<Rightarrow> piv_config \<Rightarrow> vector list option" where
  "computePIVField A image1 image2 config =
     (let windowSize = cfg_interrogationWindow config;
          step = step_size A config
      in y_loop A (frame_pixels image1) (frame_pixels image2) (frame_width image1)
           (frame_height image1) windowSize step (cfg_searchRange config)
           (cfg_minimumCorrelation config) 0 [])"

section \<open>Outlier rejection: \<^verbatim>\<open>removeOutliers\<close>\<close>

text \<open>\<^verbatim>\<open>Math.sqrt(v.u * v.u + v.v * v.v)\<close>.\<close>

definition js_magnitude :: "arith \<Rightarrow> vector \<Rightarrow> jsnum" where
  "js_magnitude A v =
     js_sqrt A (js_add A (js_mul A (num_of_int (vec_u v)) (num_of_int (vec_u v)))
                         (js_mul A (num_of_int (vec_v v)) (num_of_int (vec_v v))))"

definition removeOutliers :: "arith \<Rightarrow> vector list \<Rightarrow> real \<Rightarrow> vector list" where
  "removeOutliers A vectors threshold =
     (if vectors = [] then vectors
      else (let magnitudes = map (js_magnitude A) vectors;
                median = js_median magnitudes;
                deviations = map (\<lambda>m. js_abs (js_sub A m median)) magnitudes;
                mad = js_median deviations
            in filter (\<lambda>v. js_le (js_abs (js_sub A (js_magnitude A v) median))
                                  (js_mul A (Num threshold) mad)) vectors))"

text \<open>
  The median magnitude and the median absolute deviation of a field, as the function
  computes them.
\<close>

definition mag_median :: "arith \<Rightarrow> vector list \<Rightarrow> jsnum" where
  "mag_median A vectors = js_median (map (js_magnitude A) vectors)"

definition mag_mad :: "arith \<Rightarrow> vector list \<Rightarrow> jsnum" where
  "mag_mad A vectors =
     js_median (map (\<lambda>m. js_abs (js_sub A m (mag_median A vectors))) (map (js_magnitude A) vectors))"

text \<open>The magnitude of a vector over the reals.\<close>

definition magnitude :: "vector \<Rightarrow> real" where
  "magnitude v = sqrt (real_of_int (vec_u v * vec_u v + vec_v v * vec_v v))"

section \<open>Statistics of the exhaustive pipeline: \<^verbatim>\<open>calculateStatistics\<close>\<close>

text \<open>
  \<^verbatim>\<open>Math.max(...xs)\<close>: \<^verbatim>\<open>-Infinity\<close> for no argument, \<^verbatim>\<open>NaN\<close> as soon as one argument is
  \<^verbatim>\<open>NaN\<close>.
\<close>

definition js_max2 :: "jsnum \<Rightarrow> jsnum \<Rightarrow> jsnum" where
  "js_max2 a b = (if a = NaN \<or> b = NaN then NaN else if js_lt a b then b else a)"

definition js_max :: "jsnum list \<Rightarrow> jsnum" where
  "js_max xs = foldl js_max2 NInf xs"

text \<open>
  The statistics object; the fields carry the prefix \<open>st_\<close>. The three calibrated fields
  are only set under \<^verbatim>\<open>if (pixelsPerMM)\<close>: \<open>None\<close> is a field that is absent.
\<close>

record statistics =
  st_totalVectors :: nat
  st_validVectors :: nat
  st_meanU :: jsnum
  st_meanV :: jsnum
  st_stdU :: jsnum
  st_stdV :: jsnum
  st_maxVelocity :: jsnum
  st_avgVelocity :: jsnum
  st_pixelsPerMM :: "real option"
  st_maxVelocityMM :: "jsnum option"
  st_avgVelocityMM :: "jsnum option"

text \<open>
  \<^verbatim>\<open>calculateStatistics(vectors, pixelsPerMM = null)\<close>: the calibration is \<open>None\<close> for
  \<^verbatim>\<open>null\<close> or \<^verbatim>\<open>undefined\<close>; a number is truthy when it is not zero.
\<close>

definition calculateStatistics :: "arith \<Rightarrow> vector list \<Rightarrow> real option \<Rightarrow> statistics" where
  "calculateStatistics A vectors pixelsPerMM =
     (if vectors = [] then
        \<lparr>st_totalVectors = 0, st_validVectors = 0, st_meanU = Num 0, st_meanV = Num 0,
         st_stdU = Num 0, st_stdV = Num 0, st_maxVelocity = Num 0, st_avgVelocity = Num 0,
         st_pixelsPerMM = None, st_maxVelocityMM = None, st_avgVelocityMM = None\<rparr>
      else
        (let n = Num (real (length vectors));
             meanU = js_div A (foldl (\<lambda>sum v. js_add A sum (num_of_int (vec_u v))) (Num 0) vectors) n;
             meanV = js_div A (foldl (\<lambda>sum v. js_add A sum (num_of_int (vec_v v))) (Num 0) vectors) n;
             varU = js_div A (foldl (\<lambda>sum v. js_add A sum
                       (js_pow2 A (js_sub A (num_of_int (vec_u v)) meanU))) (Num 0) vectors) n;
             varV = js_div A (foldl (\<lambda>sum v. js_add A sum
                       (js_pow2 A (js_sub A (num_of_int (vec_v v)) meanV))) (Num 0) vectors) n;
             velocities = map (js_magnitude A) vectors;
             maxVelocity = js_max velocities;
             avgVelocity = js_div A (foldl (\<lambda>sum v. js_add A sum v) (Num 0) velocities)
                                    (Num (real (length velocities)));
             stats = \<lparr>st_totalVectors = length vectors, st_validVectors = length vectors,
                      st_meanU = meanU, st_meanV = meanV,
                      st_stdU = js_sqrt A varU, st_stdV = js_sqrt A varV,
                      st_maxVelocity = maxVelocity, st_avgVelocity = avgVelocity,
                      st_pixelsPerMM = None, st_maxVelocityMM = None, st_avgVelocityMM = None\<rparr>
         in case pixelsPerMM of
              None \<Rightarrow> stats
            | Some c \<Rightarrow>
                if c \<noteq> 0
                then stats\<lparr>st_pixelsPerMM := Some c,
                           st_maxVelocityMM := Some (js_div A maxVelocity (Num c)),
                           st_avgVelocityMM := Some (js_div A avgVelocity (Num c))\<rparr>
                else stats))"

section \<open>The padded strategy: \<^verbatim>\<open>phaseCorrelate\<close>\<close>

text \<open>The result object \<^verbatim>\<open>{ x, y, correlation }\<close>; the fields carry the prefix \<open>pc_\<close>.\<close>

record pc_result =
  pc_x :: int
  pc_y :: int
  pc_correlation :: jsnum

text \<open>
  The body of the two innermost loops, for the pixel in column \<open>x\<close> of row \<open>y\<close>; the
  bound test is on both shifted coordinates.
\<close>

definition pc_pixel ::
  "arith \<Rightarrow> jsnum list \<Rightarrow> jsnum list \<Rightarrow> int \<Rightarrow> int \<Rightarrow> int \<Rightarrow> int \<Rightarrow> int \<Rightarrow> int
     \<Rightarrow> jsnum \<times> int \<Rightarrow> jsnum \<times> int" where
  "pc_pixel A template search width height ox oy y x acc =
     (let sy = y + oy; sx = x + ox in
      if sx \<ge> 0 \<and> sx < width \<and> sy \<ge> 0 \<and> sy < height then
        (let templateVal = rd template (y * width + x);
             searchVal = rd search (sy * width + sx)
         in (js_add A (fst acc) (js_mul A templateVal searchVal), snd acc + 1))
      else acc)"

definition pc_sum ::
  "arith \<Rightarrow> jsnum list \<Rightarrow> jsnum list \<Rightarrow> int \<Rightarrow> int \<Rightarrow> int \<Rightarrow> int \<Rightarrow> jsnum \<times> int" where
  "pc_sum A template search width height ox oy =
     foldl (\<lambda>acc y. foldl (\<lambda>acc x. pc_pixel A template search width height ox oy y x acc)
                            acc [0..width - 1])
           (Num 0, 0) [0..height - 1]"

text \<open>\<^verbatim>\<open>correlation /= count\<close>, with no test on \<^verbatim>\<open>count\<close>: \<^verbatim>\<open>0/0\<close> is \<^verbatim>\<open>NaN\<close>.\<close>

definition pc_score ::
  "arith \<Rightarrow> jsnum list \<Rightarrow> jsnum list \<Rightarrow> int \<Rightarrow> int \<Rightarrow> int \<Rightarrow> int \<Rightarrow> jsnum" where
  "pc_score A template search width height ox oy =
     (let (correlation, count) = pc_sum A template search width height ox oy
      in js_div A correlation (num_of_int count))"

definition pc_step ::
  "arith \<Rightarrow> jsnum list \<Rightarrow> jsnum list \<Rightarrow> int \<Rightarrow> int \<Rightarrow> int \<Rightarrow> int
     \<Rightarrow> jsnum \<times> int \<times> int \<Rightarrow> jsnum \<times> int \<times> int" where
  "pc_step A template search width height oy ox st =
     (let correlation = pc_score A template search width height ox oy
      in if js_gt correlation (fst st) then (correlation, ox, oy) else st)"

text \<open>The scan starts from \<^verbatim>\<open>maxCorr = -1\<close>, with the constant \<^verbatim>\<open>searchRange = 16\<close>.\<close>

definition pc_searchRange :: int where
  "pc_searchRange = 16"

definition pc_scan ::
  "arith \<Rightarrow> jsnum list \<Rightarrow> jsnum list \<Rightarrow> int \<Rightarrow> int \<Rightarrow> jsnum \<times> int \<times> int" where
  "pc_scan A template search width height =
     foldl (\<lambda>st oy. foldl (\<lambda>st ox. pc_step A template search width height oy ox st)
                          st [- pc_searchRange..pc_searchRange])
           (Num (- 1), 0, 0) [- pc_searchRange..pc_searchRange]"

definition phaseCorrelate ::
  "arith \<Rightarrow> jsnum list \<Rightarrow> jsnum list \<Rightarrow> int \<Rightarrow> int \<Rightarrow> pc_result" where
  "phaseCorrelate A template search width height =
     (case pc_scan A template search width height of
        (maxCorr, bestX, bestY) \<Rightarrow> \<lparr>pc_x = bestX, pc_y = - bestY, pc_correlation = maxCorr\<rparr>)"

text \<open>
  The sum of the products over the pixels counted at an offset, before the division by
  their number: the quantity a claim about the correlation sum speaks of.
\<close>

definition pc_total ::
  "arith \<Rightarrow> jsnum list \<Rightarrow> jsnum list \<Rightarrow> int \<Rightarrow> int \<Rightarrow> int \<Rightarrow> int \<Rightarrow> jsnum" where
  "pc_total A template search width height ox oy = fst (pc_sum A template search width height ox oy)"

section \<open>Outlier replacement and statistics of \<^verbatim>\<open>processImagePair\<close>\<close>

text \<open>The constant object \<^verbatim>\<open>PIV_PARAMS\<close>; the fields carry the prefix \<open>prm_\<close>.\<close>

record piv_params =
  prm_windowWidth :: int
  prm_windowHeight :: int
  prm_stepSize :: int
  prm_threshold :: real
  prm_roiXMin :: int
  prm_roiXMax :: int
  prm_roiYMin :: int
  prm_roiYMax :: int

definition PIV_PARAMS :: piv_params where
  "PIV_PARAMS = \<lparr>prm_windowWidth = 48, prm_windowHeight = 128, prm_stepSize = 24,
     prm_threshold = 3, prm_roiXMin = 17, prm_roiXMax = 1260, prm_roiYMin = 0,
     prm_roiYMax = 800\<rparr>"

text \<open>
  \<^verbatim>\<open>vectorsX.reduce((a, b) => a + b, 0) / vectorsX.length\<close> and
  \<^verbatim>\<open>Math.sqrt(vectorsX.reduce((sq, n) => sq + Math.pow(n - meanX, 2), 0) / vectorsX.length)\<close>.
\<close>

definition array_mean :: "arith \<Rightarrow> jsnum list \<Rightarrow> jsnum" where
  "array_mean A vs = js_div A (foldl (\<lambda>a b. js_add A a b) (Num 0) vs) (Num (real (length vs)))"

definition array_std :: "arith \<Rightarrow> jsnum list \<Rightarrow> jsnum \<Rightarrow> jsnum" where
  "array_std A vs m =
     js_sqrt A (js_div A (foldl (\<lambda>sq n. js_add A sq (js_pow2 A (js_sub A n m))) (Num 0) vs)
                         (Num (real (length vs))))"

text \<open>
  \<^verbatim>\<open>vectorsX.map(v => Math.abs(v - meanX) < PIV_PARAMS.threshold * stdX ? v : NaN)\<close>: a
  component that fails the test is replaced by \<^verbatim>\<open>NaN\<close>.
\<close>

definition mark_outliers :: "arith \<Rightarrow> jsnum list \<Rightarrow> jsnum list" where
  "mark_outliers A vs =
     map (\<lambda>v. if js_lt (js_abs (js_sub A v (array_mean A vs)))
                         (js_mul A (Num (prm_threshold PIV_PARAMS))
                                   (array_std A vs (array_mean A vs)))
                then v else NaN) vs"

text \<open>
  The indices \<open>j\<close> pushed to \<^verbatim>\<open>neighbors\<close> for the vector \<open>i\<close>: within one step in both axes,
  and with no \<^verbatim>\<open>NaN\<close> in the arrays as they are at that moment.
\<close>

definition neighbors ::
  "int list \<Rightarrow> int list \<Rightarrow> jsnum list \<times> jsnum list \<Rightarrow> nat \<Rightarrow> nat list" where
  "neighbors originsX originsY fv i =
     filter (\<lambda>j. \<bar>originsX ! j - originsX ! i\<bar> \<le> prm_stepSize PIV_PARAMS
                \<and> \<bar>originsY ! j - originsY ! i\<bar> \<le> prm_stepSize PIV_PARAMS
                \<and> \<not> isNaN (fst fv ! j) \<and> \<not> isNaN (snd fv ! j))
            [0..<length originsX]"

text \<open>
  One turn of the loop of the local median filter, on the pair
  \<^verbatim>\<open>(filteredVectorsX, filteredVectorsY)\<close>, which it updates in place.
\<close>

definition median_step ::
  "int list \<Rightarrow> int list \<Rightarrow> jsnum list \<times> jsnum list \<Rightarrow> nat \<Rightarrow> jsnum list \<times> jsnum list" where
  "median_step originsX originsY fv i =
     (if isNaN (fst fv ! i) \<or> isNaN (snd fv ! i) then
        (let nb = neighbors originsX originsY fv i in
         if length nb > 0 then
           (let neighborVX = js_sort (map (\<lambda>j. fst fv ! j) nb);
                neighborVY = js_sort (map (\<lambda>j. snd fv ! j) nb)
            in ((fst fv)[i := neighborVX ! (length neighborVX div 2)],
                (snd fv)[i := neighborVY ! (length neighborVY div 2)]))
         else fv)
      else fv)"

definition local_median ::
  "int list \<Rightarrow> int list \<Rightarrow> jsnum list \<times> jsnum list \<Rightarrow> jsnum list \<times> jsnum list" where
  "local_median originsX originsY fv =
     foldl (median_step originsX originsY) fv [0..<length originsX]"

text \<open>
  The result of \<^verbatim>\<open>processImagePair\<close> from the four arrays the window loop has filled: the
  filtered vectors and the statistics. The fields carry the prefix \<open>ps_\<close>.
\<close>

record pair_statistics =
  ps_totalVectors :: nat
  ps_validVectors :: nat
  ps_meanX :: jsnum
  ps_meanY :: jsnum
  ps_stdX :: jsnum
  ps_stdY :: jsnum
  ps_maxVelocity :: jsnum
  ps_avgVelocity :: jsnum
  ps_pixelsPerMM :: real
  ps_maxVelocityMM :: jsnum
  ps_avgVelocityMM :: jsnum

record pair_result =
  pr_vectorsX :: "jsnum list"
  pr_vectorsY :: "jsnum list"
  pr_statistics :: pair_statistics

text \<open>
  The calibration is \<open>None\<close> when \<^verbatim>\<open>calibration\<close> is \<^verbatim>\<open>null\<close> or has no \<^verbatim>\<open>pixelsPerMM\<close>;
  \<^verbatim>\<open>pixelsPerMM\<close> starts at \<open>1\<close> and is replaced by a truthy calibration.
\<close>

definition processVectors ::
  "arith \<Rightarrow> int list \<Rightarrow> int list \<Rightarrow> int list \<Rightarrow> int list \<Rightarrow> real option \<Rightarrow> pair_result" where
  "processVectors A originsX originsY vectorsX vectorsY calibration =
     (let vX = map num_of_int vectorsX;
          vY = map num_of_int vectorsY;
          meanX = array_mean A vX;
          meanY = array_mean A vY;
          stdX = array_std A vX meanX;
          stdY = array_std A vY meanY;
          filtered = local_median originsX originsY (mark_outliers A vX, mark_outliers A vY);
          validVectors = filter (\<lambda>v. \<not> isNaN v) (fst filtered);
          maxVelocity = js_max (map js_abs validVectors);
          avgVelocity = js_div A (foldl (\<lambda>a b. js_add A a b) (Num 0) validVectors)
                                 (Num (real (length validVectors)));
          pixelsPerMM = (case calibration of
                           None \<Rightarrow> 1
                         | Some c \<Rightarrow> if c \<noteq> 0 then c else 1)
      in \<lparr>pr_vectorsX = fst filtered, pr_vectorsY = snd filtered,
          pr_statistics =
            \<lparr>ps_totalVectors = length vectorsX, ps_validVectors = length validVectors,
             ps_meanX = meanX, ps_meanY = meanY, ps_stdX = stdX, ps_stdY = stdY,
             ps_maxVelocity = maxVelocity, ps_avgVelocity = avgVelocity,
             ps_pixelsPerMM = pixelsPerMM,
             ps_maxVelocityMM = js_div A maxVelocity (Num pixelsPerMM),
             ps_avgVelocityMM = js_div A avgVelocity (Num pixelsPerMM)\<rparr>\<rparr>)"

text \<open>
  Two vectors of a test field: a regular one with \<open>(u, v) = (1, 0)\<close> and an outlier with
  \<open>(10, 0)\<close>, at the window centre \<open>(px, 32)\<close>.
\<close>

definition unit_vector :: "real \<Rightarrow> vector" where
  "unit_vector px = \<lparr>vec_x = px, vec_y = 32, vec_u = 1, vec_v = 0, vec_correlation = Num 1\<rparr>"

definition outlier_vector :: "real \<Rightarrow> vector" where
  "outlier_vector px = \<lparr>vec_x = px, vec_y = 32, vec_u = 10, vec_v = 0, vec_correlation = Num 1\<rparr>"

text \<open>
  A frame pair and a configuration with sub-pixel refinement switched on: 3 x 3 frames,
  a window of 2 pixels, a search range of 1 pixel. There is one window, at the origin.
\<close>

definition subpixel_frame1 :: frame where
  "subpixel_frame1 = \<lparr>frame_pixels = [0, 0, 0, 1, 1, 0, 0, 0, 0], frame_width = 3, frame_height = 3\<rparr>"

definition subpixel_frame2 :: frame where
  "subpixel_frame2 = \<lparr>frame_pixels = [0, 0, 0, 1, 2, 0, 0, 0, 0], frame_width = 3, frame_height = 3\<rparr>"

definition subpixel_config :: piv_config where
  "subpixel_config = PIV_CONFIG\<lparr>cfg_interrogationWindow := 2, cfg_searchRange := 1\<rparr>"

text \<open>
  The sub-pixel refinement in the spec's words, for comparison (the source has no
  refiner): the offset of the vertex of the parabola through the scores at \<open>peak - 1\<close>,
  \<open>peak\<close> and \<open>peak + 1\<close>; no refinement when one of the three scores is not positive.
\<close>

definition spec_parabola_peak :: "real \<Rightarrow> real \<Rightarrow> real \<Rightarrow> real" where
  "spec_parabola_peak s_minus s_peak s_plus =
     (if s_minus \<le> 0 \<or> s_peak \<le> 0 \<or> s_plus \<le> 0 then 0
      else (s_minus - s_plus) / (2 * (s_minus - 2 * s_peak + s_plus)))"

text \<open>
  The two arrays after the marking, before the loop of the local median filter; a vector
  is suspect in a pair of arrays when one of its components is \<^verbatim>\<open>NaN\<close> there; and the
  test the filter makes on two window centres.
\<close>

definition marked :: "arith \<Rightarrow> int list \<Rightarrow> int list \<Rightarrow> jsnum list \<times> jsnum list" where
  "marked A vectorsX vectorsY =
     (mark_outliers A (map num_of_int vectorsX), mark_outliers A (map num_of_int vectorsY))"

definition suspect :: "jsnum list \<times> jsnum list \<Rightarrow> nat \<Rightarrow> bool" where
  "suspect fv j = (isNaN (fst fv ! j) \<or> isNaN (snd fv ! j))"

definition within_step :: "int list \<Rightarrow> int list \<Rightarrow> nat \<Rightarrow> nat \<Rightarrow> bool" where
  "within_step originsX originsY i j =
     (\<bar>originsX ! j - originsX ! i\<bar> \<le> prm_stepSize PIV_PARAMS
      \<and> \<bar>originsY ! j - originsY ! i\<bar> \<le> prm_stepSize PIV_PARAMS)"

text \<open>
  The two arrays as they are when the loop of the filter reaches the vector \<open>i\<close>: the
  vectors before \<open>i\<close> have had their turn and hold their final values, the others still
  hold what the marking left.
\<close>

definition state_at ::
  "jsnum list \<times> jsnum list \<Rightarrow> jsnum list \<times> jsnum list \<Rightarrow> nat \<Rightarrow> jsnum list \<times> jsnum list" where
  "state_at fv out i =
     (take i (fst out) @ drop i (fst fv), take i (snd out) @ drop i (snd fv))"

text \<open>
  A row of ten windows, one grid step apart, for the examples: the origins, and
  displacement components with one value far from the others.
\<close>

definition row_originsX :: "int list" where
  "row_originsX = [24, 48, 72, 96, 120, 144, 168, 192, 216, 240]"

definition row_originsY :: "int list" where
  "row_originsY = [64, 64, 64, 64, 64, 64, 64, 64, 64, 64]"

definition outlier_at_8 :: "int list" where
  "outlier_at_8 = [0, 0, 0, 0, 0, 0, 0, 0, 10, 0]"

definition outlier_at_9 :: "int list" where
  "outlier_at_9 = [0, 0, 0, 0, 0, 0, 0, 0, 0, 10]"

section \<open>Rounding\<close>

lemma round_even_int [simp]: "round_even (of_int n) = n"
  by (simp add: round_even_def)

lemma round_even_near:
  assumes "\<bar>q - of_int n\<bar> < 1 / 2"
  shows "round_even q = n"
proof (cases "of_int n \<le> q")
  case True
  with assms have "of_int n \<le> q \<and> q < of_int n + 1" by linarith
  then have "\<lfloor>q\<rfloor> = n" by (simp add: floor_eq_iff)
  with assms True show ?thesis by (simp add: round_even_def Let_def)
next
  case False
  with assms have "of_int n - 1 \<le> q \<and> q < of_int n" by linarith
  then have f: "\<lfloor>q\<rfloor> = n - 1" by (simp add: floor_eq_iff)
  from False assms have "1 / 2 < q - (of_int n - 1)" by linarith
  with f show ?thesis by (simp add: round_even_def Let_def)
qed

lemma floor_log2_less:
  assumes "x \<noteq> 0" and "\<bar>x\<bar> < 2 powi k"
  shows "\<lfloor>log 2 \<bar>x\<bar>\<rfloor> < k"
proof -
  from assms(2) have "\<bar>x\<bar> < 2 powr real_of_int k" by (simp add: powr_real_of_int')
  with assms(1) have "log 2 \<bar>x\<bar> < real_of_int k" by (simp add: log_less_iff)
  then show ?thesis by (simp add: floor_less_iff)
qed

lemma floor_log2_eq:
  assumes "2 powi e \<le> \<bar>x\<bar>" and "\<bar>x\<bar> < 2 powi (e + 1)"
  shows "\<lfloor>log 2 \<bar>x\<bar>\<rfloor> = e"
proof -
  have "(0::real) < 2 powi e" by simp
  with assms(1) have pos: "0 < \<bar>x\<bar>" by linarith
  have a: "2 powr real_of_int e = (2::real) powi e"
    and b: "2 powr real_of_int (e + 1) = (2::real) powi (e + 1)"
    by (rule powr_real_of_int'; simp)+
  from assms have "2 powr real_of_int e \<le> \<bar>x\<bar> \<and> \<bar>x\<bar> < 2 powr real_of_int (e + 1)"
    unfolding a b by simp
  moreover have two: "(1::real) < 2" by simp
  ultimately show ?thesis
    using floor_log_eq_powr_iff [OF pos two, of e] by blast
qed

text \<open>A number the format represents is delivered as it is.\<close>

lemma round_to_exact:
  assumes x: "x = of_int m * 2 powi j" and m: "\<bar>m\<bar> < 2 ^ p"
    and j: "emin - int p + 1 \<le> j" and b: "\<bar>x\<bar> < 2 powi (emax + 1)"
  shows "round_to p emin emax x = Num x"
proof (cases "x = 0")
  case True
  then show ?thesis by (simp add: round_to_def)
next
  case False
  define e where "e = max \<lfloor>log 2 \<bar>x\<bar>\<rfloor> emin"
  have "\<bar>x\<bar> = real_of_int \<bar>m\<bar> * 2 powi j" by (simp add: x abs_mult)
  also have "\<dots> < 2 ^ p * 2 powi j"
  proof -
    from m have "real_of_int \<bar>m\<bar> < 2 ^ p" by (metis of_int_less_numeral_power_cancel_iff)
    then show ?thesis by simp
  qed
  also have "\<dots> = 2 powi (int p + j)" by (simp add: power_int_add)
  finally have "\<lfloor>log 2 \<bar>x\<bar>\<rfloor> < int p + j" using False by (intro floor_log2_less)
  with j have d: "0 \<le> j - (e - int p + 1)" by (simp add: e_def)
  define d where "d = nat (j - (e - int p + 1))"
  have jd: "j = (e - int p + 1) + int d" using d by (simp add: d_def)
  have q: "x / 2 powi (e - int p + 1) = of_int (m * 2 ^ d)"
    unfolding x jd by (simp add: power_int_add)
  have y: "of_int (round_even (x / 2 powi (e - int p + 1))) * 2 powi (e - int p + 1) = x"
    unfolding q round_even_int unfolding x jd by (simp add: power_int_add)
  from b have "\<not> 2 powi (emax + 1) \<le> \<bar>x\<bar>" by simp
  with False show ?thesis
    unfolding round_to_def Let_def e_def [symmetric] y by simp
qed

text \<open>
  A number in the normal range, between \<open>2\<close> to the power \<open>e\<close> and \<open>2\<close> to the power
  \<open>e + 1\<close>, that lies less than half a unit from \<open>n\<close> units is delivered as \<open>n\<close> units.
\<close>

lemma round_to_near:
  assumes lo: "2 powi e \<le> \<bar>x\<bar>" and hi: "\<bar>x\<bar> < 2 powi (e + 1)" and e: "emin \<le> e"
    and n: "\<bar>x / 2 powi (e - int p + 1) - of_int n\<bar> < 1 / 2"
    and b: "\<bar>real_of_int n\<bar> * 2 powi (e - int p + 1) < 2 powi (emax + 1)"
  shows "round_to p emin emax x = Num (of_int n * 2 powi (e - int p + 1))"
proof -
  have "(0::real) < 2 powi e" by simp
  with lo have "0 < \<bar>x\<bar>" by linarith
  then have nz: "x \<noteq> 0" by simp
  from floor_log2_eq [OF lo hi] e have m: "max \<lfloor>log 2 \<bar>x\<bar>\<rfloor> emin = e" by simp
  from b have "\<not> 2 powi (emax + 1) \<le> \<bar>real_of_int n * 2 powi (e - int p + 1)\<bar>"
    by (simp add: abs_mult)
  with nz show ?thesis
    unfolding round_to_def Let_def m round_even_near [OF n] by simp
qed

text \<open>
  Under either arithmetic, a multiple of \<open>2\<close> to the power \<open>-k\<close> with fewer than \<open>53\<close>
  bits is the exact result of the operation that produces it; and a multiple with fewer
  than \<open>24\<close> bits is stored in a \<^verbatim>\<open>Float32Array\<close> as it is.
\<close>

lemma fl_exact:
  assumes "x * 2 ^ k \<in> \<int>" and "\<bar>x\<bar> * 2 ^ k < 2 ^ 53" and "k \<le> 1074"
  shows "fl A x = Num x"
proof (cases A)
  case Exact
  then show ?thesis by simp
next
  case Double
  from assms(1) obtain m :: int where m: "x * 2 ^ k = of_int m" by (auto elim: Ints_cases)
  then have x: "x = of_int m * 2 powi (- int k)"
    by (simp add: power_int_minus field_simps)
  from assms(2) have "\<bar>x * 2 ^ k\<bar> < 2 ^ 53" by (simp add: abs_mult)
  then have "\<bar>real_of_int m\<bar> < 2 ^ 53" unfolding m .
  then have "real_of_int \<bar>m\<bar> < 2 ^ 53" by simp
  then have mb: "\<bar>m\<bar> < 2 ^ 53" by (simp only: of_int_less_numeral_power_cancel_iff)
  have "\<bar>x\<bar> \<le> \<bar>x\<bar> * 2 ^ k" by (simp add: mult_le_cancel_left1)
  with assms(2) have "\<bar>x\<bar> < 2 ^ 53" by linarith
  also have "\<dots> < (2::real) powi (1023 + 1)" by simp
  finally have b: "\<bar>x\<bar> < 2 powi (1023 + 1)" .
  from assms(3) have j: "- 1022 - int 53 + 1 \<le> - int k" by simp
  from round_to_exact [OF x mb j b] Double show ?thesis by simp
qed

lemma to_float32_exact:
  assumes "x * 2 ^ k \<in> \<int>" and "\<bar>x\<bar> * 2 ^ k < 2 ^ 24" and "k \<le> 149"
  shows "to_float32 A (Num x) = Num x"
proof (cases A)
  case Exact
  then show ?thesis by simp
next
  case Double
  from assms(1) obtain m :: int where m: "x * 2 ^ k = of_int m" by (auto elim: Ints_cases)
  then have x: "x = of_int m * 2 powi (- int k)"
    by (simp add: power_int_minus field_simps)
  from assms(2) have "\<bar>x * 2 ^ k\<bar> < 2 ^ 24" by (simp add: abs_mult)
  then have "\<bar>real_of_int m\<bar> < 2 ^ 24" unfolding m .
  then have "real_of_int \<bar>m\<bar> < 2 ^ 24" by simp
  then have mb: "\<bar>m\<bar> < 2 ^ 24" by (simp only: of_int_less_numeral_power_cancel_iff)
  have "\<bar>x\<bar> \<le> \<bar>x\<bar> * 2 ^ k" by (simp add: mult_le_cancel_left1)
  with assms(2) have "\<bar>x\<bar> < 2 ^ 24" by linarith
  also have "\<dots> < (2::real) powi (127 + 1)" by simp
  finally have b: "\<bar>x\<bar> < 2 powi (127 + 1)" .
  from assms(3) have j: "- 126 - int 24 + 1 \<le> - int k" by simp
  from round_to_exact [OF x mb j b] Double show ?thesis by simp
qed

lemma fl_int: "\<bar>k\<bar> < 2 ^ 53 \<Longrightarrow> fl A (of_int k) = Num (of_int k)"
  using fl_exact [of "of_int k" 0 A] by simp

lemma fl_nat: "n < 2 ^ 53 \<Longrightarrow> fl A (real n) = Num (real n)"
  using fl_int [of "int n" A] by simp

text \<open>The numerals that the examples below compute with.\<close>

lemma fl_zero [simp]: "fl A 0 = Num 0"
  using fl_int [of 0 A] by simp

lemma fl_one [simp]: "fl A 1 = Num 1"
  using fl_int [of 1 A] by simp

lemma fl_ints: "x \<in> \<int> \<Longrightarrow> \<bar>x\<bar> < 9007199254740992 \<Longrightarrow> fl A x = Num x"
  by (rule fl_exact [where k = 0]) simp_all

lemma fl_halves:
  "x \<in> \<int> \<Longrightarrow> \<bar>x\<bar> < 9007199254740992 \<Longrightarrow> fl A (x / 2) = Num (x / 2)"
  "x \<in> \<int> \<Longrightarrow> \<bar>x\<bar> < 9007199254740992 \<Longrightarrow> fl A (- (x / 2)) = Num (- (x / 2))"
  by (rule fl_exact [where k = 1]; simp)+

lemma fl_quarters:
  "x \<in> \<int> \<Longrightarrow> \<bar>x\<bar> < 9007199254740992 \<Longrightarrow> fl A (x / 4) = Num (x / 4)"
  "x \<in> \<int> \<Longrightarrow> \<bar>x\<bar> < 9007199254740992 \<Longrightarrow> fl A (- (x / 4)) = Num (- (x / 4))"
  by (rule fl_exact [where k = 2]; simp)+

lemmas fl_small = fl_ints fl_halves fl_quarters

lemma to_float32_small [simp]:
  "to_float32 A (Num 0) = Num 0" "to_float32 A (Num 1) = Num 1" "to_float32 A (Num (- 1)) = Num (- 1)"
  "to_float32 A (Num (1 / 2)) = Num (1 / 2)" "to_float32 A (Num (- (1 / 2))) = Num (- (1 / 2))"
  "to_float32 A NaN = NaN"
  using to_float32_exact [of 0 0 A] to_float32_exact [of 1 0 A] to_float32_exact [of "- 1" 0 A]
    to_float32_exact [of "1 / 2" 1 A] to_float32_exact [of "- (1 / 2)" 1 A]
  by (simp_all, cases A, simp_all)

section \<open>The order of the numbers\<close>

lemma js_gt_Num [simp]:
  "js_gt (Num a) (Num b) = (b < a)" "js_gt (Num a) NInf" "\<not> js_gt NaN x" "\<not> js_gt x NaN"
  by (cases x; simp add: js_gt_def)+

lemma js_le_Num [simp]: "js_le (Num a) (Num b) = (a \<le> b)"
  by (simp add: js_le_def not_less)

lemma js_gt_not_NaN: "js_gt a b \<Longrightarrow> a \<noteq> NaN \<and> b \<noteq> NaN"
  by (cases a; cases b; simp add: js_gt_def)

lemma js_gt_trans: "js_gt a b \<Longrightarrow> js_gt b c \<Longrightarrow> js_gt a c"
  by (cases a; cases b; cases c; simp add: js_gt_def)

lemma js_le_iff_not_gt: "js_le a b = (a \<noteq> NaN \<and> b \<noteq> NaN \<and> \<not> js_gt a b)"
  by (simp add: js_le_def js_gt_def)

lemma js_le_gt_trans: "js_le a b \<Longrightarrow> js_gt c b \<Longrightarrow> js_gt c a"
  by (cases a; cases b; cases c; simp add: js_gt_def js_le_def)

lemma js_gt_le_trans: "js_gt b a \<Longrightarrow> js_le c a \<Longrightarrow> js_gt b c"
  by (cases a; cases b; cases c; simp add: js_gt_def js_le_def)

lemma js_le_refl: "a \<noteq> NaN \<Longrightarrow> js_le a a"
  by (cases a; simp add: js_le_def)

lemma js_gt_irrefl: "\<not> js_gt a a"
  by (cases a; simp add: js_gt_def)

section \<open>Exact arithmetic stays finite\<close>

lemma foldl_js_add_Num:
  "foldl (\<lambda>sum val. js_add Exact sum val) (Num a) (map Num t) = Num (a + sum_list t)"
  by (induction t arbitrary: a) (simp_all add: add.assoc)

lemma templateMean_Num:
  "t \<noteq> [] \<Longrightarrow> templateMean Exact (map Num t) = Num (mean t)"
  by (simp add: templateMean_def mean_def foldl_js_add_Num)

lemma templateNorm_Num:
  "t \<noteq> [] \<Longrightarrow> templateNorm Exact (map Num t) = map (\<lambda>v. Num (v - mean t)) t"
  by (simp add: templateNorm_def templateMean_Num js_sub_def)

lemma foldl_js_sq_Num:
  "foldl (\<lambda>sum v. js_add Exact sum (js_mul Exact v v)) (Num a) (map (\<lambda>v. Num (f v)) t)
     = Num (a + sum_list (map (\<lambda>v. f v * f v) t))"
  by (induction t arbitrary: a) (simp_all add: add.assoc)

lemma sum_sq_nonneg: "0 \<le> sum_list (map (\<lambda>v. f v * f v) t)" for f :: "'a \<Rightarrow> real"
  by (induction t) simp_all

lemma templateStd_Num:
  "t \<noteq> [] \<Longrightarrow> templateStd Exact (map Num t) = Num (pstd t)"
proof -
  assume ne: "t \<noteq> []"
  have "0 \<le> sum_list (map (\<lambda>v. (v - mean t) * (v - mean t)) t) / real (length t)"
    by (intro divide_nonneg_nonneg sum_sq_nonneg) simp
  with ne show ?thesis
    by (simp add: templateStd_def templateNorm_Num foldl_js_sq_Num pstd_def)
qed

lemma flat_mean: "t \<noteq> [] \<Longrightarrow> \<forall>v \<in> set t. v = c \<Longrightarrow> mean t = c"
proof -
  assume ne: "t \<noteq> []" and flat: "\<forall>v \<in> set t. v = c"
  from flat have "t = replicate (length t) c"
    by (simp add: replicate_length_same)
  then have "sum_list t = real (length t) * c"
    by (metis sum_list_replicate)
  with ne show ?thesis by (simp add: mean_def)
qed

lemma flat_sq_sum: "\<forall>v \<in> set t. v = c \<Longrightarrow> sum_list (map (\<lambda>v. (v - c) * (v - c)) t) = (0::real)"
  by (induction t) simp_all

lemma flat_pstd: "t \<noteq> [] \<Longrightarrow> \<forall>v \<in> set t. v = c \<Longrightarrow> pstd t = 0"
  by (simp add: pstd_def flat_mean [of t c] flat_sq_sum)

section \<open>Flat templates\<close>

text \<open>
  A window of \<open>n\<close> equal bytes, under either arithmetic: the partial sums are integers
  below \<open>2\<close> to the power \<open>53\<close>, the mean is the byte, every difference is zero.
\<close>

lemma foldl_add_replicate:
  assumes "0 \<le> a" and "0 \<le> c" and "a + int n * c < 2 ^ 53"
  shows "foldl (\<lambda>sum val. js_add A sum val) (Num (of_int a)) (replicate n (Num (of_int c)))
           = Num (of_int (a + int n * c))"
  using assms
proof (induction n arbitrary: a)
  case 0
  then show ?case by simp
next
  case (Suc n)
  have "a + c \<le> a + int (Suc n) * c" using Suc.prems(2) by (simp add: algebra_simps)
  with Suc.prems have b: "\<bar>a + c\<bar> < 2 ^ 53" by simp
  have step: "fl A (real_of_int a + real_of_int c) = Num (real_of_int (a + c))"
    using fl_int [OF b, of A] by simp
  have "0 \<le> a + c" using Suc.prems by simp
  moreover have "a + c + int n * c < 2 ^ 53" using Suc.prems(3) by (simp add: algebra_simps)
  ultimately have "foldl (\<lambda>sum val. js_add A sum val) (Num (of_int (a + c))) (replicate n (Num (of_int c)))
           = Num (of_int (a + c + int n * c))"
    using Suc.prems(2) by (intro Suc.IH)
  then show ?case by (simp add: step algebra_simps)
qed

lemma flat_mean_small:
  assumes "0 < n" and "n \<le> 2 ^ 40" and "b < 256"
  shows "templateMean A (replicate n (Num (real b))) = Num (real b)"
proof -
  from assms(2) have "int n \<le> 2 ^ 40" by (metis of_nat_le_iff of_nat_numeral of_nat_power)
  then have "int n * int b \<le> 2 ^ 40 * 2 ^ 8"
    using assms(3) by (intro mult_mono) simp_all
  then have bd: "0 + int n * int b < 2 ^ 53" by simp
  have "foldl (\<lambda>sum val. js_add A sum val) (Num (of_int 0)) (replicate n (Num (of_int (int b))))
      = Num (of_int (0 + int n * int b))"
    by (rule foldl_add_replicate [OF _ _ bd]) simp_all
  then have s: "foldl (\<lambda>sum val. js_add A sum val) (Num 0) (replicate n (Num (real b)))
      = Num (real n * real b)" by simp
  have "\<bar>int b\<bar> < 2 ^ 53" using assms(3) by simp
  then have "fl A (real b) = Num (real b)"
    using fl_int [of "int b" A] by simp
  with assms(1) show ?thesis by (simp add: templateMean_def s)
qed

lemma foldl_sq_zero:
  "foldl (\<lambda>sum v. js_add A sum (js_mul A v v)) (Num 0) (replicate n (Num 0)) = Num 0"
  by (induction n) simp_all

lemma flat_std_small:
  assumes "0 < n" and "n \<le> 2 ^ 40" and "b < 256"
  shows "templateStd A (replicate n (Num (real b))) = Num 0"
proof -
  have "templateNorm A (replicate n (Num (real b))) = replicate n (Num 0)"
    by (simp add: templateNorm_def flat_mean_small [OF assms] js_sub_def map_replicate_const)
  with assms(1) show ?thesis by (simp add: templateStd_def foldl_sq_zero)
qed

lemma flat_bytes_std:
  assumes "0 < n" and "n \<le> 2 ^ 40"
  shows "templateStd A (replicate n (Num (real (unat (c :: 8 word))))) = Num 0"
proof -
  have "unat c < 2 ^ 8" using unsigned_less [of c, where 'a = nat] by simp
  then have "unat c < 256" by simp
  from flat_std_small [OF assms this] show ?thesis .
qed

text \<open>
  C4. A template patch whose population standard deviation is zero (a flat,
  textureless patch) makes \<^verbatim>\<open>normalizedCrossCorrelation\<close> return the offset \<open>(0, 0)\<close> with
  correlation \<open>0\<close>, whatever the search patch, the window size and the search range are:
  over the reals for every template of finite samples, and in binary64 arithmetic for
  every window of up to \<open>2\<close> to the power \<open>40\<close> equal bytes, which is what \<^verbatim>\<open>extractWindow\<close>
  delivers on a flat region. The function has no failing branch: the result is a value.
\<close>

theorem flat_template_zero_result:
  assumes "t \<noteq> []" and "pstd t = 0" and "0 < n" and "n \<le> 2 ^ 40"
  shows "normalizedCrossCorrelation Exact (map Num t) search windowSize searchRange
           = \<lparr>ncc_dx = 0, ncc_dy = 0, ncc_correlation = Num 0\<rparr>
       \<and> normalizedCrossCorrelation Double (replicate n (Num (real (unat (c :: 8 word)))))
             search windowSize searchRange
           = \<lparr>ncc_dx = 0, ncc_dy = 0, ncc_correlation = Num 0\<rparr>"
proof
  show "normalizedCrossCorrelation Exact (map Num t) search windowSize searchRange
           = \<lparr>ncc_dx = 0, ncc_dy = 0, ncc_correlation = Num 0\<rparr>"
    using assms(1,2) by (simp add: normalizedCrossCorrelation_def templateStd_Num)
  show "normalizedCrossCorrelation Double (replicate n (Num (real (unat c))))
             search windowSize searchRange
           = \<lparr>ncc_dx = 0, ncc_dy = 0, ncc_correlation = Num 0\<rparr>"
    unfolding normalizedCrossCorrelation_def flat_bytes_std [OF assms(3,4)] by simp
qed

theorem flat_template_zero_result_witness:
  "[7, 7, 7, 7] \<noteq> ([] :: real list) \<and> pstd [7, 7, 7, 7] = 0 \<and> (0::nat) < 4 \<and> (4::nat) \<le> 2 ^ 40
   \<and> normalizedCrossCorrelation Exact (map Num [7, 7, 7, 7]) (map Num [1, 2, 3, 4]) 2 1
        = \<lparr>ncc_dx = 0, ncc_dy = 0, ncc_correlation = Num 0\<rparr>
   \<and> normalizedCrossCorrelation Double [Num 7, Num 7, Num 7, Num 7] (map Num [1, 2, 3, 4]) 2 1
        = \<lparr>ncc_dx = 0, ncc_dy = 0, ncc_correlation = Num 0\<rparr>"
proof -
  have ne: "[7, 7, 7, 7] \<noteq> ([] :: real list)" by simp
  have flat: "pstd [7, 7, 7, 7] = 0" by (rule flat_pstd [where c = 7]) simp_all
  have n: "(0::nat) < 4" "(4::nat) \<le> 2 ^ 40" by simp_all
  have four: "replicate 4 x = [x, x, x, x]" for x :: jsnum
    by (simp add: numeral_eq_Suc)
  have r: "replicate 4 (Num (real (unat (7 :: 8 word)))) = [Num 7, Num 7, Num 7, Num 7]"
    unfolding four by simp
  show ?thesis
    using ne flat n flat_template_zero_result [OF ne flat n, of "map Num [1, 2, 3, 4]" 2 1 7]
    unfolding r by simp
qed

section \<open>The score of one offset\<close>

lemma foldl_product:
  "foldl (\<lambda>acc a. foldl (\<lambda>acc b. f a b acc) acc bs) acc as
     = foldl (\<lambda>acc (a, b). f a b acc) acc (List.product as bs)"
  by (induction as arbitrary: acc) (simp_all add: foldl_map)

lemma corr_sum_pixels:
  "corr_sum A tnorm search tmean W ox oy
     = foldl (\<lambda>acc (j, i). corr_pixel A tnorm search tmean W ox oy j i acc) (Num 0, 0) (window_pixels W)"
  unfolding corr_sum_def window_pixels_def by (rule foldl_product)

lemma flat_index_bound:
  fixes W j i :: int
  assumes "0 \<le> j" "j < W" "0 \<le> i" "i < W"
  shows "0 \<le> j * W + i \<and> j * W + i < W * W"
proof -
  have "j * W \<le> (W - 1) * W" using assms by (intro mult_right_mono) simp_all
  then have "j * W + i < W * W" using assms by (simp add: algebra_simps)
  moreover have "0 \<le> j * W" using assms by simp
  ultimately show ?thesis using assms by simp
qed

lemma rd_map_Num: "0 \<le> k \<Longrightarrow> k < int (length xs) \<Longrightarrow> rd (map Num xs) k = Num (xs ! nat k)"
  by (simp add: rd_def nat_less_iff)

lemma corr_pixel_fold_Num:
  assumes "\<forall>(j, i) \<in> set ps. 0 \<le> j \<and> j < W \<and> 0 \<le> i \<and> i < W"
    and "length tn = nat (W * W)"
  shows "foldl (\<lambda>acc (j, i). corr_pixel Exact (map Num tn) (map Num s) (Num m) W ox oy j i acc) (Num a, c) ps
     = (Num (a + sum_list (map (\<lambda>(j, i). tn ! nat (j * W + i) * (s ! nat ((j + oy) * W + (i + ox)) - m))
                             (filter (flat_inside W (int (length s)) ox oy) ps))),
        c + int (length (filter (flat_inside W (int (length s)) ox oy) ps)))"
  using assms(1)
proof (induction ps arbitrary: a c)
  case Nil
  then show ?case by simp
next
  case (Cons p ps)
  obtain j i where p: "p = (j, i)" by (cases p)
  from Cons.prems p have b: "0 \<le> j" "j < W" "0 \<le> i" "i < W" by auto
  from flat_index_bound [OF b] assms(2)
  have t: "rd (map Num tn) (j * W + i) = Num (tn ! nat (j * W + i))"
    by (intro rd_map_Num) simp_all
  from Cons.prems have rest: "\<forall>(j, i) \<in> set ps. 0 \<le> j \<and> j < W \<and> 0 \<le> i \<and> i < W" by simp
  show ?case
  proof (cases "flat_inside W (int (length s)) ox oy p")
    case True
    then have s: "rd (map Num s) ((j + oy) * W + (i + ox)) = Num (s ! nat ((j + oy) * W + (i + ox)))"
      by (intro rd_map_Num) (simp_all add: p flat_inside_def)
    from True have step: "corr_pixel Exact (map Num tn) (map Num s) (Num m) W ox oy j i (Num a, c)
        = (Num (a + tn ! nat (j * W + i) * (s ! nat ((j + oy) * W + (i + ox)) - m)), c + 1)"
      by (simp add: corr_pixel_def p flat_inside_def t s js_sub_def Let_def)
    show ?thesis
      using True Cons.IH [OF rest, of "a + tn ! nat (j * W + i) * (s ! nat ((j + oy) * W + (i + ox)) - m)" "c + 1"]
      by (simp add: p step add.assoc)
  next
    case False
    then have step: "corr_pixel Exact (map Num tn) (map Num s) (Num m) W ox oy j i (Num a, c) = (Num a, c)"
      by (auto simp: corr_pixel_def p flat_inside_def Let_def)
    show ?thesis
      using False Cons.IH [OF rest, of a c] by (simp add: p step)
  qed
qed

lemma window_pixels_bounds: "\<forall>(j, i) \<in> set (window_pixels W). 0 \<le> j \<and> j < W \<and> 0 \<le> i \<and> i < W"
  by (auto simp: window_pixels_def)

lemma corr_sum_Num:
  assumes "length tn = nat (W * W)"
  shows "corr_sum Exact (map Num tn) (map Num s) (Num m) W ox oy
     = (Num (sum_list (map (\<lambda>(j, i). tn ! nat (j * W + i) * (s ! nat ((j + oy) * W + (i + ox)) - m))
                             (filter (flat_inside W (int (length s)) ox oy) (window_pixels W)))),
        int (length (filter (flat_inside W (int (length s)) ox oy) (window_pixels W))))"
  using corr_pixel_fold_Num [OF window_pixels_bounds assms, of s m ox oy 0 0]
  by (simp add: corr_sum_pixels)

lemma row_index_range:
  fixes W k i :: int
  assumes "0 \<le> i" "i < W"
  shows "(0 \<le> k * W + i) = (0 \<le> k)" and "(k * W + i < W * W) = (k < W)"
proof -
  have W: "0 < W" using assms by simp
  show "(0 \<le> k * W + i) = (0 \<le> k)"
  proof
    assume "0 \<le> k" then show "0 \<le> k * W + i" using assms W by simp
  next
    assume a: "0 \<le> k * W + i"
    show "0 \<le> k"
    proof (rule ccontr)
      assume "\<not> 0 \<le> k"
      then have "k \<le> - 1" by simp
      then have "k * W \<le> (- 1) * W" using W by (intro mult_right_mono) simp_all
      with a assms show False by simp
    qed
  qed
  show "(k * W + i < W * W) = (k < W)"
  proof
    assume "k < W"
    then have "k * W \<le> (W - 1) * W" using W by (intro mult_right_mono) simp_all
    then show "k * W + i < W * W" using assms by (simp add: algebra_simps)
  next
    assume a: "k * W + i < W * W"
    show "k < W"
    proof (rule ccontr)
      assume "\<not> k < W"
      then have "W * W \<le> k * W" using W by (intro mult_right_mono) simp_all
      with a assms show False by simp
    qed
  qed
qed

lemma no_wrap_zero: "no_wrap W 0 oy"
  by (auto simp: no_wrap_def window_pixels_def inside_def flat_inside_def row_index_range)

lemma no_wrap_filter:
  "no_wrap W ox oy \<Longrightarrow> filter (flat_inside W (W * W) ox oy) (window_pixels W) = overlap_pixels W ox oy"
  unfolding overlap_pixels_def no_wrap_def by (intro filter_cong) simp_all

lemma nth_templateNorm:
  assumes "(j, i) \<in> set (window_pixels W)" "length t = nat (W * W)"
  shows "map (\<lambda>v. v - mean t) t ! nat (j * W + i) = t ! nat (j * W + i) - mean t"
proof -
  from assms(1) have b: "0 \<le> j" "j < W" "0 \<le> i" "i < W" by (auto simp: window_pixels_def)
  from flat_index_bound [OF b] assms(2) show ?thesis
    by (intro nth_map) (simp add: nat_less_iff)
qed

text \<open>
  C1, as the code has it, over the reals. For a template of finite samples with a
  nonzero population standard deviation and an offset at which the code's flat-index test agrees with the
  bounds of the patch on every pixel (every offset with \<open>ox = 0\<close> is one,
  \<open>no_wrap_zero\<close>) and at least one pixel overlaps, the score of the offset is the sum,
  over exactly the pixels whose shifted coordinates lie inside the patch, of
  (template sample - template mean) * (search sample - template mean), divided by
  (number of overlapping pixels * template standard deviation): the template mean is
  taken off the search samples too.
\<close>

theorem score_at_offset:
  assumes "0 < W" and "length t = nat (W * W)" and "length s = nat (W * W)"
    and "pstd t \<noteq> 0" and "no_wrap W ox oy" and "overlap_pixels W ox oy \<noteq> []"
  shows "offset_score Exact (templateNorm Exact (map Num t)) (map Num s) (templateMean Exact (map Num t))
            (templateStd Exact (map Num t)) W ox oy
           = Some (Num (centred_score t s W ox oy))"
proof -
  from assms(1) have "0 < W * W" by simp
  with assms(2) have ne: "t \<noteq> []" by auto
  have len: "length (map (\<lambda>v. v - mean t) t) = nat (W * W)" using assms(2) by simp
  have tn: "templateNorm Exact (map Num t) = map Num (map (\<lambda>v. v - mean t) t)"
    using ne by (simp add: templateNorm_Num)
  have ls: "int (length s) = W * W" using assms(1,3) by simp
  have sums: "sum_list (map (\<lambda>(j, i). map (\<lambda>v. v - mean t) t ! nat (j * W + i) * (s ! nat ((j + oy) * W + (i + ox)) - mean t)) (overlap_pixels W ox oy))
     = sum_list (map (\<lambda>(j, i). (t ! nat (j * W + i) - mean t) * (s ! nat ((j + oy) * W + (i + ox)) - mean t)) (overlap_pixels W ox oy))"
    by (rule arg_cong [where f = sum_list], rule map_cong)
       (auto simp: overlap_pixels_def nth_templateNorm [OF _ assms(2)])
  have cs: "corr_sum Exact (templateNorm Exact (map Num t)) (map Num s) (templateMean Exact (map Num t)) W ox oy
      = (Num (sum_list (map (\<lambda>(j, i). (t ! nat (j * W + i) - mean t) * (s ! nat ((j + oy) * W + (i + ox)) - mean t)) (overlap_pixels W ox oy))),
         int (length (overlap_pixels W ox oy)))"
    unfolding tn templateMean_Num [OF ne] corr_sum_Num [OF len] ls no_wrap_filter [OF assms(5)] sums ..
  from assms(6) have pos: "0 < length (overlap_pixels W ox oy)" by simp
  show ?thesis
    using pos assms(4) by (simp add: offset_score_def cs templateStd_Num [OF ne] centred_score_def num_of_int_def)
qed

theorem score_at_offset_witness:
  "(0::int) < 2 \<and> length [0, 0, 2, 2 :: real] = nat (2 * 2) \<and> length [1, 2, 3, 4 :: real] = nat (2 * 2)
   \<and> pstd [0, 0, 2, 2] \<noteq> 0 \<and> no_wrap 2 0 1 \<and> overlap_pixels 2 0 1 \<noteq> []
   \<and> offset_score Exact (templateNorm Exact (map Num [0, 0, 2, 2])) (map Num [1, 2, 3, 4])
         (templateMean Exact (map Num [0, 0, 2, 2])) (templateStd Exact (map Num [0, 0, 2, 2])) 2 0 1
       = Some (Num (- 5 / 2))"
proof -
  have h1: "(0::int) < 2" by simp
  have h2: "length [0, 0, 2, 2 :: real] = nat (2 * 2)" by simp
  have h3: "length [1, 2, 3, 4 :: real] = nat (2 * 2)" by simp
  have p: "pstd [0, 0, 2, 2] = 1" by (simp add: pstd_def mean_def)
  then have h4: "pstd [0, 0, 2, 2] \<noteq> 0" by simp
  have h5: "no_wrap 2 0 1" by (rule no_wrap_zero)
  have ov: "overlap_pixels 2 0 1 = [(0, 0), (0, 1)]"
    by (simp add: overlap_pixels_def window_pixels_def inside_def upto.simps)
  then have h6: "overlap_pixels 2 0 1 \<noteq> []" by simp
  have c: "centred_score [0, 0, 2, 2] [1, 2, 3, 4] 2 0 1 = - 5 / 2"
    by (simp add: centred_score_def ov p) (simp add: mean_def)
  show ?thesis
    using h1 h2 h3 h4 h5 h6 score_at_offset [OF h1 h2 h3 h4 h5 h6] by (simp add: c)
qed

text \<open>
  The example patches under either arithmetic: every intermediate result is a small
  multiple of a half, so no operation rounds.
\<close>

lemma example_template:
  "templateMean A [Num 0, Num 0, Num 2, Num 2] = Num 1"
  "templateNorm A [Num 0, Num 0, Num 2, Num 2] = [Num (- 1), Num (- 1), Num 1, Num 1]"
  "templateStd A [Num 0, Num 0, Num 2, Num 2] = Num 1"
proof -
  show m: "templateMean A [Num 0, Num 0, Num 2, Num 2] = Num 1"
    by (simp add: templateMean_def fl_small)
  show n: "templateNorm A [Num 0, Num 0, Num 2, Num 2] = [Num (- 1), Num (- 1), Num 1, Num 1]"
    by (simp add: templateNorm_def m js_sub_def fl_small)
  show "templateStd A [Num 0, Num 0, Num 2, Num 2] = Num 1"
    by (simp add: templateStd_def n fl_small)
qed

lemma example_scores:
  "offset_score A [Num (- 1), Num (- 1), Num 1, Num 1] [Num 1, Num 2, Num 3, Num 4] (Num 1) (Num 1) 2 0 1
     = Some (Num (- 5 / 2))"
  "corr_sum A [Num (- 1), Num (- 1), Num 1, Num 1] [Num 1, Num 2, Num 3, Num 4] (Num 1) 2 1 0
     = (Num 0, 3)"
  by (simp_all add: offset_score_def corr_sum_def corr_pixel_def rd_def js_sub_def upto.simps
      num_of_int_def fl_small)

text \<open>
  C1 as stated fails on the code. With the template rows \<open>[0, 0]\<close>, \<open>[2, 2]\<close> and the
  search rows \<open>[1, 2]\<close>, \<open>[3, 4]\<close>: at the offset \<open>(0, 1)\<close> the code's score is \<open>-5/2\<close>,
  in binary64 arithmetic as over the reals, and the stated formula gives \<open>-7/2\<close> (the mean
  is taken off the search samples as well); at the offset \<open>(1, 0)\<close> the code counts three
  pixels where two overlap (the flat index of the pixel pushed out of the first row falls
  into the second row).
\<close>

theorem score_claim_counterexample:
  "patch_score Double [Num 0, Num 0, Num 2, Num 2] [Num 1, Num 2, Num 3, Num 4] 2 0 1
       = Some (Num (- 5 / 2))
   \<and> patch_score Exact [Num 0, Num 0, Num 2, Num 2] [Num 1, Num 2, Num 3, Num 4] 2 0 1
       = Some (Num (- 5 / 2))
   \<and> spec_score [0, 0, 2, 2] [1, 2, 3, 4] 2 0 1 = - 7 / 2
   \<and> corr_sum Double (templateNorm Double [Num 0, Num 0, Num 2, Num 2]) [Num 1, Num 2, Num 3, Num 4]
         (templateMean Double [Num 0, Num 0, Num 2, Num 2]) 2 1 0 = (Num 0, 3)
   \<and> overlap_pixels 2 1 0 = [(0, 0), (1, 0)]"
proof -
  have p: "pstd [0, 0, 2, 2] = 1" by (simp add: pstd_def mean_def)
  have a: "patch_score A [Num 0, Num 0, Num 2, Num 2] [Num 1, Num 2, Num 3, Num 4] 2 0 1
       = Some (Num (- 5 / 2))" for A
    unfolding patch_score_def example_template by (rule example_scores)
  have ov1: "overlap_pixels 2 0 1 = [(0, 0), (0, 1)]"
    by (simp add: overlap_pixels_def window_pixels_def inside_def upto.simps)
  have b: "spec_score [0, 0, 2, 2] [1, 2, 3, 4] 2 0 1 = - 7 / 2"
    by (simp add: spec_score_def ov1 p) (simp add: mean_def)
  have c: "corr_sum Double (templateNorm Double [Num 0, Num 0, Num 2, Num 2]) [Num 1, Num 2, Num 3, Num 4]
         (templateMean Double [Num 0, Num 0, Num 2, Num 2]) 2 1 0 = (Num 0, 3)"
    unfolding example_template by (rule example_scores)
  have d: "overlap_pixels 2 1 0 = [(0, 0), (1, 0)]"
    by (simp add: overlap_pixels_def window_pixels_def inside_def upto.simps)
  from a [of Double] a [of Exact] b c d show ?thesis by (intro conjI)
qed

section \<open>The offset that wins\<close>

lemma sorted_wrt_product:
  fixes as :: "int list"
  assumes "sorted_wrt (<) as" "sorted_wrt (<) bs"
  shows "sorted_wrt scan_before (List.product as bs)"
  using assms(1)
proof (induction as)
  case Nil
  then show ?case by simp
next
  case (Cons a as)
  have row: "sorted_wrt scan_before (map (Pair a) bs)"
    using assms(2) by (simp add: sorted_wrt_map scan_before_def)
  have cross: "\<forall>p \<in> set (map (Pair a) bs). \<forall>q \<in> set (List.product as bs). scan_before p q"
    using Cons.prems by (auto simp: scan_before_def)
  from Cons have "sorted_wrt scan_before (List.product as bs)" by simp
  with row cross show ?case
    by (simp add: sorted_wrt_append)
qed

lemma sorted_wrt_search_offsets: "sorted_wrt scan_before (search_offsets sr)"
  unfolding search_offsets_def
  by (intro sorted_wrt_product) (simp_all add: strict_sorted_iff)

lemma set_search_offsets: "((oy, ox) \<in> set (search_offsets sr)) = (\<bar>ox\<bar> \<le> sr \<and> \<bar>oy\<bar> \<le> sr)"
  by (auto simp: search_offsets_def)

text \<open>
  A scan that replaces its best candidate on a strictly greater score only, whatever the
  scores are (finite, infinite or \<^verbatim>\<open>NaN\<close>): either no candidate beats the initial score
  and the initial state is left, or the state holds the first of the candidates with the
  greatest score.
\<close>

lemma scan_best_new:
  assumes p: "sc p \<noteq> NaN"
    and below: "\<forall>q \<in> set ps. sc q \<noteq> NaN \<longrightarrow> js_gt (sc p) (sc q)"
  shows "scan_best sc R (ps @ [p]) (sc p) p"
  unfolding scan_best_def
proof (intro conjI ballI impI)
  show "p \<in> set (ps @ [p])" by simp
  show "sc p = sc p" ..
next
  fix q assume q: "q \<in> set (ps @ [p])" "sc q \<noteq> NaN"
  show "js_le (sc q) (sc p)"
  proof (cases "q = p")
    case True then show ?thesis using p by (simp add: js_le_refl)
  next
    case False
    with q below have g: "js_gt (sc p) (sc q)" by simp
    have "\<not> js_gt (sc q) (sc p)"
    proof
      assume "js_gt (sc q) (sc p)"
      from js_gt_trans [OF g this] show False by (simp add: js_gt_irrefl)
    qed
    with p q(2) show ?thesis by (simp add: js_le_iff_not_gt)
  qed
next
  fix q assume q: "q \<in> set (ps @ [p])" "sc q \<noteq> NaN" "sc q = sc p"
  show "q = p \<or> R p q"
  proof (cases "q = p")
    case True then show ?thesis by simp
  next
    case False
    with q below have "js_gt (sc p) (sc p)" by auto
    then show ?thesis by (simp add: js_gt_irrefl)
  qed
qed

lemma scan_best_keep:
  assumes best: "scan_best sc R ps m b" and mn: "m \<noteq> NaN"
    and before: "\<forall>q \<in> set ps. R q p"
    and p: "\<not> js_gt (sc p) m"
  shows "scan_best sc R (ps @ [p]) m b"
  unfolding scan_best_def
proof (intro conjI ballI impI)
  from best show "b \<in> set (ps @ [p])" "sc b = m" by (simp_all add: scan_best_def)
next
  fix q assume q: "q \<in> set (ps @ [p])" "sc q \<noteq> NaN"
  show "js_le (sc q) m"
  proof (cases "q \<in> set ps")
    case True with best q(2) show ?thesis by (simp add: scan_best_def)
  next
    case False
    with q have "q = p" by simp
    with p q(2) mn show ?thesis by (simp add: js_le_iff_not_gt)
  qed
next
  fix q assume q: "q \<in> set (ps @ [p])" "sc q \<noteq> NaN" "sc q = m"
  show "q = b \<or> R b q"
  proof (cases "q \<in> set ps")
    case True with best q(2,3) show ?thesis by (simp add: scan_best_def)
  next
    case False
    with q have "q = p" by simp
    moreover from best have "b \<in> set ps" by (simp add: scan_best_def)
    ultimately show ?thesis using before by simp
  qed
qed

lemma scan_first_max:
  assumes srt: "sorted_wrt R ps"
    and m0: "m0 \<noteq> NaN"
    and res: "foldl (\<lambda>st (oy, ox). if js_gt (sc (oy, ox)) (fst st) then (sc (oy, ox), ox, oy) else st)
                (m0, x0, y0) ps = (m, cx, cy)"
  shows "(m = m0 \<and> cx = x0 \<and> cy = y0 \<and> (\<forall>p \<in> set ps. \<not> js_gt (sc p) m0))
       \<or> (js_gt m m0 \<and> scan_best sc R ps m (cy, cx))"
  using srt res
proof (induction ps arbitrary: m cx cy rule: rev_induct)
  case Nil
  then show ?case by simp
next
  case (snoc p ps)
  let ?f = "\<lambda>st (oy, ox). if js_gt (sc (oy, ox)) (fst st) then (sc (oy, ox), ox, oy) else st"
  obtain m' cx' cy' where prev: "foldl ?f (m0, x0, y0) ps = (m', cx', cy')"
    by (cases "foldl ?f (m0, x0, y0) ps") auto
  obtain oy ox where p: "p = (oy, ox)" by (cases p)
  from snoc.prems(1) have srt': "sorted_wrt R ps" and before: "\<forall>q \<in> set ps. R q p"
    by (simp_all add: sorted_wrt_append)
  note IH = snoc.IH [OF srt' prev]
  from snoc.prems(2) prev p
  have now: "(m, cx, cy) = (if js_gt (sc p) m' then (sc p, ox, oy) else (m', cx', cy'))"
    by (auto split: if_splits)
  from IH m0 have mn': "m' \<noteq> NaN" by (auto dest: js_gt_not_NaN)
  show ?case
  proof (cases "js_gt (sc p) m'")
    case True
    with now have eq: "m = sc p" "cx = ox" "cy = oy" by simp_all
    from True have pn: "sc p \<noteq> NaN" by (auto dest: js_gt_not_NaN)
    from IH have "js_gt (sc p) m0 \<and> (\<forall>q \<in> set ps. sc q \<noteq> NaN \<longrightarrow> js_gt (sc p) (sc q))"
    proof
      assume a: "m' = m0 \<and> cx' = x0 \<and> cy' = y0 \<and> (\<forall>p \<in> set ps. \<not> js_gt (sc p) m0)"
      with True have g: "js_gt (sc p) m0" by simp
      have "js_gt (sc p) (sc q)" if "q \<in> set ps" "sc q \<noteq> NaN" for q
      proof -
        from a that m0 have "js_le (sc q) m0" by (simp add: js_le_iff_not_gt)
        from js_le_gt_trans [OF this g] show ?thesis .
      qed
      with g show ?thesis by simp
    next
      assume a: "js_gt m' m0 \<and> scan_best sc R ps m' (cy', cx')"
      have "js_gt (sc p) (sc q)" if "q \<in> set ps" "sc q \<noteq> NaN" for q
      proof -
        from a that have "js_le (sc q) m'" by (simp add: scan_best_def)
        from js_le_gt_trans [OF this True] show ?thesis .
      qed
      moreover from a True have "js_gt (sc p) m0" by (blast intro: js_gt_trans)
      ultimately show ?thesis by simp
    qed
    then have "js_gt (sc p) m0" and "scan_best sc R (ps @ [p]) (sc p) p"
      using scan_best_new [of sc p ps R] pn by simp_all
    then show ?thesis by (simp add: eq p [symmetric])
  next
    case False
    with now have eq: "m = m'" "cx = cx'" "cy = cy'" by simp_all
    from IH show ?thesis
    proof
      assume a: "m' = m0 \<and> cx' = x0 \<and> cy' = y0 \<and> (\<forall>p \<in> set ps. \<not> js_gt (sc p) m0)"
      with False show ?thesis by (simp add: eq)
    next
      assume a: "js_gt m' m0 \<and> scan_best sc R ps m' (cy', cx')"
      with mn' before False have "scan_best sc R (ps @ [p]) m' (cy', cx')"
        by (intro scan_best_keep) simp_all
      with a show ?thesis by (simp add: eq)
    qed
  qed
qed

lemma offset_scan_fold:
  "offset_scan A tnorm search tmean tstd W sr
     = foldl (\<lambda>st (oy, ox). if js_gt (score_or_nan A tnorm search tmean tstd W (oy, ox)) (fst st)
                              then (score_or_nan A tnorm search tmean tstd W (oy, ox), ox, oy) else st)
         (NInf, 0, 0) (search_offsets sr)"
proof -
  have step: "offset_step A tnorm search tmean tstd W oy ox st
      = (if js_gt (score_or_nan A tnorm search tmean tstd W (oy, ox)) (fst st)
         then (score_or_nan A tnorm search tmean tstd W (oy, ox), ox, oy) else st)" for oy ox st
    by (simp add: offset_step_def score_or_nan_def split: option.split)
  show ?thesis
    unfolding offset_scan_def search_offsets_def foldl_product step ..
qed

text \<open>
  What the scan of \<^verbatim>\<open>normalizedCrossCorrelation\<close> leaves, under either arithmetic and for
  patches of any content.
\<close>

lemma ncc_scan_result:
  fixes search :: "jsnum list" and W sr :: int
  assumes "templateStd A template \<noteq> Num 0"
  defines "r \<equiv> normalizedCrossCorrelation A template search W sr"
  shows "((\<exists>ox oy c. \<bar>ox\<bar> \<le> sr \<and> \<bar>oy\<bar> \<le> sr \<and> patch_score A template search W ox oy = Some c
                     \<and> js_gt c NInf) \<longrightarrow>
            \<bar>ncc_dx r\<bar> \<le> sr \<and> \<bar>ncc_dy r\<bar> \<le> sr
          \<and> patch_score A template search W (ncc_dx r) (ncc_dy r) = Some (ncc_correlation r)
          \<and> (\<forall>ox oy c. \<bar>ox\<bar> \<le> sr \<and> \<bar>oy\<bar> \<le> sr
                 \<and> patch_score A template search W ox oy = Some c \<and> c \<noteq> NaN \<longrightarrow>
               js_le c (ncc_correlation r)
               \<and> (c = ncc_correlation r \<longrightarrow>
                    ncc_dy r < oy \<or> (ncc_dy r = oy \<and> ncc_dx r \<le> ox))))
       \<and> (\<not> (\<exists>ox oy c. \<bar>ox\<bar> \<le> sr \<and> \<bar>oy\<bar> \<le> sr \<and> patch_score A template search W ox oy = Some c
                     \<and> js_gt c NInf) \<longrightarrow>
            r = \<lparr>ncc_dx = 0, ncc_dy = 0, ncc_correlation = NInf\<rparr>)"
proof -
  let ?tn = "templateNorm A template" and ?tm = "templateMean A template"
  let ?ts = "templateStd A template"
  let ?sc = "score_or_nan A ?tn search ?tm ?ts W"
  let ?some = "\<exists>ox oy c. \<bar>ox\<bar> \<le> sr \<and> \<bar>oy\<bar> \<le> sr \<and> patch_score A template search W ox oy = Some c
                     \<and> js_gt c NInf"
  have sc: "?sc (oy, ox) = (case patch_score A template search W ox oy of None \<Rightarrow> NaN | Some c \<Rightarrow> c)"
    for oy ox
    by (simp add: score_or_nan_def patch_score_def)
  obtain m cx cy where scan: "offset_scan A ?tn search ?tm ?ts W sr = (m, cx, cy)"
    by (cases "offset_scan A ?tn search ?tm ?ts W sr") auto
  from assms(1) have r: "r = \<lparr>ncc_dx = cx, ncc_dy = cy, ncc_correlation = m\<rparr>"
    by (simp add: r_def normalizedCrossCorrelation_def scan)
  have m0: "NInf \<noteq> NaN" by simp
  from scan have res: "foldl (\<lambda>st (oy, ox). if js_gt (?sc (oy, ox)) (fst st) then (?sc (oy, ox), ox, oy) else st)
                (NInf, 0, 0) (search_offsets sr) = (m, cx, cy)"
    by (simp only: offset_scan_fold)
  note alt = scan_first_max [OF sorted_wrt_search_offsets m0 res]
  have beats: "?some = (\<exists>p \<in> set (search_offsets sr). js_gt (?sc p) NInf)"
  proof
    assume ?some
    then obtain ox oy c where "\<bar>ox\<bar> \<le> sr" "\<bar>oy\<bar> \<le> sr"
      "patch_score A template search W ox oy = Some c" "js_gt c NInf" by blast
    then have "(oy, ox) \<in> set (search_offsets sr) \<and> js_gt (?sc (oy, ox)) NInf"
      by (simp add: set_search_offsets sc)
    then show "\<exists>p \<in> set (search_offsets sr). js_gt (?sc p) NInf" by blast
  next
    assume "\<exists>p \<in> set (search_offsets sr). js_gt (?sc p) NInf"
    then obtain oy ox where in_range: "(oy, ox) \<in> set (search_offsets sr)"
      and g: "js_gt (?sc (oy, ox)) NInf" by auto
    from g obtain c where "patch_score A template search W ox oy = Some c" "js_gt c NInf"
      by (cases "patch_score A template search W ox oy") (simp_all add: sc)
    with in_range show ?some by (auto simp: set_search_offsets)
  qed
  show ?thesis
  proof (intro conjI impI)
    assume some: ?some
    with alt beats have gt: "js_gt m NInf"
      and best: "scan_best ?sc scan_before (search_offsets sr) m (cy, cx)" by blast+
    from best have mem: "(cy, cx) \<in> set (search_offsets sr)" and at: "?sc (cy, cx) = m"
      and all: "\<forall>p \<in> set (search_offsets sr). ?sc p \<noteq> NaN \<longrightarrow>
                  js_le (?sc p) m \<and> (?sc p = m \<longrightarrow> p = (cy, cx) \<or> scan_before (cy, cx) p)"
      unfolding scan_best_def by blast+
    from gt have mn: "m \<noteq> NaN" by (auto dest: js_gt_not_NaN)
    from at mn have here: "patch_score A template search W cx cy = Some m"
      by (simp add: sc split: option.splits)
    have others: "js_le c m \<and> (c = m \<longrightarrow> cy < oy \<or> (cy = oy \<and> cx \<le> ox))"
      if "\<bar>ox\<bar> \<le> sr" "\<bar>oy\<bar> \<le> sr" "patch_score A template search W ox oy = Some c" "c \<noteq> NaN"
      for ox oy c
    proof -
      from that(1,2) have in_range: "(oy, ox) \<in> set (search_offsets sr)"
        by (simp add: set_search_offsets)
      from that(3) have v: "?sc (oy, ox) = c" by (simp add: sc)
      with all in_range that(4)
      have "js_le c m \<and> (c = m \<longrightarrow> (oy, ox) = (cy, cx) \<or> scan_before (cy, cx) (oy, ox))"
        by blast
      then show ?thesis by (auto simp: scan_before_def)
    qed
    from mem have "\<bar>cx\<bar> \<le> sr \<and> \<bar>cy\<bar> \<le> sr" by (simp add: set_search_offsets)
    then show "\<bar>ncc_dx r\<bar> \<le> sr" "\<bar>ncc_dy r\<bar> \<le> sr" by (simp_all add: r)
    from here show "patch_score A template search W (ncc_dx r) (ncc_dy r) = Some (ncc_correlation r)"
      by (simp add: r)
    show "\<forall>ox oy c. \<bar>ox\<bar> \<le> sr \<and> \<bar>oy\<bar> \<le> sr
                 \<and> patch_score A template search W ox oy = Some c \<and> c \<noteq> NaN \<longrightarrow>
               js_le c (ncc_correlation r)
               \<and> (c = ncc_correlation r \<longrightarrow>
                    ncc_dy r < oy \<or> (ncc_dy r = oy \<and> ncc_dx r \<le> ox))"
    proof (intro allI impI)
      fix ox oy c
      assume "\<bar>ox\<bar> \<le> sr \<and> \<bar>oy\<bar> \<le> sr
                 \<and> patch_score A template search W ox oy = Some c \<and> c \<noteq> NaN"
      then have "js_le c m \<and> (c = m \<longrightarrow> cy < oy \<or> (cy = oy \<and> cx \<le> ox))"
        by (intro others) simp_all
      then show "js_le c (ncc_correlation r)
               \<and> (c = ncc_correlation r \<longrightarrow>
                    ncc_dy r < oy \<or> (ncc_dy r = oy \<and> ncc_dx r \<le> ox))"
        by (simp add: r)
    qed
  next
    assume none: "\<not> ?some"
    with beats have "\<forall>p \<in> set (search_offsets sr). \<not> js_gt (?sc p) NInf" by blast
    with alt have "m = NInf \<and> cx = 0 \<and> cy = 0"
      unfolding scan_best_def by (auto simp: js_gt_irrefl)
    then show "r = \<lparr>ncc_dx = 0, ncc_dy = 0, ncc_correlation = NInf\<rparr>" by (simp add: r)
  qed
qed

text \<open>
  C5, as the code has it. The comparison \<^verbatim>\<open>correlation > maxCorr\<close> is strict and the offsets
  are visited with \<^verbatim>\<open>dy\<close> outside and \<^verbatim>\<open>dx\<close> inside, both from \<^verbatim>\<open>-searchRange\<close> up. So, under
  either arithmetic and for patches of any content, once the template passes the guard
  \<^verbatim>\<open>templateStd === 0\<close>: when some offset of the range has a score above \<^verbatim>\<open>-Infinity\<close>, the
  returned offset lies in the search range, its score is the returned correlation, no
  offset of the range scores more, and among the offsets that attain the maximal score
  the returned one is the first visited, the one with the smallest \<open>dy\<close>, then the
  smallest \<open>dx\<close>; when no offset has such a score, the result is the initial
  \<open>(0, 0)\<close> with correlation \<^verbatim>\<open>-Infinity\<close>. The scores compared are the numbers the
  function computes: two offsets tie when their computed scores are equal.
\<close>

theorem first_maximal_offset_wins:
  fixes search :: "jsnum list" and W sr :: int
  assumes "templateStd A template \<noteq> Num 0"
  defines "r \<equiv> normalizedCrossCorrelation A template search W sr"
  shows "((\<exists>ox oy c. \<bar>ox\<bar> \<le> sr \<and> \<bar>oy\<bar> \<le> sr \<and> patch_score A template search W ox oy = Some c
                     \<and> js_gt c NInf) \<longrightarrow>
            \<bar>ncc_dx r\<bar> \<le> sr \<and> \<bar>ncc_dy r\<bar> \<le> sr
          \<and> patch_score A template search W (ncc_dx r) (ncc_dy r) = Some (ncc_correlation r)
          \<and> (\<forall>ox oy c. \<bar>ox\<bar> \<le> sr \<and> \<bar>oy\<bar> \<le> sr
                 \<and> patch_score A template search W ox oy = Some c \<and> c \<noteq> NaN \<longrightarrow>
               js_le c (ncc_correlation r)
               \<and> (c = ncc_correlation r \<longrightarrow>
                    ncc_dy r < oy \<or> (ncc_dy r = oy \<and> ncc_dx r \<le> ox))))
       \<and> (\<not> (\<exists>ox oy c. \<bar>ox\<bar> \<le> sr \<and> \<bar>oy\<bar> \<le> sr \<and> patch_score A template search W ox oy = Some c
                     \<and> js_gt c NInf) \<longrightarrow>
            r = \<lparr>ncc_dx = 0, ncc_dy = 0, ncc_correlation = NInf\<rparr>)"
  unfolding r_def using assms(1) by (rule ncc_scan_result)

text \<open>
  The template rows \<open>[0, 2]\<close>, \<open>[0, 2]\<close> against a search patch that is \<open>1\<close> everywhere,
  under either arithmetic: every offset scores \<open>0\<close>.
\<close>

lemma tie_template:
  "templateMean A [Num 0, Num 2, Num 0, Num 2] = Num 1"
  "templateNorm A [Num 0, Num 2, Num 0, Num 2] = [Num (- 1), Num 1, Num (- 1), Num 1]"
  "templateStd A [Num 0, Num 2, Num 0, Num 2] = Num 1"
proof -
  show m: "templateMean A [Num 0, Num 2, Num 0, Num 2] = Num 1"
    by (simp add: templateMean_def fl_small)
  show n: "templateNorm A [Num 0, Num 2, Num 0, Num 2] = [Num (- 1), Num 1, Num (- 1), Num 1]"
    by (simp add: templateNorm_def m js_sub_def fl_small)
  show "templateStd A [Num 0, Num 2, Num 0, Num 2] = Num 1"
    by (simp add: templateStd_def n fl_small)
qed

lemma tie_result:
  "normalizedCrossCorrelation A [Num 0, Num 2, Num 0, Num 2] [Num 1, Num 1, Num 1, Num 1] 2 1
     = \<lparr>ncc_dx = - 1, ncc_dy = - 1, ncc_correlation = Num 0\<rparr>"
  unfolding normalizedCrossCorrelation_def tie_template
  by (simp add: offset_scan_def offset_step_def offset_score_def corr_sum_def corr_pixel_def
      rd_def js_sub_def js_gt_def upto.simps num_of_int_def fl_small)

lemma tie_score_centre:
  "patch_score A [Num 0, Num 2, Num 0, Num 2] [Num 1, Num 1, Num 1, Num 1] 2 0 0 = Some (Num 0)"
  unfolding patch_score_def tie_template
  by (simp add: offset_score_def corr_sum_def corr_pixel_def rd_def js_sub_def upto.simps
      num_of_int_def fl_small)

theorem first_maximal_offset_wins_witness:
  "templateStd Double [Num 0, Num 2, Num 0, Num 2] \<noteq> Num 0
   \<and> patch_score Double [Num 0, Num 2, Num 0, Num 2] [Num 1, Num 1, Num 1, Num 1] 2 0 0 = Some (Num 0)
   \<and> js_gt (Num 0) NInf
   \<and> normalizedCrossCorrelation Double [Num 0, Num 2, Num 0, Num 2] [Num 1, Num 1, Num 1, Num 1] 2 1
       = \<lparr>ncc_dx = - 1, ncc_dy = - 1, ncc_correlation = Num 0\<rparr>
   \<and> patch_score Double [Num 0, Num 2, Num 0, Num 2] [Num 1, Num 1, Num 1, Num 1] 2 (- 1) (- 1)
       = Some (Num 0)"
proof -
  let ?T = "[Num 0, Num 2, Num 0, Num 2]" and ?S = "[Num 1, Num 1, Num 1, Num 1]"
  have h: "templateStd Double ?T \<noteq> Num 0" by (simp add: tie_template)
  have c: "patch_score Double ?T ?S 2 0 0 = Some (Num 0)" by (rule tie_score_centre)
  have some: "\<exists>ox oy c. \<bar>ox\<bar> \<le> (1::int) \<and> \<bar>oy\<bar> \<le> (1::int)
      \<and> patch_score Double ?T ?S 2 ox oy = Some c \<and> js_gt c NInf"
    by (rule exI [of _ 0], rule exI [of _ 0], rule exI [of _ "Num 0"]) (simp add: c)
  from first_maximal_offset_wins [OF h, where search = ?S and W = 2 and sr = 1, THEN conjunct1] some
  have "patch_score Double ?T ?S 2
          (ncc_dx (normalizedCrossCorrelation Double ?T ?S 2 1))
          (ncc_dy (normalizedCrossCorrelation Double ?T ?S 2 1))
        = Some (ncc_correlation (normalizedCrossCorrelation Double ?T ?S 2 1))"
    by blast
  then have "patch_score Double ?T ?S 2 (- 1) (- 1) = Some (Num 0)"
    unfolding tie_result by simp
  with h c tie_result [of Double] show ?thesis by simp
qed

text \<open>
  C5 as stated fails on the code. The template rows \<open>[0, 2]\<close>, \<open>[0, 2]\<close> against a search
  patch that is \<open>1\<close> everywhere score \<open>0\<close> at every offset, in binary64 arithmetic. The
  offset \<open>(0, 0)\<close> is tied for the maximum and is the closest to zero, and the code
  returns \<open>(-1, -1)\<close>, the first offset visited.
\<close>

theorem tie_break_counterexample:
  "normalizedCrossCorrelation Double [Num 0, Num 2, Num 0, Num 2] [Num 1, Num 1, Num 1, Num 1] 2 1
       = \<lparr>ncc_dx = - 1, ncc_dy = - 1, ncc_correlation = Num 0\<rparr>
   \<and> patch_score Double [Num 0, Num 2, Num 0, Num 2] [Num 1, Num 1, Num 1, Num 1] 2 0 0
       = Some (Num 0)"
  using tie_result [of Double] tie_score_centre [of Double] by simp

section \<open>Degenerate configurations\<close>

lemma step_size_Exact:
  "step_size Exact config
     = Num (of_int \<lfloor>real_of_int (cfg_interrogationWindow config) * (1 - cfg_overlap config)\<rfloor>)"
  by (simp add: step_size_def js_sub_def num_of_int_def)

lemma x_loop_no_columns:
  "width \<le> windowSize \<Longrightarrow>
     x_loop A pixels1 pixels2 width height windowSize step sRange minCorr y 0 vectors = Some vectors"
  by (subst x_loop.simps) simp

lemma y_loop_no_columns:
  assumes "width \<le> windowSize" and "step \<noteq> NInf" and "finite_step step \<longrightarrow> 0 < step_value step"
  shows "y_loop A pixels1 pixels2 width height windowSize step sRange minCorr y vectors = Some vectors"
proof (induction "nat (height - windowSize - y)" arbitrary: y rule: less_induct)
  case less
  show ?case
  proof (cases "y < height - windowSize")
    case True
    show ?thesis
    proof (cases "finite_step step")
      case fin: True
      with assms(3) True
      have "nat (height - windowSize - (y + step_value step)) < nat (height - windowSize - y)"
        by simp
      from less [OF this] True fin show ?thesis
        by (subst y_loop.simps) (simp add: x_loop_no_columns [OF assms(1)])
    next
      case False
      with assms(2) True show ?thesis
        by (subst y_loop.simps) (simp add: x_loop_no_columns [OF assms(1)])
    qed
  next
    case False
    then show ?thesis by (subst y_loop.simps) simp
  qed
qed

lemma y_loop_returns_only_with_progress:
  assumes "y_loop A p1 p2 w h ws st sr mc y vs = Some r"
  shows "\<not> (((finite_step st \<and> step_value st \<le> 0) \<or> st = NInf) \<and> y < h - ws)"
proof (rule y_loop.raw_induct
    [where P = "\<lambda>A p1 p2 w h ws st sr mc y vs r.
                  \<not> (((finite_step st \<and> step_value st \<le> 0) \<or> st = NInf) \<and> y < h - ws)",
     OF _ assms])
  fix f a0 a1 a2 a3 a4 a5 a6 a7 a8 a9 a10 res
  assume IH: "\<And>b0 b1 b2 b3 b4 b5 b6 b7 b8 b9 b10 res'.
      f b0 b1 b2 b3 b4 b5 b6 b7 b8 b9 b10 = Some res' \<Longrightarrow>
        \<not> (((finite_step b6 \<and> step_value b6 \<le> 0) \<or> b6 = NInf) \<and> b9 < b4 - b5)"
    and body: "(if a9 < a4 - a5
        then Option.bind (x_loop a0 a1 a2 a3 a4 a5 a6 a7 a8 a9 0 a10)
               (\<lambda>vectors'. if finite_step a6
                            then f a0 a1 a2 a3 a4 a5 a6 a7 a8 (a9 + step_value a6) vectors'
                            else if a6 = NInf then None else Some vectors')
        else Some a10) = Some res"
  show "\<not> (((finite_step a6 \<and> step_value a6 \<le> 0) \<or> a6 = NInf) \<and> a9 < a4 - a5)"
  proof
    assume a: "((finite_step a6 \<and> step_value a6 \<le> 0) \<or> a6 = NInf) \<and> a9 < a4 - a5"
    with body obtain vs' where
      c: "(if finite_step a6 then f a0 a1 a2 a3 a4 a5 a6 a7 a8 (a9 + step_value a6) vs'
           else if a6 = NInf then None else Some vs') = Some res"
      by (auto simp: bind_eq_Some_conv)
    show False
    proof (cases "finite_step a6")
      case True
      with c have "f a0 a1 a2 a3 a4 a5 a6 a7 a8 (a9 + step_value a6) vs' = Some res" by simp
      from IH [OF this] a True show False by auto
    next
      case False
      with a c show False by auto
    qed
  qed
qed

lemma y_loop_diverges:
  assumes "(finite_step step \<and> step_value step \<le> 0) \<or> step = NInf" and "y < height - windowSize"
  shows "y_loop A pixels1 pixels2 width height windowSize step sRange minCorr y vectors = None"
proof (cases "y_loop A pixels1 pixels2 width height windowSize step sRange minCorr y vectors")
  case None
  then show ?thesis .
next
  case (Some r)
  from y_loop_returns_only_with_progress [OF this] assms show ?thesis by simp
qed

lemma positive_step:
  assumes "js_gt (js_floor a) (Num 0)"
  shows "js_floor a \<noteq> NInf \<and> (finite_step (js_floor a) \<longrightarrow> 0 < step_value (js_floor a))"
  using assms by (cases a) (simp_all add: js_gt_def)

lemma nonpositive_step:
  assumes "js_le (js_floor a) (Num 0)"
  shows "(finite_step (js_floor a) \<and> step_value (js_floor a) \<le> 0) \<or> js_floor a = NInf"
  using assms by (cases a) (simp_all add: js_le_def)

text \<open>
  C2, as the code has it. \<^verbatim>\<open>computePIVField\<close> validates nothing. When the window is not
  smaller than the frame height, or is not smaller than the frame width while the step is
  positive, no window is visited and the function returns normally with an empty list of
  vectors, under either arithmetic: no error is raised. (Over the reals the step is the
  floor of \<open>windowSize * (1 - overlap)\<close>, \<open>step_size_Exact\<close>.)
\<close>

theorem window_not_smaller_than_frame:
  assumes "frame_height image1 \<le> cfg_interrogationWindow config
         \<or> (frame_width image1 \<le> cfg_interrogationWindow config
             \<and> js_gt (step_size A config) (Num 0))"
  shows "computePIVField A image1 image2 config = Some []"
  using assms
proof
  assume "frame_height image1 \<le> cfg_interrogationWindow config"
  then show ?thesis
    unfolding computePIVField_def Let_def by (subst y_loop.simps) simp
next
  assume a: "frame_width image1 \<le> cfg_interrogationWindow config
             \<and> js_gt (step_size A config) (Num 0)"
  then have "js_gt (js_floor (js_mul A (num_of_int (cfg_interrogationWindow config))
                        (js_sub A (Num 1) (Num (cfg_overlap config))))) (Num 0)"
    by (simp add: step_size_def)
  from positive_step [OF this] a show ?thesis
    unfolding computePIVField_def Let_def step_size_def by (intro y_loop_no_columns) blast+
qed

text \<open>
  With a step that is not positive and a window smaller than the frame height the loop
  over \<open>y\<close> never ends: the function does not return, and raises nothing either.
\<close>

lemma nonpositive_step_diverges:
  assumes "js_le (step_size A config) (Num 0)"
    and "cfg_interrogationWindow config < frame_height image1"
  shows "computePIVField A image1 image2 config = None"
proof -
  from assms(1)
  have "js_le (js_floor (js_mul A (num_of_int (cfg_interrogationWindow config))
                        (js_sub A (Num 1) (Num (cfg_overlap config))))) (Num 0)"
    by (simp add: step_size_def)
  from nonpositive_step [OF this] assms(2) show ?thesis
    unfolding computePIVField_def Let_def step_size_def by (intro y_loop_diverges) simp_all
qed

text \<open>
  C2 as stated fails on the code: a 2 x 2 frame pair under the default configuration
  (window 64) returns normally, with an empty field.
\<close>

theorem window_larger_than_frame_counterexample:
  "computePIVField Double \<lparr>frame_pixels = [1, 2, 3, 4], frame_width = 2, frame_height = 2\<rparr>
     \<lparr>frame_pixels = [1, 2, 3, 4], frame_width = 2, frame_height = 2\<rparr> PIV_CONFIG = Some []"
  unfolding computePIVField_def Let_def by (subst y_loop.simps) (simp add: PIV_CONFIG_def)

lemma half_window_step:
  "step_size A (PIV_CONFIG\<lparr>cfg_interrogationWindow := 2\<rparr>) = Num 1"
  by (simp add: step_size_def PIV_CONFIG_def js_sub_def num_of_int_def fl_small)

theorem window_not_smaller_than_frame_witness:
  "frame_width \<lparr>frame_pixels = [1, 2, 3, 4, 5, 6], frame_width = 2, frame_height = 3\<rparr>
       \<le> cfg_interrogationWindow (PIV_CONFIG\<lparr>cfg_interrogationWindow := 2\<rparr>)
   \<and> js_gt (step_size Double (PIV_CONFIG\<lparr>cfg_interrogationWindow := 2\<rparr>)) (Num 0)
   \<and> computePIVField Double \<lparr>frame_pixels = [1, 2, 3, 4, 5, 6], frame_width = 2, frame_height = 3\<rparr>
       \<lparr>frame_pixels = [6, 5, 4, 3, 2, 1], frame_width = 2, frame_height = 3\<rparr>
       (PIV_CONFIG\<lparr>cfg_interrogationWindow := 2\<rparr>) = Some []"
proof -
  have h: "frame_width \<lparr>frame_pixels = [1, 2, 3, 4, 5, 6], frame_width = 2, frame_height = 3\<rparr>
       \<le> cfg_interrogationWindow (PIV_CONFIG\<lparr>cfg_interrogationWindow := 2\<rparr>)
   \<and> js_gt (step_size Double (PIV_CONFIG\<lparr>cfg_interrogationWindow := 2\<rparr>)) (Num 0)"
    by (simp add: half_window_step)
  from h window_not_smaller_than_frame [OF disjI2, OF h] show ?thesis by blast
qed

section \<open>The sub-pixel flag\<close>

lemma sqrt_quarter: "sqrt (1 / 4) = 1 / 2"
  by (rule real_sqrt_unique) (simp_all add: power2_eq_square)

text \<open>A sixth is not a binary64 number: the quotient is rounded.\<close>

lemma fl_sixth: "fl Double (1 / 6) = Num (6004799503160661 / 36028797018963968)"
  using round_to_near [where e = "- 3" and n = 6004799503160661 and x = "1 / 6" and p = 53
      and emin = "- 1022" and emax = 1023]
  by simp

declare fl.simps(2) [simp del]

declare to_float32.simps(2) [simp del]

lemma subpixel_window1: "extractWindow [0, 0, 0, 1, 1, 0, 0, 0, 0] 3 3 0 0 2 = [Num 0, Num 0, Num 1, Num 1]"
  apply (simp add: extractWindow_def rd_pixel_def upto.simps)
  apply (simp add: eval_nat_numeral)
  done

lemma subpixel_window2: "extractWindow [0, 0, 0, 1, 2, 0, 0, 0, 0] 3 3 0 0 2 = [Num 0, Num 0, Num 1, Num 2]"
  apply (simp add: extractWindow_def rd_pixel_def upto.simps)
  apply (simp add: eval_nat_numeral)
  done

lemma subpixel_template:
  "templateMean A [Num 0, Num 0, Num 1, Num 1] = Num (1 / 2)"
  "templateNorm A [Num 0, Num 0, Num 1, Num 1] = [Num (- (1 / 2)), Num (- (1 / 2)), Num (1 / 2), Num (1 / 2)]"
  "templateStd A [Num 0, Num 0, Num 1, Num 1] = Num (1 / 2)"
proof -
  show m: "templateMean A [Num 0, Num 0, Num 1, Num 1] = Num (1 / 2)"
    by (simp add: templateMean_def fl_small)
  show n: "templateNorm A [Num 0, Num 0, Num 1, Num 1]
      = [Num (- (1 / 2)), Num (- (1 / 2)), Num (1 / 2), Num (1 / 2)]"
    by (simp add: templateNorm_def m js_sub_def fl_small)
  show "templateStd A [Num 0, Num 0, Num 1, Num 1] = Num (1 / 2)"
    by (simp add: templateStd_def n fl_small sqrt_quarter)
qed

lemma subpixel_ncc_Double:
  "normalizedCrossCorrelation Double [Num 0, Num 0, Num 1, Num 1] [Num 0, Num 0, Num 1, Num 2] 2 1
     = \<lparr>ncc_dx = 0, ncc_dy = 0, ncc_correlation = Num (3 / 4)\<rparr>"
  unfolding normalizedCrossCorrelation_def subpixel_template
  by (simp add: offset_scan_def offset_step_def offset_score_def corr_sum_def corr_pixel_def
        rd_def js_sub_def js_gt_def upto.simps num_of_int_def fl_small fl_sixth)

lemma subpixel_ncc_Exact:
  "normalizedCrossCorrelation Exact [Num 0, Num 0, Num 1, Num 1] [Num 0, Num 0, Num 1, Num 2] 2 1
     = \<lparr>ncc_dx = 0, ncc_dy = 0, ncc_correlation = Num (3 / 4)\<rparr>"
  unfolding normalizedCrossCorrelation_def subpixel_template
  by (simp add: offset_scan_def offset_step_def offset_score_def corr_sum_def corr_pixel_def
        rd_def js_sub_def js_gt_def upto.simps num_of_int_def)

lemma subpixel_scores_Exact:
  "patch_score Exact [Num 0, Num 0, Num 1, Num 1] [Num 0, Num 0, Num 1, Num 2] 2 (- 1) 0 = Some (Num (1 / 6))"
  "patch_score Exact [Num 0, Num 0, Num 1, Num 1] [Num 0, Num 0, Num 1, Num 2] 2 0 0 = Some (Num (3 / 4))"
  "patch_score Exact [Num 0, Num 0, Num 1, Num 1] [Num 0, Num 0, Num 1, Num 2] 2 1 0 = Some (Num (1 / 2))"
  unfolding patch_score_def subpixel_template
  by (simp_all add: offset_score_def corr_sum_def corr_pixel_def rd_def js_sub_def upto.simps
      num_of_int_def)

lemma subpixel_scores_Double:
  "patch_score Double [Num 0, Num 0, Num 1, Num 1] [Num 0, Num 0, Num 1, Num 2] 2 (- 1) 0
     = Some (Num (6004799503160661 / 36028797018963968))"
  "patch_score Double [Num 0, Num 0, Num 1, Num 1] [Num 0, Num 0, Num 1, Num 2] 2 0 0 = Some (Num (3 / 4))"
  "patch_score Double [Num 0, Num 0, Num 1, Num 1] [Num 0, Num 0, Num 1, Num 2] 2 1 0 = Some (Num (1 / 2))"
  unfolding patch_score_def subpixel_template
  by (simp_all add: offset_score_def corr_sum_def corr_pixel_def rd_def js_sub_def upto.simps
      num_of_int_def fl_small fl_sixth)

lemma subpixel_step: "step_size A subpixel_config = Num 1"
  by (simp add: step_size_def subpixel_config_def PIV_CONFIG_def js_sub_def num_of_int_def fl_small)

lemma subpixel_field:
  assumes "normalizedCrossCorrelation A [Num 0, Num 0, Num 1, Num 1] [Num 0, Num 0, Num 1, Num 2] 2 1
     = \<lparr>ncc_dx = 0, ncc_dy = 0, ncc_correlation = Num (3 / 4)\<rparr>"
  shows "computePIVField A subpixel_frame1 subpixel_frame2 subpixel_config
     = Some [\<lparr>vec_x = 1, vec_y = 1, vec_u = 0, vec_v = 0, vec_correlation = Num (3 / 4)\<rparr>]"
  unfolding computePIVField_def Let_def subpixel_step
  apply (simp add: subpixel_frame1_def subpixel_frame2_def subpixel_config_def PIV_CONFIG_def)
  apply (subst y_loop.simps, simp)
  apply (subst x_loop.simps, simp)
  apply (subst x_loop.simps, simp)
  apply (subst y_loop.simps, simp)
  apply (simp add: window_vector_def subpixel_window1 subpixel_window2 assms js_ge_def js_le_def)
  done

text \<open>
  C8. \<^verbatim>\<open>computePIVField\<close> never reads \<^verbatim>\<open>config.subPixelAccuracy\<close>: the field is the same
  under either value of the flag. With the flag on, the one window of the frame pair
  above is reported with the integer displacement \<open>(0, 0)\<close>, in binary64 arithmetic as
  over the reals, while the scores at \<open>dx = -1, 0, 1\<close> are \<open>1/6\<close> (rounded, in binary64),
  \<open>3/4\<close> and \<open>1/2\<close>: all positive, the optimum inside the search range, and the vertex of
  the parabola through them a fifth of a pixel off the integer optimum.
\<close>

theorem subpixel_flag_has_no_effect:
  "computePIVField A image1 image2 (config\<lparr>cfg_subPixelAccuracy := flag\<rparr>)
     = computePIVField A image1 image2 config
   \<and> cfg_subPixelAccuracy subpixel_config
   \<and> computePIVField Double subpixel_frame1 subpixel_frame2 subpixel_config
       = Some [\<lparr>vec_x = 1, vec_y = 1, vec_u = 0, vec_v = 0, vec_correlation = Num (3 / 4)\<rparr>]
   \<and> computePIVField Exact subpixel_frame1 subpixel_frame2 subpixel_config
       = Some [\<lparr>vec_x = 1, vec_y = 1, vec_u = 0, vec_v = 0, vec_correlation = Num (3 / 4)\<rparr>]
   \<and> patch_score Exact [Num 0, Num 0, Num 1, Num 1] [Num 0, Num 0, Num 1, Num 2] 2 (- 1) 0
       = Some (Num (1 / 6))
   \<and> patch_score Exact [Num 0, Num 0, Num 1, Num 1] [Num 0, Num 0, Num 1, Num 2] 2 0 0
       = Some (Num (3 / 4))
   \<and> patch_score Exact [Num 0, Num 0, Num 1, Num 1] [Num 0, Num 0, Num 1, Num 2] 2 1 0
       = Some (Num (1 / 2))
   \<and> spec_parabola_peak (1 / 6) (3 / 4) (1 / 2) = 1 / 5
   \<and> patch_score Double [Num 0, Num 0, Num 1, Num 1] [Num 0, Num 0, Num 1, Num 2] 2 (- 1) 0
       = Some (Num (6004799503160661 / 36028797018963968))
   \<and> patch_score Double [Num 0, Num 0, Num 1, Num 1] [Num 0, Num 0, Num 1, Num 2] 2 0 0
       = Some (Num (3 / 4))
   \<and> patch_score Double [Num 0, Num 0, Num 1, Num 1] [Num 0, Num 0, Num 1, Num 2] 2 1 0
       = Some (Num (1 / 2))
   \<and> 19 / 100 < spec_parabola_peak (6004799503160661 / 36028797018963968) (3 / 4) (1 / 2)"
proof -
  have a: "computePIVField A image1 image2 (config\<lparr>cfg_subPixelAccuracy := flag\<rparr>)
     = computePIVField A image1 image2 config"
    by (simp add: computePIVField_def step_size_def)
  have b: "cfg_subPixelAccuracy subpixel_config"
    by (simp add: subpixel_config_def PIV_CONFIG_def)
  have c: "spec_parabola_peak (1 / 6) (3 / 4) (1 / 2) = 1 / 5"
    by (simp add: spec_parabola_peak_def)
  have d: "19 / 100 < spec_parabola_peak (6004799503160661 / 36028797018963968) (3 / 4) (1 / 2)"
    by (simp add: spec_parabola_peak_def)
  from a b c d subpixel_field [OF subpixel_ncc_Double] subpixel_field [OF subpixel_ncc_Exact]
    subpixel_scores_Exact subpixel_scores_Double
  show ?thesis by (intro conjI)
qed

section \<open>Rejection of outliers by the median absolute deviation\<close>

subsection \<open>Sorting finite numbers\<close>

lemma js_insort_Num: "js_insort (Num a) (map Num xs) = map Num (insort a xs)"
  by (induction xs) auto

lemma js_sort_Num: "js_sort (map Num xs) = map Num (sort xs)"
proof -
  have "foldr js_insort (map Num xs) [] = map Num (foldr insort xs [])"
    by (induction xs) (simp_all add: js_insort_Num)
  then show ?thesis by (simp add: js_sort_def sort_key_def)
qed

lemma js_median_Num:
  assumes "xs \<noteq> []"
  shows "js_median (map Num xs) = Num (sort xs ! (length xs div 2))"
proof -
  from assms have "length xs div 2 < length (sort xs)" by simp
  then show ?thesis by (simp add: js_median_def js_sort_Num)
qed

lemma sort_one_larger:
  fixes a b :: real
  assumes "a < b"
  shows "sort (replicate k a @ [b] @ replicate m a) = replicate (k + m) a @ [b]"
proof (rule properties_for_sort)
  show "mset (replicate (k + m) a @ [b]) = mset (replicate k a @ [b] @ replicate m a)"
    by (simp add: replicate_add)
  show "sorted (replicate (k + m) a @ [b])"
    using assms by (simp add: sorted_append)
qed

lemma js_median_one_larger:
  fixes a b :: real
  assumes "a < b" and "2 \<le> k + m"
  shows "js_median (replicate k (Num a) @ [Num b] @ replicate m (Num a)) = Num a"
proof -
  have l: "replicate k (Num a) @ [Num b] @ replicate m (Num a)
      = map Num (replicate k a @ [b] @ replicate m a)" by simp
  have "(k + m + 1) div 2 < k + m" using assms(2) by simp
  then show ?thesis
    unfolding l
    by (subst js_median_Num) (simp_all add: sort_one_larger [OF assms(1), simplified] nth_append)
qed

subsection \<open>The field of equal vectors with one outlier\<close>

lemma sqrt_100: "sqrt 100 = 10"
  by (rule real_sqrt_unique) simp_all

lemma js_magnitude_one: "vec_u v = 1 \<and> vec_v v = 0 \<Longrightarrow> js_magnitude A v = Num 1"
  by (simp add: js_magnitude_def num_of_int_def)

lemma js_magnitude_ten: "vec_u v = 10 \<and> vec_v v = 0 \<Longrightarrow> js_magnitude A v = Num 10"
  by (simp add: js_magnitude_def num_of_int_def fl_small sqrt_100)

lemma map_const: "list_all (\<lambda>v. f v = c) xs \<Longrightarrow> map f xs = replicate (length xs) c"
  by (induction xs) simp_all

lemma removeOutliers_filter:
  "removeOutliers A vectors threshold
     = filter (\<lambda>v. js_le (js_abs (js_sub A (js_magnitude A v) (mag_median A vectors)))
                         (js_mul A (Num threshold) (mag_mad A vectors))) vectors"
  by (simp add: removeOutliers_def mag_median_def mag_mad_def Let_def)

text \<open>
  C3, as the code has it. Under either arithmetic \<^verbatim>\<open>removeOutliers\<close> keeps, in their order
  and unchanged, exactly the vectors that pass the test \<open>|mag - median| \<le> threshold * MAD\<close>
  on the numbers the function computes, where the median is the upper median of all
  magnitudes; the others are removed from the field, not marked. For a field of at least
  three vectors, all equal to \<open>(1, 0)\<close> but one outlier \<open>(10, 0)\<close> anywhere in it, the
  result under the threshold \<open>3\<close> is the field without the outlier.
\<close>

theorem mad_filter_removes_outlier:
  assumes "list_all (\<lambda>v. vec_u v = 1 \<and> vec_v v = 0) (as @ bs)"
    and "vec_u out = 10 \<and> vec_v out = 0"
    and "2 \<le> length as + length bs"
  shows "removeOutliers A vectors threshold
           = filter (\<lambda>v. js_le (js_abs (js_sub A (js_magnitude A v) (mag_median A vectors)))
                               (js_mul A (Num threshold) (mag_mad A vectors))) vectors
       \<and> removeOutliers A (as @ [out] @ bs) 3 = as @ bs"
proof
  show "removeOutliers A vectors threshold
           = filter (\<lambda>v. js_le (js_abs (js_sub A (js_magnitude A v) (mag_median A vectors)))
                               (js_mul A (Num threshold) (mag_mad A vectors))) vectors"
    by (rule removeOutliers_filter)
next
  let ?vs = "as @ [out] @ bs"
  from assms(1) have ones: "list_all (\<lambda>v. js_magnitude A v = Num 1) as"
      "list_all (\<lambda>v. js_magnitude A v = Num 1) bs"
    by (auto simp: list_all_iff js_magnitude_one)
  have ten: "js_magnitude A out = Num 10" using assms(2) by (rule js_magnitude_ten)
  have mags: "map (js_magnitude A) ?vs
      = replicate (length as) (Num 1) @ [Num 10] @ replicate (length bs) (Num 1)"
    by (simp add: map_const [OF ones(1)] map_const [OF ones(2)] ten)
  have med: "mag_median A ?vs = Num 1"
    unfolding mag_median_def mags using assms(3) by (intro js_median_one_larger) simp_all
  have devs: "map (\<lambda>m. js_abs (js_sub A m (Num 1))) (map (js_magnitude A) ?vs)
      = replicate (length as) (Num 0) @ [Num 9] @ replicate (length bs) (Num 0)"
    unfolding mags by (simp add: js_sub_def fl_small)
  have mad: "mag_mad A ?vs = Num 0"
    unfolding mag_mad_def med devs using assms(3) by (intro js_median_one_larger) simp_all
  from ones have all1: "\<forall>v \<in> set as. js_magnitude A v = Num 1"
      "\<forall>v \<in> set bs. js_magnitude A v = Num 1"
    by (simp_all add: list_all_iff)
  show "removeOutliers A ?vs 3 = as @ bs"
    unfolding removeOutliers_filter med mad
    using all1 by (simp add: ten js_sub_def fl_small)
qed

theorem mad_filter_removes_outlier_witness:
  "list_all (\<lambda>v. vec_u v = 1 \<and> vec_v v = 0) ([unit_vector 32] @ [unit_vector 96])
   \<and> vec_u (outlier_vector 64) = 10 \<and> vec_v (outlier_vector 64) = 0
   \<and> 2 \<le> length [unit_vector 32] + length [unit_vector 96]
   \<and> removeOutliers Double [unit_vector 32, outlier_vector 64, unit_vector 96] 3
       = [unit_vector 32, unit_vector 96]"
proof -
  have h1: "list_all (\<lambda>v. vec_u v = 1 \<and> vec_v v = 0) ([unit_vector 32] @ [unit_vector 96])"
    by (simp add: unit_vector_def)
  have h2: "vec_u (outlier_vector 64) = 10 \<and> vec_v (outlier_vector 64) = 0"
    by (simp add: outlier_vector_def)
  have h3: "2 \<le> length [unit_vector 32] + length [unit_vector 96]" by simp
  from mad_filter_removes_outlier [OF h1 h2 h3, where A = Double, THEN conjunct2] h1 h2 h3
  show ?thesis by simp
qed

text \<open>
  C3 as stated fails on the code: the outlier does not remain in the output field. Of
  the three vectors the function returns two.
\<close>

theorem outlier_removed_counterexample:
  "removeOutliers Double [unit_vector 32, unit_vector 64, outlier_vector 96] 3
     = [unit_vector 32, unit_vector 64]
   \<and> outlier_vector 96 \<notin> set (removeOutliers Double [unit_vector 32, unit_vector 64, outlier_vector 96] 3)"
proof -
  have m: "js_magnitude Double (unit_vector px) = Num 1"
    "js_magnitude Double (outlier_vector px) = Num 10" for px
    by (simp_all add: js_magnitude_one js_magnitude_ten unit_vector_def outlier_vector_def)
  have "removeOutliers Double [unit_vector 32, unit_vector 64, outlier_vector 96] 3
     = [unit_vector 32, unit_vector 64]"
    by (simp add: removeOutliers_def m js_median_def js_sort_def js_sub_def fl_small)
  then show ?thesis by (simp add: unit_vector_def outlier_vector_def)
qed

section \<open>The sign of the vertical component\<close>

lemma pc_scan_fold:
  "pc_scan A template search w h
     = foldl (\<lambda>st (oy, ox). if js_gt (pc_score A template search w h ox oy) (fst st)
                              then (pc_score A template search w h ox oy, ox, oy) else st)
         (Num (- 1), 0, 0) (search_offsets pc_searchRange)"
  unfolding pc_scan_def search_offsets_def foldl_product pc_step_def Let_def ..

lemma pc_scan_state:
  "pc_scan A template search w h
     = (pc_correlation (phaseCorrelate A template search w h),
        pc_x (phaseCorrelate A template search w h),
        - pc_y (phaseCorrelate A template search w h))"
  by (cases "pc_scan A template search w h") (simp add: phaseCorrelate_def)

text \<open>
  What the scan of \<^verbatim>\<open>phaseCorrelate\<close> leaves, under either arithmetic and for patches of
  any content.
\<close>

lemma pc_scan_result:
  fixes A :: arith and template search :: "jsnum list" and w h :: int
  defines "r \<equiv> phaseCorrelate A template search w h"
  shows "((\<exists>ox oy. \<bar>ox\<bar> \<le> 16 \<and> \<bar>oy\<bar> \<le> 16
                   \<and> js_gt (pc_score A template search w h ox oy) (Num (- 1))) \<longrightarrow>
            \<bar>pc_x r\<bar> \<le> 16 \<and> \<bar>pc_y r\<bar> \<le> 16
          \<and> pc_score A template search w h (pc_x r) (- pc_y r) = pc_correlation r
          \<and> (\<forall>ox oy. \<bar>ox\<bar> \<le> 16 \<and> \<bar>oy\<bar> \<le> 16 \<and> pc_score A template search w h ox oy \<noteq> NaN \<longrightarrow>
               js_le (pc_score A template search w h ox oy) (pc_correlation r)
               \<and> (pc_score A template search w h ox oy = pc_correlation r \<longrightarrow>
                    - pc_y r < oy \<or> (- pc_y r = oy \<and> pc_x r \<le> ox))))
       \<and> (\<not> (\<exists>ox oy. \<bar>ox\<bar> \<le> 16 \<and> \<bar>oy\<bar> \<le> 16
                   \<and> js_gt (pc_score A template search w h ox oy) (Num (- 1))) \<longrightarrow>
            r = \<lparr>pc_x = 0, pc_y = 0, pc_correlation = Num (- 1)\<rparr>)"
proof -
  let ?sc = "\<lambda>(oy, ox). pc_score A template search w h ox oy"
  let ?some = "\<exists>ox oy. \<bar>ox\<bar> \<le> 16 \<and> \<bar>oy\<bar> \<le> 16
                   \<and> js_gt (pc_score A template search w h ox oy) (Num (- 1))"
  obtain m cx cy where scan: "pc_scan A template search w h = (m, cx, cy)"
    by (cases "pc_scan A template search w h") auto
  then have r: "r = \<lparr>pc_x = cx, pc_y = - cy, pc_correlation = m\<rparr>"
    by (simp add: r_def phaseCorrelate_def)
  have m0: "Num (- 1) \<noteq> NaN" by simp
  from scan have res: "foldl (\<lambda>st (oy, ox). if js_gt (?sc (oy, ox)) (fst st) then (?sc (oy, ox), ox, oy) else st)
                (Num (- 1), 0, 0) (search_offsets pc_searchRange) = (m, cx, cy)"
    by (simp add: pc_scan_fold cong: if_cong)
  note alt = scan_first_max [OF sorted_wrt_search_offsets m0 res]
  have beats: "?some = (\<exists>p \<in> set (search_offsets pc_searchRange). js_gt (?sc p) (Num (- 1)))"
  proof
    assume ?some
    then obtain ox oy where "\<bar>ox\<bar> \<le> 16" "\<bar>oy\<bar> \<le> 16"
      "js_gt (pc_score A template search w h ox oy) (Num (- 1))" by blast
    then have "(oy, ox) \<in> set (search_offsets pc_searchRange) \<and> js_gt (?sc (oy, ox)) (Num (- 1))"
      by (simp add: set_search_offsets pc_searchRange_def)
    then show "\<exists>p \<in> set (search_offsets pc_searchRange). js_gt (?sc p) (Num (- 1))" by blast
  next
    assume "\<exists>p \<in> set (search_offsets pc_searchRange). js_gt (?sc p) (Num (- 1))"
    then obtain oy ox where "(oy, ox) \<in> set (search_offsets pc_searchRange)"
      and "js_gt (?sc (oy, ox)) (Num (- 1))" by auto
    then have "\<bar>ox\<bar> \<le> 16 \<and> \<bar>oy\<bar> \<le> 16
        \<and> js_gt (pc_score A template search w h ox oy) (Num (- 1))"
      by (simp add: set_search_offsets pc_searchRange_def)
    then show ?some by blast
  qed
  show ?thesis
  proof (intro conjI impI)
    assume some: ?some
    with alt beats have best: "scan_best ?sc scan_before (search_offsets pc_searchRange) m (cy, cx)"
      by blast
    from best have mem: "(cy, cx) \<in> set (search_offsets pc_searchRange)" and at: "?sc (cy, cx) = m"
      and all: "\<forall>p \<in> set (search_offsets pc_searchRange). ?sc p \<noteq> NaN \<longrightarrow>
                  js_le (?sc p) m \<and> (?sc p = m \<longrightarrow> p = (cy, cx) \<or> scan_before (cy, cx) p)"
      unfolding scan_best_def by blast+
    from mem have range: "\<bar>cx\<bar> \<le> 16 \<and> \<bar>cy\<bar> \<le> 16"
      by (simp add: set_search_offsets pc_searchRange_def)
    then show "\<bar>pc_x r\<bar> \<le> 16" "\<bar>pc_y r\<bar> \<le> 16" by (simp_all add: r)
    from at show "pc_score A template search w h (pc_x r) (- pc_y r) = pc_correlation r"
      by (simp add: r)
    show "\<forall>ox oy. \<bar>ox\<bar> \<le> 16 \<and> \<bar>oy\<bar> \<le> 16 \<and> pc_score A template search w h ox oy \<noteq> NaN \<longrightarrow>
               js_le (pc_score A template search w h ox oy) (pc_correlation r)
               \<and> (pc_score A template search w h ox oy = pc_correlation r \<longrightarrow>
                    - pc_y r < oy \<or> (- pc_y r = oy \<and> pc_x r \<le> ox))"
    proof (intro allI impI)
      fix ox oy
      assume a: "\<bar>ox\<bar> \<le> 16 \<and> \<bar>oy\<bar> \<le> 16 \<and> pc_score A template search w h ox oy \<noteq> NaN"
      then have "(oy, ox) \<in> set (search_offsets pc_searchRange)"
        by (simp add: set_search_offsets pc_searchRange_def)
      with all a
      have "js_le (?sc (oy, ox)) m
          \<and> (?sc (oy, ox) = m \<longrightarrow> (oy, ox) = (cy, cx) \<or> scan_before (cy, cx) (oy, ox))"
        by fastforce
      then show "js_le (pc_score A template search w h ox oy) (pc_correlation r)
               \<and> (pc_score A template search w h ox oy = pc_correlation r \<longrightarrow>
                    - pc_y r < oy \<or> (- pc_y r = oy \<and> pc_x r \<le> ox))"
        by (auto simp: r scan_before_def)
    qed
  next
    assume none: "\<not> ?some"
    with beats have "\<forall>p \<in> set (search_offsets pc_searchRange). \<not> js_gt (?sc p) (Num (- 1))" by blast
    with alt have "m = Num (- 1) \<and> cx = 0 \<and> cy = 0"
      unfolding scan_best_def by (auto simp: js_gt_irrefl)
    then show "r = \<lparr>pc_x = 0, pc_y = 0, pc_correlation = Num (- 1)\<rparr>" by (simp add: r)
  qed
qed

lemma pc_result_range:
  "\<bar>pc_x (phaseCorrelate A template search w h)\<bar> \<le> 16
   \<and> \<bar>pc_y (phaseCorrelate A template search w h)\<bar> \<le> 16"
proof (cases "\<exists>ox oy. \<bar>ox\<bar> \<le> 16 \<and> \<bar>oy\<bar> \<le> 16
                   \<and> js_gt (pc_score A template search w h ox oy) (Num (- 1))")
  case True
  with pc_scan_result [of A template search w h, THEN conjunct1] show ?thesis by blast
next
  case False
  with pc_scan_result [of A template search w h, THEN conjunct2]
  have "phaseCorrelate A template search w h = \<lparr>pc_x = 0, pc_y = 0, pc_correlation = Num (- 1)\<rparr>"
    by blast
  then show ?thesis by simp
qed

lemma ncc_scan_state:
  assumes "templateStd A template \<noteq> Num 0"
  shows "offset_scan A (templateNorm A template) search (templateMean A template)
             (templateStd A template) W sr
           = (ncc_correlation (normalizedCrossCorrelation A template search W sr),
              ncc_dx (normalizedCrossCorrelation A template search W sr),
              ncc_dy (normalizedCrossCorrelation A template search W sr))"
  using assms
  by (cases "offset_scan A (templateNorm A template) search (templateMean A template)
             (templateStd A template) W sr")
     (simp add: normalizedCrossCorrelation_def)

text \<open>
  C10, as the code has it. Under either arithmetic and on every input \<^verbatim>\<open>phaseCorrelate\<close>
  returns \<open>x = bestX\<close> and \<open>y = -bestY\<close>, where \<open>(maxCorr, bestX, bestY)\<close> is what its scan
  leaves. The score of an offset is the sum of the products over the overlapping pixels
  divided by their number, not the sum. When some offset of the range scores above the
  initial \<open>-1\<close>, \<open>(bestX, bestY)\<close> is the first visited of the offsets with the greatest
  score; when none does, the function returns \<open>(0, 0)\<close> with correlation \<open>-1\<close>.
  \<^verbatim>\<open>normalizedCrossCorrelation\<close> returns the vertical offset its scan leaves as it is: the
  two strategies report the vertical component with opposite signs.
\<close>

theorem phase_correlate_vertical_sign:
  fixes A :: arith and template search t' s' :: "jsnum list" and w h W sr :: int
  defines "r \<equiv> phaseCorrelate A template search w h"
    and "r' \<equiv> normalizedCrossCorrelation A t' s' W sr"
  shows "pc_scan A template search w h = (pc_correlation r, pc_x r, - pc_y r)
       \<and> ((\<exists>ox oy. \<bar>ox\<bar> \<le> 16 \<and> \<bar>oy\<bar> \<le> 16
                   \<and> js_gt (pc_score A template search w h ox oy) (Num (- 1))) \<longrightarrow>
            \<bar>pc_x r\<bar> \<le> 16 \<and> \<bar>pc_y r\<bar> \<le> 16
          \<and> pc_score A template search w h (pc_x r) (- pc_y r) = pc_correlation r
          \<and> (\<forall>ox oy. \<bar>ox\<bar> \<le> 16 \<and> \<bar>oy\<bar> \<le> 16 \<and> pc_score A template search w h ox oy \<noteq> NaN \<longrightarrow>
               js_le (pc_score A template search w h ox oy) (pc_correlation r)
               \<and> (pc_score A template search w h ox oy = pc_correlation r \<longrightarrow>
                    - pc_y r < oy \<or> (- pc_y r = oy \<and> pc_x r \<le> ox))))
       \<and> (\<not> (\<exists>ox oy. \<bar>ox\<bar> \<le> 16 \<and> \<bar>oy\<bar> \<le> 16
                   \<and> js_gt (pc_score A template search w h ox oy) (Num (- 1))) \<longrightarrow>
            r = \<lparr>pc_x = 0, pc_y = 0, pc_correlation = Num (- 1)\<rparr>)
       \<and> (templateStd A t' \<noteq> Num 0 \<longrightarrow>
            offset_scan A (templateNorm A t') s' (templateMean A t') (templateStd A t') W sr
              = (ncc_correlation r', ncc_dx r', ncc_dy r'))"
  unfolding r_def r'_def
  using pc_scan_state [of A template search w h] pc_scan_result [of A template search w h]
    ncc_scan_state [of A t' s' W sr]
  by blast

text \<open>
  Three pairs of columns of two pixels (width 1, height 2), under either arithmetic: the
  scores of all offsets, and the sums before the division.
\<close>

lemma column_scores:
  "pc_score A [Num 1, Num 2] [Num 2, Num 1] 1 2 ox oy
     = (if ox = 0 \<and> oy = - 1 then Num 4 else if ox = 0 \<and> oy = 0 then Num 2
        else if ox = 0 \<and> oy = 1 then Num 1 else NaN)"
  by (auto simp: pc_score_def pc_sum_def pc_pixel_def rd_def upto.simps Let_def num_of_int_def
      fl_small)

lemma flat_search_scores:
  "pc_score A [Num 1, Num 2] [Num 2, Num 2] 1 2 ox oy
     = (if ox = 0 \<and> oy = - 1 then Num 4 else if ox = 0 \<and> oy = 0 then Num 3
        else if ox = 0 \<and> oy = 1 then Num 2 else NaN)"
  by (auto simp: pc_score_def pc_sum_def pc_pixel_def rd_def upto.simps Let_def num_of_int_def
      fl_small)

lemma flat_search_totals:
  "pc_total A [Num 1, Num 2] [Num 2, Num 2] 1 2 ox oy
     = (if ox = 0 \<and> oy = - 1 then Num 4 else if ox = 0 \<and> oy = 0 then Num 6
        else if ox = 0 \<and> oy = 1 then Num 2 else Num 0)"
  by (auto simp: pc_total_def pc_sum_def pc_pixel_def rd_def upto.simps Let_def fl_small)

lemma negative_search_scores:
  "pc_score A [Num 1, Num 2] [Num (- 2), Num (- 1)] 1 2 ox oy
     = (if ox = 0 \<and> oy = - 1 then Num (- 4) else if ox = 0 \<and> oy = 0 then Num (- 2)
        else if ox = 0 \<and> oy = 1 then Num (- 1) else NaN)"
  by (auto simp: pc_score_def pc_sum_def pc_pixel_def rd_def upto.simps Let_def num_of_int_def
      fl_small)

text \<open>The offset that wins when the only scores are those of one column of offsets.\<close>

lemma column_winner:
  assumes sc: "\<And>ox oy. pc_score A template search w h ox oy
                 = (if ox = 0 \<and> oy = - 1 then Num a else if ox = 0 \<and> oy = 0 then Num b
                    else if ox = 0 \<and> oy = 1 then Num c else NaN)"
    and a: "- 1 < a" "b < a" "c < a"
  shows "phaseCorrelate A template search w h = \<lparr>pc_x = 0, pc_y = 1, pc_correlation = Num a\<rparr>"
proof -
  let ?r = "phaseCorrelate A template search w h"
  have some: "\<exists>ox oy. \<bar>ox\<bar> \<le> (16::int) \<and> \<bar>oy\<bar> \<le> (16::int)
                   \<and> js_gt (pc_score A template search w h ox oy) (Num (- 1))"
    by (rule exI [of _ 0], rule exI [of _ "- 1"]) (simp add: sc a)
  note th = pc_scan_result [of A template search w h, THEN conjunct1, rule_format, OF some]
  from th have at: "pc_score A template search w h (pc_x ?r) (- pc_y ?r) = pc_correlation ?r"
    by blast
  from th have "\<bar>0::int\<bar> \<le> 16 \<and> \<bar>- 1::int\<bar> \<le> 16 \<and> pc_score A template search w h 0 (- 1) \<noteq> NaN
      \<longrightarrow> js_le (pc_score A template search w h 0 (- 1)) (pc_correlation ?r)"
    by blast
  then have le: "js_le (Num a) (pc_correlation ?r)" by (simp add: sc)
  from at le have "js_le (Num a) (pc_score A template search w h (pc_x ?r) (- pc_y ?r))"
    by simp
  then have best: "pc_x ?r = 0 \<and> - pc_y ?r = - 1"
    unfolding sc using a by (auto simp: js_le_def split: if_splits)
  with at have "pc_correlation ?r = Num a" by (simp add: sc)
  with best show ?thesis by (cases ?r) simp
qed

theorem phase_correlate_vertical_sign_witness:
  "\<bar>0::int\<bar> \<le> 16 \<and> \<bar>- 1::int\<bar> \<le> 16
   \<and> js_gt (pc_score Double [Num 1, Num 2] [Num 2, Num 1] 1 2 0 (- 1)) (Num (- 1))
   \<and> templateStd Double [Num 0, Num 2, Num 0, Num 2] \<noteq> Num 0
   \<and> phaseCorrelate Double [Num 1, Num 2] [Num 2, Num 1] 1 2
       = \<lparr>pc_x = 0, pc_y = 1, pc_correlation = Num 4\<rparr>
   \<and> pc_score Double [Num 1, Num 2] [Num 2, Num 1] 1 2 0 (- 1) = Num 4
   \<and> pc_scan Double [Num 1, Num 2] [Num 2, Num 1] 1 2 = (Num 4, 0, - 1)
   \<and> offset_scan Double (templateNorm Double [Num 0, Num 2, Num 0, Num 2]) [Num 1, Num 1, Num 1, Num 1]
         (templateMean Double [Num 0, Num 2, Num 0, Num 2])
         (templateStd Double [Num 0, Num 2, Num 0, Num 2]) 2 1 = (Num 0, - 1, - 1)"
proof -
  let ?T = "[Num 1, Num 2]" and ?S = "[Num 2, Num 1]"
  let ?r = "phaseCorrelate Double ?T ?S 1 2"
  have sc: "pc_score Double ?T ?S 1 2 0 (- 1) = Num 4"
    using column_scores [of Double 0 "- 1"] by simp
  have g: "js_gt (pc_score Double ?T ?S 1 2 0 (- 1)) (Num (- 1))" by (simp add: sc)
  have some: "\<exists>ox oy. \<bar>ox\<bar> \<le> (16::int) \<and> \<bar>oy\<bar> \<le> (16::int)
                   \<and> js_gt (pc_score Double ?T ?S 1 2 ox oy) (Num (- 1))"
    by (rule exI [of _ 0], rule exI [of _ "- 1"]) (simp add: sc)
  have std: "templateStd Double [Num 0, Num 2, Num 0, Num 2] \<noteq> Num 0" by (simp add: tie_template)
  note th = phase_correlate_vertical_sign [where A = Double and template = ?T and search = ?S
      and w = 1 and h = 2 and t' = "[Num 0, Num 2, Num 0, Num 2]"
      and s' = "[Num 1, Num 1, Num 1, Num 1]" and W = 2 and sr = 1]
  from th have state: "pc_scan Double ?T ?S 1 2 = (pc_correlation ?r, pc_x ?r, - pc_y ?r)"
    by blast
  from th some have at: "pc_score Double ?T ?S 1 2 (pc_x ?r) (- pc_y ?r) = pc_correlation ?r"
    by blast
  from th some have "\<bar>0::int\<bar> \<le> 16 \<and> \<bar>- 1::int\<bar> \<le> 16 \<and> pc_score Double ?T ?S 1 2 0 (- 1) \<noteq> NaN
      \<longrightarrow> js_le (pc_score Double ?T ?S 1 2 0 (- 1)) (pc_correlation ?r)"
    by blast
  then have le: "js_le (Num 4) (pc_correlation ?r)" by (simp add: sc)
  from at le have "js_le (Num 4) (pc_score Double ?T ?S 1 2 (pc_x ?r) (- pc_y ?r))"
    by simp
  then have best: "pc_x ?r = 0 \<and> - pc_y ?r = - 1"
    unfolding column_scores by (auto simp: js_le_def split: if_splits)
  with at have c: "pc_correlation ?r = Num 4" using sc by simp
  with best have r: "?r = \<lparr>pc_x = 0, pc_y = 1, pc_correlation = Num 4\<rparr>"
    by (cases ?r) simp
  from state have scan: "pc_scan Double ?T ?S 1 2 = (Num 4, 0, - 1)" unfolding r by simp
  from th std have "offset_scan Double (templateNorm Double [Num 0, Num 2, Num 0, Num 2])
         [Num 1, Num 1, Num 1, Num 1] (templateMean Double [Num 0, Num 2, Num 0, Num 2])
         (templateStd Double [Num 0, Num 2, Num 0, Num 2]) 2 1
      = (ncc_correlation (normalizedCrossCorrelation Double [Num 0, Num 2, Num 0, Num 2] [Num 1, Num 1, Num 1, Num 1] 2 1),
         ncc_dx (normalizedCrossCorrelation Double [Num 0, Num 2, Num 0, Num 2] [Num 1, Num 1, Num 1, Num 1] 2 1),
         ncc_dy (normalizedCrossCorrelation Double [Num 0, Num 2, Num 0, Num 2] [Num 1, Num 1, Num 1, Num 1] 2 1))"
    by blast
  then have ncc: "offset_scan Double (templateNorm Double [Num 0, Num 2, Num 0, Num 2])
         [Num 1, Num 1, Num 1, Num 1] (templateMean Double [Num 0, Num 2, Num 0, Num 2])
         (templateStd Double [Num 0, Num 2, Num 0, Num 2]) 2 1 = (Num 0, - 1, - 1)"
    unfolding tie_result by simp
  from g std r sc scan ncc show ?thesis by simp
qed

text \<open>
  C10 as stated fails on the code, in two ways. What is maximal at the returned offset
  is the mean of the products, not their sum: for the template column \<open>[1, 2]\<close> and the
  search column \<open>[2, 2]\<close> the sum is greatest at the vertical offset \<open>0\<close> (\<open>6\<close> against \<open>4\<close>
  and \<open>2\<close>), and the function returns \<open>y = 1\<close>, the negation of the offset \<open>-1\<close> with the
  greatest mean. And not for every pair of patches: for the search column \<open>[-2, -1]\<close> no
  score exceeds the initial \<open>-1\<close>; the greatest score, \<open>-1\<close>, is at the vertical offset
  \<open>1\<close>, and the function returns \<open>y = 0\<close>.
\<close>

theorem correlation_sum_counterexample:
  "phaseCorrelate Double [Num 1, Num 2] [Num 2, Num 2] 1 2
     = \<lparr>pc_x = 0, pc_y = 1, pc_correlation = Num 4\<rparr>
   \<and> pc_total Double [Num 1, Num 2] [Num 2, Num 2] 1 2 0 0 = Num 6
   \<and> pc_total Double [Num 1, Num 2] [Num 2, Num 2] 1 2 0 (- 1) = Num 4
   \<and> pc_total Double [Num 1, Num 2] [Num 2, Num 2] 1 2 0 1 = Num 2
   \<and> phaseCorrelate Double [Num 1, Num 2] [Num (- 2), Num (- 1)] 1 2
     = \<lparr>pc_x = 0, pc_y = 0, pc_correlation = Num (- 1)\<rparr>
   \<and> pc_score Double [Num 1, Num 2] [Num (- 2), Num (- 1)] 1 2 0 1 = Num (- 1)
   \<and> pc_score Double [Num 1, Num 2] [Num (- 2), Num (- 1)] 1 2 0 0 = Num (- 2)
   \<and> pc_score Double [Num 1, Num 2] [Num (- 2), Num (- 1)] 1 2 0 (- 1) = Num (- 4)"
proof -
  have a: "phaseCorrelate Double [Num 1, Num 2] [Num 2, Num 2] 1 2
     = \<lparr>pc_x = 0, pc_y = 1, pc_correlation = Num 4\<rparr>"
    by (rule column_winner [where b = 3 and c = 2]) (simp_all add: flat_search_scores)
  have none: "\<not> (\<exists>ox oy. \<bar>ox\<bar> \<le> (16::int) \<and> \<bar>oy\<bar> \<le> (16::int)
      \<and> js_gt (pc_score Double [Num 1, Num 2] [Num (- 2), Num (- 1)] 1 2 ox oy) (Num (- 1)))"
    by (simp add: negative_search_scores)
  with pc_scan_result [of Double "[Num 1, Num 2]" "[Num (- 2), Num (- 1)]" 1 2, THEN conjunct2]
  have b: "phaseCorrelate Double [Num 1, Num 2] [Num (- 2), Num (- 1)] 1 2
     = \<lparr>pc_x = 0, pc_y = 0, pc_correlation = Num (- 1)\<rparr>"
    by blast
  from a b show ?thesis
    by (simp add: flat_search_totals negative_search_scores)
qed

section \<open>Statistics and calibration\<close>

lemma js_max2_Num: "js_max2 (Num a) (Num b) = Num (max a b)"
  by (simp add: js_max2_def max_def)

lemma foldl_js_max2_Num: "foldl js_max2 (Num a) (map Num xs) = Num (fold max xs a)"
  by (induction xs arbitrary: a) (simp_all add: js_max2_Num max.commute)

lemma js_max_Num: "xs \<noteq> [] \<Longrightarrow> js_max (map Num xs) = Num (Max (set xs))"
proof (cases xs)
  case Nil
  then show "xs \<noteq> [] \<Longrightarrow> ?thesis" by simp
next
  case (Cons x xs')
  have "js_max2 NInf (Num x) = Num x" by (simp add: js_max2_def)
  moreover have "Max (set (x # xs')) = fold max xs' x" by (rule Max.set_eq_fold)
  ultimately show ?thesis
    by (simp add: Cons js_max_def foldl_js_max2_Num)
qed

lemma js_magnitude_Exact: "js_magnitude Exact v = Num (magnitude v)"
proof -
  have "0 \<le> real_of_int (vec_u v) * real_of_int (vec_u v)
           + real_of_int (vec_v v) * real_of_int (vec_v v)"
    by simp
  then show ?thesis
    by (simp add: js_magnitude_def magnitude_def num_of_int_def not_less)
qed

lemma calculateStatistics_velocities:
  assumes "vectors \<noteq> []"
  shows "st_maxVelocity (calculateStatistics Exact vectors cal) = Num (Max (set (map magnitude vectors)))"
    and "st_avgVelocity (calculateStatistics Exact vectors cal)
           = Num (sum_list (map magnitude vectors) / real (length vectors))"
proof -
  have m: "map (js_magnitude Exact) vectors = map Num (map magnitude vectors)"
    by (simp add: js_magnitude_Exact)
  have mx: "js_max (map (js_magnitude Exact) vectors) = Num (Max (set (map magnitude vectors)))"
    unfolding m using assms by (intro js_max_Num) simp
  have av: "js_div Exact (foldl (\<lambda>sum v. js_add Exact sum v) (Num 0) (map (js_magnitude Exact) vectors))
                   (Num (real (length (map (js_magnitude Exact) vectors))))
              = Num (sum_list (map magnitude vectors) / real (length vectors))"
    unfolding m foldl_js_add_Num using assms by simp
  show "st_maxVelocity (calculateStatistics Exact vectors cal) = Num (Max (set (map magnitude vectors)))"
    using assms mx by (simp add: calculateStatistics_def Let_def split: option.split)
  show "st_avgVelocity (calculateStatistics Exact vectors cal)
           = Num (sum_list (map magnitude vectors) / real (length vectors))"
    using assms av by (simp add: calculateStatistics_def Let_def split: option.split)
qed

lemma calculateStatistics_calibrated:
  assumes "vectors \<noteq> []" and "c \<noteq> 0"
  shows "st_pixelsPerMM (calculateStatistics A vectors (Some c)) = Some c"
    and "st_maxVelocityMM (calculateStatistics A vectors (Some c))
           = Some (js_div A (st_maxVelocity (calculateStatistics A vectors (Some c))) (Num c))"
    and "st_avgVelocityMM (calculateStatistics A vectors (Some c))
           = Some (js_div A (st_avgVelocity (calculateStatistics A vectors (Some c))) (Num c))"
  using assms by (simp_all add: calculateStatistics_def Let_def)

text \<open>
  C9, as the code has it. For a field that is not empty and a calibration \<open>c\<close> that is
  not zero, \<^verbatim>\<open>calculateStatistics\<close> reports, under either arithmetic, its two velocity
  figures divided by \<open>c\<close>; over the reals the two figures are the largest magnitude and
  the mean magnitude. Without a calibration it reports no calibrated figure, and for an
  empty field it reports none whatever the calibration is. \<^verbatim>\<open>processImagePair\<close> always
  reports calibrated figures: its figures divided by \<open>c\<close>, and divided by \<open>1\<close> when no
  calibration is given.
\<close>

theorem calibration_divides:
  assumes "vectors \<noteq> []" and "c \<noteq> 0"
  shows "st_pixelsPerMM (calculateStatistics A vectors (Some c)) = Some c
       \<and> st_maxVelocityMM (calculateStatistics A vectors (Some c))
           = Some (js_div A (st_maxVelocity (calculateStatistics A vectors (Some c))) (Num c))
       \<and> st_avgVelocityMM (calculateStatistics A vectors (Some c))
           = Some (js_div A (st_avgVelocity (calculateStatistics A vectors (Some c))) (Num c))
       \<and> st_maxVelocity (calculateStatistics Exact vectors (Some c)) = Num (Max (set (map magnitude vectors)))
       \<and> st_maxVelocityMM (calculateStatistics Exact vectors (Some c))
           = Some (Num (Max (set (map magnitude vectors)) / c))
       \<and> st_avgVelocity (calculateStatistics Exact vectors (Some c))
           = Num (sum_list (map magnitude vectors) / real (length vectors))
       \<and> st_avgVelocityMM (calculateStatistics Exact vectors (Some c))
           = Some (Num (sum_list (map magnitude vectors) / real (length vectors) / c))
       \<and> st_pixelsPerMM (calculateStatistics A fld None) = None
       \<and> st_maxVelocityMM (calculateStatistics A fld None) = None
       \<and> st_avgVelocityMM (calculateStatistics A fld None) = None
       \<and> st_maxVelocityMM (calculateStatistics A [] cal) = None
       \<and> st_avgVelocityMM (calculateStatistics A [] cal) = None
       \<and> ps_pixelsPerMM (pr_statistics (processVectors A ox oy vx vy (Some c))) = c
       \<and> ps_maxVelocityMM (pr_statistics (processVectors A ox oy vx vy (Some c)))
           = js_div A (ps_maxVelocity (pr_statistics (processVectors A ox oy vx vy (Some c)))) (Num c)
       \<and> ps_avgVelocityMM (pr_statistics (processVectors A ox oy vx vy (Some c)))
           = js_div A (ps_avgVelocity (pr_statistics (processVectors A ox oy vx vy (Some c)))) (Num c)
       \<and> ps_pixelsPerMM (pr_statistics (processVectors A ox oy vx vy None)) = 1
       \<and> ps_maxVelocityMM (pr_statistics (processVectors A ox oy vx vy None))
           = js_div A (ps_maxVelocity (pr_statistics (processVectors A ox oy vx vy None))) (Num 1)
       \<and> ps_avgVelocityMM (pr_statistics (processVectors A ox oy vx vy None))
           = js_div A (ps_avgVelocity (pr_statistics (processVectors A ox oy vx vy None))) (Num 1)"
proof -
  note cal = calculateStatistics_calibrated [OF assms, of A]
  note cs = calculateStatistics_calibrated [OF assms, of Exact]
    calculateStatistics_velocities [OF assms(1)]
  have a: "st_maxVelocityMM (calculateStatistics Exact vectors (Some c))
           = Some (Num (Max (set (map magnitude vectors)) / c))"
    unfolding cs using assms(2) by simp
  have b: "st_avgVelocityMM (calculateStatistics Exact vectors (Some c))
           = Some (Num (sum_list (map magnitude vectors) / real (length vectors) / c))"
    unfolding cs using assms(2) by simp
  have n: "st_pixelsPerMM (calculateStatistics A fld None) = None"
     "st_maxVelocityMM (calculateStatistics A fld None) = None"
     "st_avgVelocityMM (calculateStatistics A fld None) = None"
    by (simp_all add: calculateStatistics_def Let_def)
  have e: "st_maxVelocityMM (calculateStatistics A [] cal) = None"
     "st_avgVelocityMM (calculateStatistics A [] cal) = None"
    by (simp_all add: calculateStatistics_def)
  have p: "ps_pixelsPerMM (pr_statistics (processVectors A ox oy vx vy (Some c))) = c"
     "ps_maxVelocityMM (pr_statistics (processVectors A ox oy vx vy (Some c)))
           = js_div A (ps_maxVelocity (pr_statistics (processVectors A ox oy vx vy (Some c)))) (Num c)"
     "ps_avgVelocityMM (pr_statistics (processVectors A ox oy vx vy (Some c)))
           = js_div A (ps_avgVelocity (pr_statistics (processVectors A ox oy vx vy (Some c)))) (Num c)"
    using assms(2) by (simp_all add: processVectors_def Let_def)
  have q: "ps_pixelsPerMM (pr_statistics (processVectors A ox oy vx vy None)) = 1"
     "ps_maxVelocityMM (pr_statistics (processVectors A ox oy vx vy None))
           = js_div A (ps_maxVelocity (pr_statistics (processVectors A ox oy vx vy None))) (Num 1)"
     "ps_avgVelocityMM (pr_statistics (processVectors A ox oy vx vy None))
           = js_div A (ps_avgVelocity (pr_statistics (processVectors A ox oy vx vy None))) (Num 1)"
    by (simp_all add: processVectors_def Let_def)
  from cal cs(4,5) a b n e p q show ?thesis by (intro conjI)
qed

lemma sqrt_25: "sqrt 25 = 5"
  by (rule real_sqrt_unique) simp_all

lemma two_vector_statistics:
  "st_maxVelocity (calculateStatistics A
       [unit_vector 32, \<lparr>vec_x = 64, vec_y = 32, vec_u = 3, vec_v = 4, vec_correlation = Num 1\<rparr>]
       (Some 2)) = Num 5"
  "st_avgVelocity (calculateStatistics A
       [unit_vector 32, \<lparr>vec_x = 64, vec_y = 32, vec_u = 3, vec_v = 4, vec_correlation = Num 1\<rparr>]
       (Some 2)) = Num 3"
  by (simp_all add: calculateStatistics_def Let_def js_magnitude_def unit_vector_def num_of_int_def
      js_max_def js_max2_def fl_small sqrt_25)

theorem calibration_divides_witness:
  "[unit_vector 32, \<lparr>vec_x = 64, vec_y = 32, vec_u = 3, vec_v = 4, vec_correlation = Num 1\<rparr>] \<noteq> []
   \<and> (2::real) \<noteq> 0
   \<and> st_maxVelocity (calculateStatistics Double
         [unit_vector 32, \<lparr>vec_x = 64, vec_y = 32, vec_u = 3, vec_v = 4, vec_correlation = Num 1\<rparr>]
         (Some 2)) = Num 5
   \<and> st_maxVelocityMM (calculateStatistics Double
         [unit_vector 32, \<lparr>vec_x = 64, vec_y = 32, vec_u = 3, vec_v = 4, vec_correlation = Num 1\<rparr>]
         (Some 2)) = Some (Num (5 / 2))
   \<and> st_avgVelocityMM (calculateStatistics Double
         [unit_vector 32, \<lparr>vec_x = 64, vec_y = 32, vec_u = 3, vec_v = 4, vec_correlation = Num 1\<rparr>]
         (Some 2)) = Some (Num (3 / 2))
   \<and> st_maxVelocityMM (calculateStatistics Exact
         [unit_vector 32, \<lparr>vec_x = 64, vec_y = 32, vec_u = 3, vec_v = 4, vec_correlation = Num 1\<rparr>]
         (Some 2)) = Some (Num (5 / 2))
   \<and> st_avgVelocityMM (calculateStatistics Exact
         [unit_vector 32, \<lparr>vec_x = 64, vec_y = 32, vec_u = 3, vec_v = 4, vec_correlation = Num 1\<rparr>]
         (Some 2)) = Some (Num (3 / 2))"
proof -
  let ?vs = "[unit_vector 32, \<lparr>vec_x = 64, vec_y = 32, vec_u = 3, vec_v = 4, vec_correlation = Num 1\<rparr>]"
  have h1: "?vs \<noteq> []" by simp
  have h2: "(2::real) \<noteq> 0" by simp
  have m: "map magnitude ?vs = [1, 5]"
    by (simp add: magnitude_def unit_vector_def sqrt_25)
  note th = calibration_divides [OF h1 h2, where A = Double]
  from th have d: "st_maxVelocityMM (calculateStatistics Double ?vs (Some 2)) = Some (Num (5 / 2))"
      "st_avgVelocityMM (calculateStatistics Double ?vs (Some 2)) = Some (Num (3 / 2))"
    by (simp_all add: two_vector_statistics fl_small)
  from th have e: "st_maxVelocityMM (calculateStatistics Exact ?vs (Some 2)) = Some (Num (5 / 2))"
      "st_avgVelocityMM (calculateStatistics Exact ?vs (Some 2)) = Some (Num (3 / 2))"
    unfolding m by simp_all
  from h1 h2 two_vector_statistics(1) [of Double] d e show ?thesis by (intro conjI)
qed

text \<open>
  C9 as stated fails on the code: for the empty field and the calibration \<open>2\<close> the
  statistics carry \<^verbatim>\<open>maxVelocity = 0\<close> and no calibrated figure at all; and
  \<^verbatim>\<open>processImagePair\<close> without a calibration reports the factor \<open>1\<close>.
\<close>

theorem calibration_counterexample:
  "st_maxVelocity (calculateStatistics Double [] (Some 2)) = Num 0
   \<and> st_maxVelocityMM (calculateStatistics Double [] (Some 2)) = None
   \<and> st_avgVelocityMM (calculateStatistics Double [] (Some 2)) = None
   \<and> ps_pixelsPerMM (pr_statistics (processVectors Double [] [] [] [] None)) = 1"
  by (simp add: calculateStatistics_def processVectors_def Let_def)

section \<open>Statistics over no valid vector\<close>

lemma no_window_statistics:
  "pr_statistics (processVectors A [] [] [] [] None) =
     \<lparr>ps_totalVectors = 0, ps_validVectors = 0, ps_meanX = NaN, ps_meanY = NaN,
      ps_stdX = NaN, ps_stdY = NaN, ps_maxVelocity = NInf, ps_avgVelocity = NaN,
      ps_pixelsPerMM = 1, ps_maxVelocityMM = NInf, ps_avgVelocityMM = NaN\<rparr>"
  by (simp add: processVectors_def array_mean_def array_std_def mark_outliers_def
      local_median_def js_max_def js_inf_def)

text \<open>
  One window, whose displacement components are numbers (integers below \<open>2\<close> to the
  power \<open>53\<close>, or any integers over the reals): the mean is the component, the standard
  deviation is zero, the test \<open>0 < 3 * 0\<close> fails and the vector is marked.
\<close>

lemma single_array:
  assumes "fl A (real_of_int k) = Num (real_of_int k)"
  shows "array_mean A [num_of_int k] = num_of_int k"
    and "array_std A [num_of_int k] (num_of_int k) = Num 0"
    and "mark_outliers A [num_of_int k] = [NaN]"
proof -
  show m: "array_mean A [num_of_int k] = num_of_int k"
    by (simp add: array_mean_def num_of_int_def assms)
  show s: "array_std A [num_of_int k] (num_of_int k) = Num 0"
    by (simp add: array_std_def num_of_int_def js_sub_def js_pow2_def)
  show "mark_outliers A [num_of_int k] = [NaN]"
    unfolding mark_outliers_def m s
    by (simp add: num_of_int_def js_sub_def PIV_PARAMS_def)
qed

lemma one_window_statistics:
  assumes "fl A (real_of_int u0) = Num (real_of_int u0)"
    and "fl A (real_of_int v0) = Num (real_of_int v0)"
  shows "pr_statistics (processVectors A [x0] [y0] [u0] [v0] None) =
     \<lparr>ps_totalVectors = 1, ps_validVectors = 0, ps_meanX = num_of_int u0, ps_meanY = num_of_int v0,
      ps_stdX = Num 0, ps_stdY = Num 0, ps_maxVelocity = NInf, ps_avgVelocity = NaN,
      ps_pixelsPerMM = 1, ps_maxVelocityMM = NInf, ps_avgVelocityMM = NaN\<rparr>"
proof -
  have lm: "local_median [x0] [y0] ([NaN], [NaN]) = ([NaN], [NaN])"
    by (simp add: local_median_def median_step_def neighbors_def isNaN_def)
  show ?thesis
    by (simp add: processVectors_def Let_def single_array [OF assms(1)] single_array [OF assms(2)]
        lm isNaN_def js_max_def js_inf_def)
qed

lemma displacement_is_number:
  "\<bar>k\<bar> \<le> 16 \<Longrightarrow> fl A (real_of_int k) = Num (real_of_int k)"
  by (rule fl_int) simp

text \<open>
  C6. \<^verbatim>\<open>calculateStatistics\<close> returns the all-zero block for an empty field.
  \<^verbatim>\<open>processImagePair\<close> has no such guard: with no window at all its means and standard
  deviations are \<^verbatim>\<open>NaN\<close>, and with a single window the one vector is marked
  (\<open>0 < 3 * 0\<close> is false) and is left without a neighbour; in both cases the set of valid
  vectors is empty, \<^verbatim>\<open>maxVelocity\<close> is \<^verbatim>\<open>-Infinity\<close> and \<^verbatim>\<open>avgVelocity\<close> is \<^verbatim>\<open>NaN\<close>. This
  holds under either arithmetic for no window; for one window, over the reals for any
  displacement, and in binary64 arithmetic for every displacement that \<^verbatim>\<open>phaseCorrelate\<close>
  returns, whatever the two patches of the window are.
\<close>

theorem empty_valid_set_statistics:
  "calculateStatistics A [] cal =
     \<lparr>st_totalVectors = 0, st_validVectors = 0, st_meanU = Num 0, st_meanV = Num 0,
         st_stdU = Num 0, st_stdV = Num 0, st_maxVelocity = Num 0, st_avgVelocity = Num 0,
         st_pixelsPerMM = None, st_maxVelocityMM = None, st_avgVelocityMM = None\<rparr>
   \<and> pr_statistics (processVectors A [] [] [] [] None) =
     \<lparr>ps_totalVectors = 0, ps_validVectors = 0, ps_meanX = NaN, ps_meanY = NaN,
      ps_stdX = NaN, ps_stdY = NaN, ps_maxVelocity = NInf, ps_avgVelocity = NaN,
      ps_pixelsPerMM = 1, ps_maxVelocityMM = NInf, ps_avgVelocityMM = NaN\<rparr>
   \<and> pr_statistics (processVectors Exact [x0] [y0] [u0] [v0] None) =
     \<lparr>ps_totalVectors = 1, ps_validVectors = 0, ps_meanX = num_of_int u0, ps_meanY = num_of_int v0,
      ps_stdX = Num 0, ps_stdY = Num 0, ps_maxVelocity = NInf, ps_avgVelocity = NaN,
      ps_pixelsPerMM = 1, ps_maxVelocityMM = NInf, ps_avgVelocityMM = NaN\<rparr>
   \<and> pr_statistics (processVectors Double [x0] [y0]
         [pc_x (phaseCorrelate Double template search w h)]
         [pc_y (phaseCorrelate Double template search w h)] None) =
     \<lparr>ps_totalVectors = 1, ps_validVectors = 0,
      ps_meanX = num_of_int (pc_x (phaseCorrelate Double template search w h)),
      ps_meanY = num_of_int (pc_y (phaseCorrelate Double template search w h)),
      ps_stdX = Num 0, ps_stdY = Num 0, ps_maxVelocity = NInf, ps_avgVelocity = NaN,
      ps_pixelsPerMM = 1, ps_maxVelocityMM = NInf, ps_avgVelocityMM = NaN\<rparr>"
proof (intro conjI)
  show "calculateStatistics A [] cal =
     \<lparr>st_totalVectors = 0, st_validVectors = 0, st_meanU = Num 0, st_meanV = Num 0,
         st_stdU = Num 0, st_stdV = Num 0, st_maxVelocity = Num 0, st_avgVelocity = Num 0,
         st_pixelsPerMM = None, st_maxVelocityMM = None, st_avgVelocityMM = None\<rparr>"
    by (simp add: calculateStatistics_def)
  show "pr_statistics (processVectors A [] [] [] [] None) =
     \<lparr>ps_totalVectors = 0, ps_validVectors = 0, ps_meanX = NaN, ps_meanY = NaN,
      ps_stdX = NaN, ps_stdY = NaN, ps_maxVelocity = NInf, ps_avgVelocity = NaN,
      ps_pixelsPerMM = 1, ps_maxVelocityMM = NInf, ps_avgVelocityMM = NaN\<rparr>"
    by (rule no_window_statistics)
  show "pr_statistics (processVectors Exact [x0] [y0] [u0] [v0] None) =
     \<lparr>ps_totalVectors = 1, ps_validVectors = 0, ps_meanX = num_of_int u0, ps_meanY = num_of_int v0,
      ps_stdX = Num 0, ps_stdY = Num 0, ps_maxVelocity = NInf, ps_avgVelocity = NaN,
      ps_pixelsPerMM = 1, ps_maxVelocityMM = NInf, ps_avgVelocityMM = NaN\<rparr>"
    by (rule one_window_statistics) simp_all
  from pc_result_range [of Double template search w h]
  show "pr_statistics (processVectors Double [x0] [y0]
         [pc_x (phaseCorrelate Double template search w h)]
         [pc_y (phaseCorrelate Double template search w h)] None) =
     \<lparr>ps_totalVectors = 1, ps_validVectors = 0,
      ps_meanX = num_of_int (pc_x (phaseCorrelate Double template search w h)),
      ps_meanY = num_of_int (pc_y (phaseCorrelate Double template search w h)),
      ps_stdX = Num 0, ps_stdY = Num 0, ps_maxVelocity = NInf, ps_avgVelocity = NaN,
      ps_pixelsPerMM = 1, ps_maxVelocityMM = NInf, ps_avgVelocityMM = NaN\<rparr>"
    by (intro one_window_statistics displacement_is_number) simp_all
qed

section \<open>The local median filter\<close>

subsection \<open>The marked arrays\<close>

lemma length_mark_outliers [simp]: "length (mark_outliers A vs) = length vs"
  by (simp add: mark_outliers_def)

lemma mark_outliers_at:
  "j < length vs \<Longrightarrow>
     mark_outliers A vs ! j
       = (if js_lt (js_abs (js_sub A (vs ! j) (array_mean A vs)))
                   (js_mul A (Num 3) (array_std A vs (array_mean A vs)))
          then vs ! j else NaN)"
  by (simp add: mark_outliers_def PIV_PARAMS_def)

lemma mark_outliers_nth:
  "j < length vs \<Longrightarrow> mark_outliers A vs ! j = vs ! j \<or> mark_outliers A vs ! j = NaN"
  by (simp add: mark_outliers_def)

lemma marked_clean:
  assumes "j < length vx" "j < length vy" "\<not> suspect (marked A vx vy) j"
  shows "fst (marked A vx vy) ! j = num_of_int (vx ! j)" "snd (marked A vx vy) ! j = num_of_int (vy ! j)"
proof -
  from assms(1) mark_outliers_nth [of j "map num_of_int vx" A] assms(3)
  show "fst (marked A vx vy) ! j = num_of_int (vx ! j)"
    by (auto simp: marked_def suspect_def isNaN_def)
  from assms(2) mark_outliers_nth [of j "map num_of_int vy" A] assms(3)
  show "snd (marked A vx vy) ! j = num_of_int (vy ! j)"
    by (auto simp: marked_def suspect_def isNaN_def)
qed

subsection \<open>One turn of the loop\<close>

lemma length_js_insort [simp]: "length (js_insort a xs) = Suc (length xs)"
  by (induction xs) simp_all

lemma length_js_sort [simp]: "length (js_sort xs) = length xs"
  by (induction xs) (simp_all add: js_sort_def)

lemma median_step_length [simp]:
  "length (fst (median_step ox oy fv k)) = length (fst fv)"
  "length (snd (median_step ox oy fv k)) = length (snd fv)"
  by (simp_all add: median_step_def Let_def)

lemma median_step_other:
  "j \<noteq> k \<Longrightarrow> fst (median_step ox oy fv k) ! j = fst fv ! j"
  "j \<noteq> k \<Longrightarrow> snd (median_step ox oy fv k) ! j = snd fv ! j"
  by (simp_all add: median_step_def Let_def)

lemma median_step_clean:
  "\<not> suspect fv k \<Longrightarrow> median_step ox oy fv k = fv"
  by (simp add: median_step_def suspect_def)

lemma median_step_keeps_clean:
  assumes "\<not> suspect fv j"
  shows "fst (median_step ox oy fv k) ! j = fst fv ! j" "snd (median_step ox oy fv k) ! j = snd fv ! j"
  using assms by (cases "j = k"; simp add: median_step_other median_step_clean)+

subsection \<open>The loop\<close>

lemma fold_length [simp]:
  "length (fst (foldl (median_step ox oy) fv ks)) = length (fst fv)"
  "length (snd (foldl (median_step ox oy) fv ks)) = length (snd fv)"
  by (induction ks arbitrary: fv) simp_all

lemma fold_other:
  "j \<notin> set ks \<Longrightarrow> fst (foldl (median_step ox oy) fv ks) ! j = fst fv ! j"
  "j \<notin> set ks \<Longrightarrow> snd (foldl (median_step ox oy) fv ks) ! j = snd fv ! j"
  by (induction ks arbitrary: fv) (simp_all add: median_step_other)

lemma fold_keeps_clean:
  "\<not> suspect fv j \<Longrightarrow> fst (foldl (median_step ox oy) fv ks) ! j = fst fv ! j
                      \<and> snd (foldl (median_step ox oy) fv ks) ! j = snd fv ! j"
proof (induction ks arbitrary: fv)
  case Nil
  then show ?case by simp
next
  case (Cons k ks)
  from median_step_keeps_clean [OF Cons.prems, of ox oy k]
  have same: "fst (median_step ox oy fv k) ! j = fst fv ! j" "snd (median_step ox oy fv k) ! j = snd fv ! j"
    by simp_all
  with Cons.prems have "\<not> suspect (median_step ox oy fv k) j" by (simp add: suspect_def)
  from Cons.IH [OF this] same show ?case by simp
qed

lemma upt_split_at:
  assumes "i < n"
  shows "[0..<n] = [0..<i] @ i # [Suc i..<n]"
proof -
  have "[0..<i + (n - i)] = [0..<i] @ [i..<i + (n - i)]" by (rule upt_add_eq_append) simp
  moreover have "i + (n - i) = n" using assms by simp
  ultimately have "[0..<n] = [0..<i] @ [i..<n]" by simp
  also have "[i..<n] = i # [Suc i..<n]" using assms by (rule upt_conv_Cons)
  finally show ?thesis .
qed

lemma local_median_at:
  assumes "i < length ox"
  shows "fst (local_median ox oy fv) ! i = fst (median_step ox oy (foldl (median_step ox oy) fv [0..<i]) i) ! i"
    and "snd (local_median ox oy fv) ! i = snd (median_step ox oy (foldl (median_step ox oy) fv [0..<i]) i) ! i"
proof -
  from assms have split: "[0..<length ox] = [0..<i] @ i # [Suc i..<length ox]"
    by (rule upt_split_at)
  have notin: "i \<notin> set [Suc i..<length ox]" by simp
  show "fst (local_median ox oy fv) ! i = fst (median_step ox oy (foldl (median_step ox oy) fv [0..<i]) i) ! i"
    unfolding local_median_def split by (simp add: fold_other(1) [OF notin])
  show "snd (local_median ox oy fv) ! i = snd (median_step ox oy (foldl (median_step ox oy) fv [0..<i]) i) ! i"
    unfolding local_median_def split by (simp add: fold_other(2) [OF notin])
qed

subsection \<open>The state when the loop reaches a vector\<close>

text \<open>
  The loop changes the vector \<open>k\<close> in its turn \<open>k\<close> only. So when it reaches the vector
  \<open>i\<close>, the vectors before \<open>i\<close> hold their final values and the others what the marking
  left.
\<close>

lemma local_median_before:
  assumes "j < i" and "i \<le> length ox"
  shows "fst (local_median ox oy fv) ! j = fst (foldl (median_step ox oy) fv [0..<i]) ! j"
    and "snd (local_median ox oy fv) ! j = snd (foldl (median_step ox oy) fv [0..<i]) ! j"
proof -
  have "[0..<i + (length ox - i)] = [0..<i] @ [i..<i + (length ox - i)]"
    by (rule upt_add_eq_append) simp
  moreover have "i + (length ox - i) = length ox" using assms(2) by simp
  ultimately have split: "[0..<length ox] = [0..<i] @ [i..<length ox]" by simp
  have notin: "j \<notin> set [i..<length ox]" using assms(1) by simp
  show "fst (local_median ox oy fv) ! j = fst (foldl (median_step ox oy) fv [0..<i]) ! j"
    unfolding local_median_def split by (simp add: fold_other(1) [OF notin])
  show "snd (local_median ox oy fv) ! j = snd (foldl (median_step ox oy) fv [0..<i]) ! j"
    unfolding local_median_def split by (simp add: fold_other(2) [OF notin])
qed

lemma take_drop_nth:
  assumes "length xs = length ys" and "j < length ys"
  shows "(take i xs @ drop i ys) ! j = (if j < i then xs ! j else ys ! j)"
  using assms by (auto simp: nth_append min_def)

lemma state_when_reached:
  assumes lx: "length (fst fv) = length ox" and ly: "length (snd fv) = length ox"
    and i: "i \<le> length ox"
  shows "foldl (median_step ox oy) fv [0..<i] = state_at fv (local_median ox oy fv) i"
proof -
  let ?st = "foldl (median_step ox oy) fv [0..<i]" and ?out = "local_median ox oy fv"
  have lo: "length (fst ?out) = length ox" "length (snd ?out) = length ox"
    using lx ly by (simp_all add: local_median_def)
  have a: "fst ?st = take i (fst ?out) @ drop i (fst fv)"
  proof (rule nth_equalityI)
    show "length (fst ?st) = length (take i (fst ?out) @ drop i (fst fv))"
      using lx lo i by simp
    fix j assume "j < length (fst ?st)"
    then have j: "j < length (fst fv)" by simp
    show "fst ?st ! j = (take i (fst ?out) @ drop i (fst fv)) ! j"
    proof (cases "j < i")
      case True
      from local_median_before(1) [OF True i, of oy fv] True j lx lo
      show ?thesis by (simp add: take_drop_nth)
    next
      case False
      then have "j \<notin> set [0..<i]" by simp
      from fold_other(1) [OF this, of ox oy fv] False j lx lo
      show ?thesis by (simp add: take_drop_nth)
    qed
  qed
  have b: "snd ?st = take i (snd ?out) @ drop i (snd fv)"
  proof (rule nth_equalityI)
    show "length (snd ?st) = length (take i (snd ?out) @ drop i (snd fv))"
      using ly lo i by simp
    fix j assume "j < length (snd ?st)"
    then have j: "j < length (snd fv)" by simp
    show "snd ?st ! j = (take i (snd ?out) @ drop i (snd fv)) ! j"
    proof (cases "j < i")
      case True
      from local_median_before(2) [OF True i, of oy fv] True j ly lo
      show ?thesis by (simp add: take_drop_nth)
    next
      case False
      then have "j \<notin> set [0..<i]" by simp
      from fold_other(2) [OF this, of ox oy fv] False j ly lo
      show ?thesis by (simp add: take_drop_nth)
    qed
  qed
  from a b show ?thesis by (simp add: state_at_def prod_eq_iff)
qed

lemma state_at_nth:
  assumes "length (fst fv) = n" "length (snd fv) = n" "length (fst out) = n" "length (snd out) = n"
    and "j < n"
  shows "fst (state_at fv out i) ! j = (if j < i then fst out ! j else fst fv ! j)"
    and "snd (state_at fv out i) ! j = (if j < i then snd out ! j else snd fv ! j)"
  using assms by (simp_all add: state_at_def take_drop_nth)

lemma neighbors_eq:
  "neighbors ox oy fv i = filter (\<lambda>j. within_step ox oy i j \<and> \<not> suspect fv j) [0..<length ox]"
  by (simp add: neighbors_def within_step_def suspect_def)

lemma turn_of_vector:
  fixes ox oy :: "int list"
  assumes i: "i < length ox" and lx: "length (fst fv) = length ox" and ly: "length (snd fv) = length ox"
  defines "out \<equiv> local_median ox oy fv"
  defines "cur \<equiv> state_at fv out i"
  defines "nb \<equiv> neighbors ox oy cur i"
  shows "\<not> suspect fv i \<Longrightarrow> fst out ! i = fst fv ! i \<and> snd out ! i = snd fv ! i"
    and "suspect fv i \<Longrightarrow> nb \<noteq> [] \<Longrightarrow>
           fst out ! i = js_median (map (\<lambda>j. fst cur ! j) nb)
         \<and> snd out ! i = js_median (map (\<lambda>j. snd cur ! j) nb)"
    and "suspect fv i \<Longrightarrow> nb = [] \<Longrightarrow> fst out ! i = fst fv ! i \<and> snd out ! i = snd fv ! i"
proof -
  from i have le: "i \<le> length ox" by simp
  have st: "foldl (median_step ox oy) fv [0..<i] = cur"
    unfolding cur_def out_def by (rule state_when_reached [OF lx ly le])
  have o: "fst out ! i = fst (median_step ox oy cur i) ! i"
      "snd out ! i = snd (median_step ox oy cur i) ! i"
    unfolding out_def local_median_at [OF i] st by simp_all
  have lo: "length (fst out) = length ox" "length (snd out) = length ox"
    using lx ly by (simp_all add: out_def local_median_def)
  have here: "fst cur ! i = fst fv ! i" "snd cur ! i = snd fv ! i"
    unfolding cur_def using state_at_nth [OF lx ly lo i, of i] by simp_all
  have len: "i < length (fst cur)" "i < length (snd cur)"
    using i lx ly lo by (simp_all add: cur_def state_at_def)
  {
    assume "\<not> suspect fv i"
    with here have "\<not> suspect cur i" by (simp add: suspect_def)
    then have "median_step ox oy cur i = cur" by (rule median_step_clean)
    with o here show "fst out ! i = fst fv ! i \<and> snd out ! i = snd fv ! i" by simp
  }
  {
    assume sus: "suspect fv i" and ne: "nb \<noteq> []"
    from sus here have "isNaN (fst cur ! i) \<or> isNaN (snd cur ! i)" by (simp add: suspect_def)
    with ne have "median_step ox oy cur i
        = ((fst cur)[i := js_sort (map (\<lambda>j. fst cur ! j) nb) ! (length (js_sort (map (\<lambda>j. fst cur ! j) nb)) div 2)],
           (snd cur)[i := js_sort (map (\<lambda>j. snd cur ! j) nb) ! (length (js_sort (map (\<lambda>j. snd cur ! j) nb)) div 2)])"
      by (simp add: median_step_def Let_def nb_def)
    with o len show "fst out ! i = js_median (map (\<lambda>j. fst cur ! j) nb)
         \<and> snd out ! i = js_median (map (\<lambda>j. snd cur ! j) nb)"
      by (simp add: js_median_def)
  }
  {
    assume sus: "suspect fv i" and e: "nb = []"
    then have "median_step ox oy cur i = cur"
      by (simp add: median_step_def Let_def nb_def)
    with o here show "fst out ! i = fst fv ! i \<and> snd out ! i = snd fv ! i" by simp
  }
qed

text \<open>
  C7, as the code has it, under either arithmetic. A component is marked \<^verbatim>\<open>NaN\<close> when it
  fails the test \<open>|u - mean_u| < 3 * std_u\<close> on the numbers the function computes, and a
  vector with a marked component is suspect. The filter visits the vectors in order and
  updates the two arrays in place: when it reaches the vector \<open>i\<close> the arrays hold the
  final values of the vectors before \<open>i\<close> and the marked values of the others
  (\<open>cur\<close>). The neighbours \<open>nb\<close> of \<open>i\<close> are the vectors within one grid step in both axes
  that have no \<^verbatim>\<open>NaN\<close> in \<open>cur\<close>: a vector after \<open>i\<close> that is not suspect, and a vector
  before \<open>i\<close> that was not suspect or has been replaced already. A vector that is not
  suspect is left as it is. A suspect vector with neighbours gets the upper median of
  their \<open>u\<close> as its \<open>u\<close> and the upper median of their \<open>v\<close> as its \<open>v\<close>, both read in \<open>cur\<close>;
  a suspect vector without neighbours keeps its components as marked.
\<close>

theorem local_median_replacement:
  fixes originsX originsY vectorsX vectorsY :: "int list" and i :: nat and A :: arith
  assumes "length originsY = length originsX" and "length vectorsX = length originsX"
    and "length vectorsY = length originsX" and "i < length originsX"
  defines "fv0 \<equiv> marked A vectorsX vectorsY"
  defines "out \<equiv> local_median originsX originsY fv0"
  defines "cur \<equiv> state_at fv0 out i"
  defines "nb \<equiv> neighbors originsX originsY cur i"
  shows "fst fv0 ! i
           = (if js_lt (js_abs (js_sub A (num_of_int (vectorsX ! i))
                                   (array_mean A (map num_of_int vectorsX))))
                       (js_mul A (Num 3) (array_std A (map num_of_int vectorsX)
                                            (array_mean A (map num_of_int vectorsX))))
              then num_of_int (vectorsX ! i) else NaN)
       \<and> snd fv0 ! i
           = (if js_lt (js_abs (js_sub A (num_of_int (vectorsY ! i))
                                   (array_mean A (map num_of_int vectorsY))))
                       (js_mul A (Num 3) (array_std A (map num_of_int vectorsY)
                                            (array_mean A (map num_of_int vectorsY))))
              then num_of_int (vectorsY ! i) else NaN)
       \<and> (\<forall>j < length originsX.
             fst cur ! j = (if j < i then fst out ! j else fst fv0 ! j)
           \<and> snd cur ! j = (if j < i then snd out ! j else snd fv0 ! j))
       \<and> nb = filter (\<lambda>j. within_step originsX originsY i j
                           \<and> \<not> (if j < i then suspect out j else suspect fv0 j))
                      [0..<length originsX]
       \<and> (\<not> suspect fv0 i \<longrightarrow>
            fst out ! i = num_of_int (vectorsX ! i) \<and> snd out ! i = num_of_int (vectorsY ! i))
       \<and> (suspect fv0 i \<and> nb \<noteq> [] \<longrightarrow>
            fst out ! i = js_median (map (\<lambda>j. fst cur ! j) nb)
          \<and> snd out ! i = js_median (map (\<lambda>j. snd cur ! j) nb))
       \<and> (suspect fv0 i \<and> nb = [] \<longrightarrow>
            fst out ! i = fst fv0 ! i \<and> snd out ! i = snd fv0 ! i \<and> suspect out i)"
proof (intro conjI impI allI)
  have ix: "i < length vectorsX" and iy: "i < length vectorsY" using assms(2,3,4) by simp_all
  have lx: "length (fst fv0) = length originsX" and ly: "length (snd fv0) = length originsX"
    using assms(2,3) by (simp_all add: fv0_def marked_def)
  have lo: "length (fst out) = length originsX" "length (snd out) = length originsX"
    using lx ly by (simp_all add: out_def local_median_def)
  note turn = turn_of_vector [OF assms(4) lx ly, of originsY, folded out_def cur_def]
  show "fst fv0 ! i
           = (if js_lt (js_abs (js_sub A (num_of_int (vectorsX ! i))
                                   (array_mean A (map num_of_int vectorsX))))
                       (js_mul A (Num 3) (array_std A (map num_of_int vectorsX)
                                            (array_mean A (map num_of_int vectorsX))))
              then num_of_int (vectorsX ! i) else NaN)"
    using ix by (simp add: fv0_def marked_def mark_outliers_at)
  show "snd fv0 ! i
           = (if js_lt (js_abs (js_sub A (num_of_int (vectorsY ! i))
                                   (array_mean A (map num_of_int vectorsY))))
                       (js_mul A (Num 3) (array_std A (map num_of_int vectorsY)
                                            (array_mean A (map num_of_int vectorsY))))
              then num_of_int (vectorsY ! i) else NaN)"
    using iy by (simp add: fv0_def marked_def mark_outliers_at)
  {
    fix j assume j: "j < length originsX"
    from state_at_nth [OF lx ly lo j, of i]
    show "fst cur ! j = (if j < i then fst out ! j else fst fv0 ! j)"
      and "snd cur ! j = (if j < i then snd out ! j else snd fv0 ! j)"
      by (simp_all add: cur_def)
  } note at = this
  show "nb = filter (\<lambda>j. within_step originsX originsY i j
                           \<and> \<not> (if j < i then suspect out j else suspect fv0 j))
                      [0..<length originsX]"
    unfolding nb_def neighbors_eq
  proof (rule filter_cong [OF refl])
    fix j assume "j \<in> set [0..<length originsX]"
    then have j: "j < length originsX" by simp
    from at [OF j]
    show "(within_step originsX originsY i j \<and> \<not> suspect cur j)
        = (within_step originsX originsY i j \<and> \<not> (if j < i then suspect out j else suspect fv0 j))"
      by (simp add: suspect_def)
  qed
  {
    assume c: "\<not> suspect fv0 i"
    from turn(1) [OF c] marked_clean [OF ix iy c [unfolded fv0_def]]
    show "fst out ! i = num_of_int (vectorsX ! i)" and "snd out ! i = num_of_int (vectorsY ! i)"
      by (simp_all add: fv0_def)
  }
  {
    assume a: "suspect fv0 i \<and> nb \<noteq> []"
    then have "suspect fv0 i" and "neighbors originsX originsY cur i \<noteq> []"
      by (simp_all add: nb_def)
    from turn(2) [OF this]
    show "fst out ! i = js_median (map (\<lambda>j. fst cur ! j) nb)"
      and "snd out ! i = js_median (map (\<lambda>j. snd cur ! j) nb)" by (simp_all add: nb_def)
  }
  {
    assume a: "suspect fv0 i \<and> nb = []"
    then have "suspect fv0 i" and "neighbors originsX originsY cur i = []"
      by (simp_all add: nb_def)
    from turn(3) [OF this]
    show x: "fst out ! i = fst fv0 ! i" and y: "snd out ! i = snd fv0 ! i"
      by simp_all
    from x y a show "suspect out i" by (simp add: suspect_def)
  }
qed

subsection \<open>A row of ten windows\<close>

lemma sqrt_9: "sqrt 9 = 3"
  by (rule real_sqrt_unique) simp_all

lemma mean_one_outlier:
  "array_mean A [Num 0, Num 0, Num 0, Num 0, Num 0, Num 0, Num 0, Num 0, Num 10, Num 0] = Num 1"
  "array_mean A [Num 0, Num 0, Num 0, Num 0, Num 0, Num 0, Num 0, Num 0, Num 0, Num 10] = Num 1"
  by (simp_all add: array_mean_def fl_small)

lemma std_one_outlier:
  "array_std A [Num 0, Num 0, Num 0, Num 0, Num 0, Num 0, Num 0, Num 0, Num 10, Num 0] (Num 1) = Num 3"
  "array_std A [Num 0, Num 0, Num 0, Num 0, Num 0, Num 0, Num 0, Num 0, Num 0, Num 10] (Num 1) = Num 3"
  by (simp_all add: array_std_def js_sub_def js_pow2_def sqrt_9 fl_small)

lemma mark_outlier_at_8:
  "mark_outliers A (map num_of_int outlier_at_8)
     = [Num 0, Num 0, Num 0, Num 0, Num 0, Num 0, Num 0, Num 0, NaN, Num 0]"
  unfolding mark_outliers_def outlier_at_8_def num_of_int_def
  by (simp add: mean_one_outlier std_one_outlier js_sub_def PIV_PARAMS_def fl_small)

lemma mark_outlier_at_9:
  "mark_outliers A (map num_of_int outlier_at_9)
     = [Num 0, Num 0, Num 0, Num 0, Num 0, Num 0, Num 0, Num 0, Num 0, NaN]"
  unfolding mark_outliers_def outlier_at_9_def num_of_int_def
  by (simp add: mean_one_outlier std_one_outlier js_sub_def PIV_PARAMS_def fl_small)

lemma row_two_outliers:
  "local_median row_originsX row_originsY
       ([Num 0, Num 0, Num 0, Num 0, Num 0, Num 0, Num 0, Num 0, NaN, Num 0],
        [Num 0, Num 0, Num 0, Num 0, Num 0, Num 0, Num 0, Num 0, Num 0, NaN])
     = ([Num 0, Num 0, Num 0, Num 0, Num 0, Num 0, Num 0, Num 0, Num 0, Num 0],
        [Num 0, Num 0, Num 0, Num 0, Num 0, Num 0, Num 0, Num 0, Num 0, Num 0])"
  by (simp add: local_median_def median_step_def neighbors_def isNaN_def PIV_PARAMS_def
        js_sort_def upt_rec_numeral Let_def row_originsX_def row_originsY_def)

theorem local_median_replacement_witness:
  "length row_originsY = length row_originsX \<and> length outlier_at_8 = length row_originsX
   \<and> length outlier_at_9 = length row_originsX \<and> 9 < length row_originsX
   \<and> suspect (marked Double outlier_at_8 outlier_at_9) 9
   \<and> neighbors row_originsX row_originsY
       (state_at (marked Double outlier_at_8 outlier_at_9)
          (local_median row_originsX row_originsY (marked Double outlier_at_8 outlier_at_9)) 9) 9 = [8]
   \<and> fst (local_median row_originsX row_originsY (marked Double outlier_at_8 outlier_at_9)) ! 9 = Num 0
   \<and> snd (local_median row_originsX row_originsY (marked Double outlier_at_8 outlier_at_9)) ! 9 = Num 0"
proof -
  let ?fv0 = "marked Double outlier_at_8 outlier_at_9"
  let ?out = "local_median row_originsX row_originsY ?fv0"
  have h1: "length row_originsY = length row_originsX"
    and h2: "length outlier_at_8 = length row_originsX"
    and h3: "length outlier_at_9 = length row_originsX"
    and h4: "9 < length row_originsX"
    by (simp_all add: row_originsX_def row_originsY_def outlier_at_8_def outlier_at_9_def)
  have fv0: "?fv0 = ([Num 0, Num 0, Num 0, Num 0, Num 0, Num 0, Num 0, Num 0, NaN, Num 0],
                     [Num 0, Num 0, Num 0, Num 0, Num 0, Num 0, Num 0, Num 0, Num 0, NaN])"
    by (simp add: marked_def mark_outlier_at_8 mark_outlier_at_9)
  have out: "?out = ([Num 0, Num 0, Num 0, Num 0, Num 0, Num 0, Num 0, Num 0, Num 0, Num 0],
                     [Num 0, Num 0, Num 0, Num 0, Num 0, Num 0, Num 0, Num 0, Num 0, Num 0])"
    unfolding fv0 by (rule row_two_outliers)
  have sus: "suspect ?fv0 9" by (simp add: fv0 suspect_def isNaN_def)
  have cur: "state_at ?fv0 ?out 9
      = ([Num 0, Num 0, Num 0, Num 0, Num 0, Num 0, Num 0, Num 0, Num 0, Num 0],
         [Num 0, Num 0, Num 0, Num 0, Num 0, Num 0, Num 0, Num 0, Num 0, NaN])"
    unfolding out unfolding fv0 by (simp add: state_at_def)
  have nb: "neighbors row_originsX row_originsY (state_at ?fv0 ?out 9) 9 = [8]"
    unfolding cur
    by (simp add: neighbors_def isNaN_def PIV_PARAMS_def row_originsX_def row_originsY_def
        upt_rec_numeral)
  have ne: "neighbors row_originsX row_originsY (state_at ?fv0 ?out 9) 9 \<noteq> []"
    unfolding nb by simp
  note th = local_median_replacement [OF h1 h2 h3 h4, where A = Double,
      THEN conjunct2, THEN conjunct2, THEN conjunct2, THEN conjunct2, THEN conjunct2,
      THEN conjunct1]
  from th sus ne
  have "fst ?out ! 9 = js_median (map (\<lambda>j. fst (state_at ?fv0 ?out 9) ! j)
                           (neighbors row_originsX row_originsY (state_at ?fv0 ?out 9) 9))
      \<and> snd ?out ! 9 = js_median (map (\<lambda>j. snd (state_at ?fv0 ?out 9) ! j)
                           (neighbors row_originsX row_originsY (state_at ?fv0 ?out 9) 9))"
    by blast
  then have "fst ?out ! 9 = js_median [fst (state_at ?fv0 ?out 9) ! 8]
      \<and> snd ?out ! 9 = js_median [snd (state_at ?fv0 ?out 9) ! 8]"
    unfolding nb by simp
  then have "fst ?out ! 9 = Num 0 \<and> snd ?out ! 9 = Num 0"
    unfolding cur by (simp add: js_median_def js_sort_def)
  with h1 h2 h3 h4 sus nb show ?thesis by blast
qed

text \<open>
  C7 as stated fails on the code. In a row of ten windows, vector 8 is suspect in \<open>u\<close> and
  vector 9 in \<open>v\<close>. Vector 9 has no neighbour that is not suspect (vector 8 is the only
  other vector within one step), yet it is not left unmodified: when the loop reaches
  it, vector 8 has been replaced already and serves as its neighbour, and vector 9
  becomes \<open>(0, 0)\<close>.
\<close>

theorem chained_replacement_counterexample:
  "suspect (marked Double outlier_at_8 outlier_at_9) 9
   \<and> snd (marked Double outlier_at_8 outlier_at_9) ! 9 = NaN
   \<and> neighbors row_originsX row_originsY (marked Double outlier_at_8 outlier_at_9) 9 = []
   \<and> local_median row_originsX row_originsY (marked Double outlier_at_8 outlier_at_9)
       = ([Num 0, Num 0, Num 0, Num 0, Num 0, Num 0, Num 0, Num 0, Num 0, Num 0],
          [Num 0, Num 0, Num 0, Num 0, Num 0, Num 0, Num 0, Num 0, Num 0, Num 0])
   \<and> outlier_at_9 ! 9 = 10"
proof -
  let ?fv0 = "marked Double outlier_at_8 outlier_at_9"
  have fv0: "?fv0 = ([Num 0, Num 0, Num 0, Num 0, Num 0, Num 0, Num 0, Num 0, NaN, Num 0],
                     [Num 0, Num 0, Num 0, Num 0, Num 0, Num 0, Num 0, Num 0, Num 0, NaN])"
    by (simp add: marked_def mark_outlier_at_8 mark_outlier_at_9)
  have a: "suspect ?fv0 9" "snd ?fv0 ! 9 = NaN" by (simp_all add: fv0 suspect_def isNaN_def)
  have b: "neighbors row_originsX row_originsY ?fv0 9 = []"
    by (simp add: fv0 neighbors_def isNaN_def PIV_PARAMS_def row_originsX_def row_originsY_def
        upt_rec_numeral)
  have c: "local_median row_originsX row_originsY ?fv0
       = ([Num 0, Num 0, Num 0, Num 0, Num 0, Num 0, Num 0, Num 0, Num 0, Num 0],
          [Num 0, Num 0, Num 0, Num 0, Num 0, Num 0, Num 0, Num 0, Num 0, Num 0])"
    unfolding fv0 by (rule row_two_outliers)
  have d: "outlier_at_9 ! 9 = 10" by (simp add: outlier_at_9_def)
  from a b c d show ?thesis by (intro conjI)
qed

end
